theory Spec2Isabelle
  imports Main "HOL-Library.Word"
begin

unbundle bit_operations_syntax

chapter \<open>Model of the sources\<close>

text \<open>
  A shallow embedding of the parts of the wireless daemon that the claims are about:
  the non-HT rate estimator of \<^verbatim>\<open>src/band.c\<close>, the attribute parser of
  \<^verbatim>\<open>src/nl80211util.c\<close>, the Fast BSS Transition engine of \<^verbatim>\<open>src/ft.c\<close> and the
  URI, wrapped-data and key-derivation helpers of \<^verbatim>\<open>src/dpp-util.c\<close>.
  Byte buffers are lists of 8-bit words; a pointer that may be \<^verbatim>\<open>NULL\<close> is an option;
  a negative errno return is a value of the datatype \<open>errno\<close>.
\<close>

type_synonym u8 = "8 word"
type_synonym bytes = "8 word list"

datatype errno = EINVAL | ENOSYS | EALREADY | ENOENT | EBADMSG

section \<open>band.c: non-HT rate estimation\<close>

text \<open>
  The table \<^verbatim>\<open>rate_rssi_map\<close>: minimum RSSI for a legacy rate, the rate encoded as in the
  Supported Rates element (units of 500 kbit/s).
\<close>

definition rate_rssi_map :: "(int \<times> u8) list" where
  "rate_rssi_map =
     [(-90, 2), (-88, 4), (-86, 11), (-84, 22), (-82, 12), (-81, 18),
      (-79, 24), (-77, 36), (-74, 48), (-70, 72), (-66, 96), (-65, 108)]"

text \<open>
  \<^verbatim>\<open>peer_supports_rate(rates, rate)\<close>: \<open>rates\<close> points at an element (tag, length, body)
  or is \<^verbatim>\<open>NULL\<close>; the loop reads \<^verbatim>\<open>rates[i + 2] & 0x7f\<close> for \<open>i < rates[1]\<close>.
\<close>

fun peer_supports_rate :: "bytes option \<Rightarrow> u8 \<Rightarrow> bool" where
  "peer_supports_rate None rate = False"
| "peer_supports_rate (Some rates) rate =
     (rates ! 1 \<noteq> 0 \<and>
      list_ex (\<lambda>i. (rates ! (i + 2)) AND 0x7f = rate) [0..<unat (rates ! 1)])"

text \<open>
  Of \<^verbatim>\<open>struct band\<close> the estimator reads the array \<^verbatim>\<open>supported_rates\<close> and its length
  \<^verbatim>\<open>supported_rates_len\<close>: here one list.
\<close>

record band =
  supported_rates :: bytes

text \<open>
  One iteration of the loop of \<^verbatim>\<open>band_estimate_nonht_rate\<close>, from the current
  \<^verbatim>\<open>max_rate\<close> to the next: the three \<^verbatim>\<open>continue\<close> statements keep \<^verbatim>\<open>max_rate\<close>.
  The inner loop over \<^verbatim>\<open>rate_rssi_map\<close> stops at the first entry with that rate.
\<close>

definition nonht_rate_step :: "bytes option \<Rightarrow> bytes option \<Rightarrow> int \<Rightarrow> u8 \<Rightarrow> u8 \<Rightarrow> u8" where
  "nonht_rate_step sr esr rssi rate max_rate =
     (if max_rate \<ge> rate then max_rate
      else case find (\<lambda>e. snd e = rate) rate_rssi_map of
             None \<Rightarrow> max_rate
           | Some e \<Rightarrow>
               if rssi < fst e then max_rate
               else if peer_supports_rate sr rate \<or> peer_supports_rate esr rate
                    then rate else max_rate)"

text \<open>
  The loop runs from the last band rate to the first. The product
  \<^verbatim>\<open>max_rate * 500000\<close> is computed in \<^verbatim>\<open>int\<close> (at most 255 * 500000, no overflow) and
  stored in a \<^verbatim>\<open>uint64_t\<close>.
\<close>

definition band_estimate_nonht_rate ::
  "band \<Rightarrow> bytes option \<Rightarrow> bytes option \<Rightarrow> int \<Rightarrow> errno + 64 word" where
  "band_estimate_nonht_rate b sr esr rssi =
     (if sr = None \<and> esr = None then Inl EINVAL
      else
        let max_rate = fold (nonht_rate_step sr esr rssi) (rev (supported_rates b)) 0
        in if max_rate = 0 then Inl EINVAL
           else Inr (word_of_int (uint max_rate * 500000)))"

text \<open>
  The words of the specification, for comparison with the code. An element is well
  formed when its buffer holds the body its length byte announces (the caller of
  the estimator has parsed it); \<open>peer_advertises\<close> says that a rate is one of the body's
  bytes with the basic-rate bit masked; \<open>rate_usable\<close> that the threshold table lists the
  rate with a threshold the RSSI reaches.
\<close>

definition ie_ok :: "bytes option \<Rightarrow> bool" where
  "ie_ok ie = (case ie of None \<Rightarrow> True | Some rs \<Rightarrow> unat (rs ! 1) + 2 \<le> length rs)"

definition peer_advertises :: "bytes option \<Rightarrow> u8 \<Rightarrow> bool" where
  "peer_advertises ie rate =
     (case ie of None \<Rightarrow> False
      | Some rs \<Rightarrow> \<exists>b \<in> set (take (unat (rs ! 1)) (drop 2 rs)). b AND 0x7f = rate)"

definition rate_usable :: "int \<Rightarrow> u8 \<Rightarrow> bool" where
  "rate_usable rssi rate = (\<exists>e \<in> set rate_rssi_map. snd e = rate \<and> fst e \<le> rssi)"

definition eligible :: "bytes option \<Rightarrow> bytes option \<Rightarrow> int \<Rightarrow> u8 \<Rightarrow> bool" where
  "eligible sr esr rssi rate =
     (rate_usable rssi rate \<and> (peer_advertises sr rate \<or> peer_advertises esr rate))"

section \<open>nl80211util.c: typed attribute parsing\<close>

text \<open>
  The attribute identifiers of \<^verbatim>\<open>enum nl80211_attrs\<close> that \<^verbatim>\<open>handler_for_type\<close> names, the
  list terminator \<^verbatim>\<open>NL80211_ATTR_UNSPEC\<close>, and one constructor for every other identifier
  (the kernel header that numbers them is not part of the sources). Only equality of
  identifiers is used by the parser.
\<close>

datatype nl80211_attrs =
    NL80211_ATTR_UNSPEC
  | NL80211_ATTR_IFINDEX
  | NL80211_ATTR_WIPHY
  | NL80211_ATTR_IFTYPE
  | NL80211_ATTR_KEY_TYPE
  | NL80211_ATTR_WDEV
  | NL80211_ATTR_COOKIE
  | NL80211_ATTR_IFNAME
  | NL80211_ATTR_WIPHY_NAME
  | NL80211_ATTR_REG_ALPHA2
  | NL80211_ATTR_MAC
  | NL80211_ATTR_ACK
  | NL80211_ATTR_WIPHY_FREQ
  | NL80211_ATTR_WIPHY_FREQ_OFFSET
  | NL80211_ATTR_WIPHY_CHANNEL_TYPE
  | NL80211_ATTR_CHANNEL_WIDTH
  | NL80211_ATTR_CENTER_FREQ1
  | NL80211_ATTR_CENTER_FREQ2
  | NL80211_ATTR_FRAME
  | NL80211_ATTR_WIPHY_BANDS
  | NL80211_ATTR_KEY_IDX
  | NL80211_ATTR_OTHER nat

text \<open>
  What a handler stores through its \<^verbatim>\<open>void *o\<close> argument. Pointers into the message
  (\<^verbatim>\<open>extract_name\<close>, \<^verbatim>\<open>extract_mac\<close>, \<^verbatim>\<open>extract_iovec\<close>) are the payload bytes they point
  at; the nested iterator of \<^verbatim>\<open>extract_nested\<close> is the payload it iterates over. The
  caller's output locations are addresses (natural numbers) in a store.
\<close>

datatype out_value =
    Out_u8 u8
  | Out_u32 "32 word"
  | Out_u64 "64 word"
  | Out_name bytes
  | Out_2_chars u8 u8
  | Out_mac bytes
  | Out_flag bool
  | Out_iovec bytes
  | Out_nested bytes

type_synonym outputs = "nat \<rightharpoonup> out_value"

text \<open>
  \<^verbatim>\<open>l_get_u8\<close>, \<^verbatim>\<open>l_get_u32\<close> and \<^verbatim>\<open>l_get_u64\<close> load an integer in host byte order;
  the least significant byte comes first here (a little-endian host).
\<close>

definition l_get_le :: "bytes \<Rightarrow> 'a::len word" where
  "l_get_le bs = foldr (\<lambda>b acc. ucast b OR push_bit 8 acc) bs 0"

definition l_get_u8 :: "bytes \<Rightarrow> u8" where
  "l_get_u8 d = l_get_le (take 1 d)"

definition l_get_u32 :: "bytes \<Rightarrow> 32 word" where
  "l_get_u32 d = l_get_le (take 4 d)"

definition l_get_u64 :: "bytes \<Rightarrow> 64 word" where
  "l_get_u64 d = l_get_le (take 8 d)"

text \<open>
  The handlers, \<^verbatim>\<open>bool handler(const void *data, uint16_t len, void *o)\<close>: the payload
  is a list whose length is \<^verbatim>\<open>len\<close>, \<open>o\<close> is the output location, and the result is
  \<open>None\<close> for \<^verbatim>\<open>false\<close> and the store after the handler's writes for \<^verbatim>\<open>true\<close>.
\<close>

definition extract_ifindex :: "bytes \<Rightarrow> nat \<Rightarrow> outputs \<Rightarrow> outputs option" where
  "extract_ifindex d out st =
     (if length d \<noteq> 4 then None
      else if l_get_u32 d = 0 then None
      else Some (st(out \<mapsto> Out_u32 (l_get_u32 d))))"

definition extract_name :: "bytes \<Rightarrow> nat \<Rightarrow> outputs \<Rightarrow> outputs option" where
  "extract_name d out st =
     (if length d < 1 then None
      else if 0 \<notin> set (drop 1 d) then None
      else Some (st(out \<mapsto> Out_name d)))"

definition extract_2_chars :: "bytes \<Rightarrow> nat \<Rightarrow> outputs \<Rightarrow> outputs option" where
  "extract_2_chars d out st =
     (if length d \<noteq> 3 \<or> d ! 2 \<noteq> 0 then None
      else Some (st(out \<mapsto> Out_2_chars (d ! 0) (d ! 1))))"

definition extract_mac :: "bytes \<Rightarrow> nat \<Rightarrow> outputs \<Rightarrow> outputs option" where
  "extract_mac d out st =
     (if length d \<noteq> 6 then None else Some (st(out \<mapsto> Out_mac d)))"

definition extract_uint64 :: "bytes \<Rightarrow> nat \<Rightarrow> outputs \<Rightarrow> outputs option" where
  "extract_uint64 d out st =
     (if length d \<noteq> 8 then None else Some (st(out \<mapsto> Out_u64 (l_get_u64 d))))"

definition extract_uint32 :: "bytes \<Rightarrow> nat \<Rightarrow> outputs \<Rightarrow> outputs option" where
  "extract_uint32 d out st =
     (if length d \<noteq> 4 then None else Some (st(out \<mapsto> Out_u32 (l_get_u32 d))))"

definition extract_flag :: "bytes \<Rightarrow> nat \<Rightarrow> outputs \<Rightarrow> outputs option" where
  "extract_flag d out st = (if length d \<noteq> 0 then None else Some st)"

definition extract_iovec :: "bytes \<Rightarrow> nat \<Rightarrow> outputs \<Rightarrow> outputs option" where
  "extract_iovec d out st = Some (st(out \<mapsto> Out_iovec d))"

definition extract_nested :: "bytes \<Rightarrow> nat \<Rightarrow> outputs \<Rightarrow> outputs option" where
  "extract_nested d out st = Some (st(out \<mapsto> Out_nested d))"

definition extract_u8 :: "bytes \<Rightarrow> nat \<Rightarrow> outputs \<Rightarrow> outputs option" where
  "extract_u8 d out st =
     (if length d \<noteq> 1 then None else Some (st(out \<mapsto> Out_u8 (l_get_u8 d))))"

text \<open>
  A handler is a function pointer that the parser also compares by identity
  (\<^verbatim>\<open>entry->handler == extract_flag\<close>): a tag for each function, and the call through it.
\<close>

datatype attr_handler =
    Extract_ifindex | Extract_name | Extract_2_chars | Extract_mac | Extract_uint64
  | Extract_uint32 | Extract_flag | Extract_iovec | Extract_nested | Extract_u8

fun call_handler :: "attr_handler \<Rightarrow> bytes \<Rightarrow> nat \<Rightarrow> outputs \<Rightarrow> outputs option" where
  "call_handler Extract_ifindex = extract_ifindex"
| "call_handler Extract_name = extract_name"
| "call_handler Extract_2_chars = extract_2_chars"
| "call_handler Extract_mac = extract_mac"
| "call_handler Extract_uint64 = extract_uint64"
| "call_handler Extract_uint32 = extract_uint32"
| "call_handler Extract_flag = extract_flag"
| "call_handler Extract_iovec = extract_iovec"
| "call_handler Extract_nested = extract_nested"
| "call_handler Extract_u8 = extract_u8"

fun handler_for_type :: "nl80211_attrs \<Rightarrow> attr_handler option" where
  "handler_for_type NL80211_ATTR_IFINDEX = Some Extract_ifindex"
| "handler_for_type NL80211_ATTR_WIPHY = Some Extract_uint32"
| "handler_for_type NL80211_ATTR_IFTYPE = Some Extract_uint32"
| "handler_for_type NL80211_ATTR_KEY_TYPE = Some Extract_uint32"
| "handler_for_type NL80211_ATTR_WDEV = Some Extract_uint64"
| "handler_for_type NL80211_ATTR_COOKIE = Some Extract_uint64"
| "handler_for_type NL80211_ATTR_IFNAME = Some Extract_name"
| "handler_for_type NL80211_ATTR_WIPHY_NAME = Some Extract_name"
| "handler_for_type NL80211_ATTR_REG_ALPHA2 = Some Extract_2_chars"
| "handler_for_type NL80211_ATTR_MAC = Some Extract_mac"
| "handler_for_type NL80211_ATTR_ACK = Some Extract_flag"
| "handler_for_type NL80211_ATTR_WIPHY_FREQ = Some Extract_uint32"
| "handler_for_type NL80211_ATTR_WIPHY_FREQ_OFFSET = Some Extract_uint32"
| "handler_for_type NL80211_ATTR_WIPHY_CHANNEL_TYPE = Some Extract_uint32"
| "handler_for_type NL80211_ATTR_CHANNEL_WIDTH = Some Extract_uint32"
| "handler_for_type NL80211_ATTR_CENTER_FREQ1 = Some Extract_uint32"
| "handler_for_type NL80211_ATTR_CENTER_FREQ2 = Some Extract_uint32"
| "handler_for_type NL80211_ATTR_FRAME = Some Extract_iovec"
| "handler_for_type NL80211_ATTR_WIPHY_BANDS = Some Extract_nested"
| "handler_for_type NL80211_ATTR_KEY_IDX = Some Extract_u8"
| "handler_for_type _ = None"

record attr_entry =
  type :: nl80211_attrs
  data :: nat
  handler :: attr_handler
  present :: bool

text \<open>
  The first loop of \<^verbatim>\<open>nl80211_parse_attrs\<close> reads (tag, output pointer) pairs from the
  variable argument list until the tag is \<^verbatim>\<open>NL80211_ATTR_UNSPEC\<close>, and leaves with
  \<^verbatim>\<open>-ENOSYS\<close> at the first tag without a handler (\<open>None\<close> here). The argument list is
  the list of pairs; its end stands for the terminating \<^verbatim>\<open>NL80211_ATTR_UNSPEC\<close>.
\<close>

fun build_entries :: "(nl80211_attrs \<times> nat) list \<Rightarrow> attr_entry list option" where
  "build_entries [] = Some []"
| "build_entries ((tag, out) # args) =
     (if tag = NL80211_ATTR_UNSPEC then Some []
      else case handler_for_type tag of
             None \<Rightarrow> None
           | Some h \<Rightarrow>
               map_option
                 (\<lambda>es. \<lparr>type = tag, data = out, handler = h, present = False\<rparr> # es)
                 (build_entries args))"

text \<open>
  The body of the second loop for one attribute of the message: the walk over the
  entries to the first one of the attribute's type, then the three outcomes
  (\<^verbatim>\<open>-EALREADY\<close>, \<^verbatim>\<open>-EINVAL\<close>, or the entry marked present). With no such entry the
  attribute is skipped. For \<^verbatim>\<open>extract_nested\<close> the parser passes the outer iterator,
  which stands at this attribute, in place of the payload pointer: in both cases the
  handler is given the payload of the attribute.
\<close>

fun scan_entry ::
  "attr_entry list \<Rightarrow> nl80211_attrs \<Rightarrow> bytes \<Rightarrow> outputs \<Rightarrow> (errno + attr_entry list) \<times> outputs" where
  "scan_entry [] t d st = (Inr [], st)"
| "scan_entry (e # es) t d st =
     (if type e = t then
        (if present e then (Inl EALREADY, st)
         else
           case call_handler (handler e) d (data e) st of
             None \<Rightarrow> (Inl EINVAL, st)
           | Some st' \<Rightarrow> (Inr (e\<lparr>present := True\<rparr> # es), st'))
      else
        (case scan_entry es t d st of
           (Inl err, st') \<Rightarrow> (Inl err, st')
         | (Inr es', st') \<Rightarrow> (Inr (e # es'), st')))"

fun scan_attrs ::
  "(nl80211_attrs \<times> bytes) list \<Rightarrow> attr_entry list \<Rightarrow> outputs \<Rightarrow> (errno + attr_entry list) \<times> outputs" where
  "scan_attrs [] es st = (Inr es, st)"
| "scan_attrs ((t, d) # attrs) es st =
     (case scan_entry es t d st of
        (Inl err, st') \<Rightarrow> (Inl err, st')
      | (Inr es', st') \<Rightarrow> scan_attrs attrs es' st')"

text \<open>
  The third loop: a flag entry is assigned its \<^verbatim>\<open>present\<close> bit, any other entry that is
  not present ends the call with \<^verbatim>\<open>-ENOENT\<close>.
\<close>

fun check_entries :: "attr_entry list \<Rightarrow> outputs \<Rightarrow> (errno + unit) \<times> outputs" where
  "check_entries [] st = (Inr (), st)"
| "check_entries (e # es) st =
     (if handler e = Extract_flag then check_entries es (st(data e \<mapsto> Out_flag (present e)))
      else if present e then check_entries es st
      else (Inl ENOENT, st))"

text \<open>
  \<^verbatim>\<open>nl80211_parse_attrs(msg, tag, ...)\<close>. The message is the sequence of attributes
  (type, payload) that \<^verbatim>\<open>l_genl_attr_next\<close> yields, or \<open>None\<close> when \<^verbatim>\<open>l_genl_attr_init\<close>
  fails. The result is the return value (\<open>Inr ()\<close> for 0) and the store of output
  locations after the call.
\<close>

definition nl80211_parse_attrs ::
  "(nl80211_attrs \<times> bytes) list option \<Rightarrow> (nl80211_attrs \<times> nat) list \<Rightarrow> outputs
     \<Rightarrow> (errno + unit) \<times> outputs" where
  "nl80211_parse_attrs msg args st =
     (case msg of
        None \<Rightarrow> (Inl EINVAL, st)
      | Some attrs \<Rightarrow>
          (case build_entries args of
             None \<Rightarrow> (Inl ENOSYS, st)
           | Some entries \<Rightarrow>
               (case scan_attrs attrs entries st of
                  (Inl err, st') \<Rightarrow> (Inl err, st')
                | (Inr entries', st') \<Rightarrow> check_entries entries' st')))"

text \<open>
  The words of the specification about the parser. The request is the part of the
  argument list before the terminator; an identifier is supported when the schema has
  a decoder for it; \<open>payload_ok\<close> lists what each decoder accepts; a run of message
  attributes is \<open>clean\<close> for a request when no requested identifier occurs twice in it
  and every requested attribute in it is accepted by its decoder.
\<close>

definition requested :: "(nl80211_attrs \<times> nat) list \<Rightarrow> (nl80211_attrs \<times> nat) list" where
  "requested args = takeWhile (\<lambda>a. fst a \<noteq> NL80211_ATTR_UNSPEC) args"

definition all_supported :: "(nl80211_attrs \<times> nat) list \<Rightarrow> bool" where
  "all_supported req = list_all (\<lambda>a. handler_for_type (fst a) \<noteq> None) req"

definition wanted :: "(nl80211_attrs \<times> nat) list \<Rightarrow> nl80211_attrs \<Rightarrow> bool" where
  "wanted req t = (t \<in> fst ` set req)"

fun payload_ok :: "attr_handler \<Rightarrow> bytes \<Rightarrow> bool" where
  "payload_ok Extract_ifindex d = (length d = 4 \<and> l_get_u32 d \<noteq> 0)"
| "payload_ok Extract_name d = (1 \<le> length d \<and> 0 \<in> set (drop 1 d))"
| "payload_ok Extract_2_chars d = (length d = 3 \<and> d ! 2 = 0)"
| "payload_ok Extract_mac d = (length d = 6)"
| "payload_ok Extract_uint64 d = (length d = 8)"
| "payload_ok Extract_uint32 d = (length d = 4)"
| "payload_ok Extract_flag d = (length d = 0)"
| "payload_ok Extract_iovec d = True"
| "payload_ok Extract_nested d = True"
| "payload_ok Extract_u8 d = (length d = 1)"

definition decoder_accepts :: "nl80211_attrs \<Rightarrow> bytes \<Rightarrow> bool" where
  "decoder_accepts t d = (case handler_for_type t of None \<Rightarrow> False | Some h \<Rightarrow> payload_ok h d)"

definition is_flag :: "nl80211_attrs \<Rightarrow> bool" where
  "is_flag t = (handler_for_type t = Some Extract_flag)"

definition clean :: "(nl80211_attrs \<times> nat) list \<Rightarrow> (nl80211_attrs \<times> bytes) list \<Rightarrow> bool" where
  "clean req attrs =
     (distinct (filter (wanted req) (map fst attrs)) \<and>
      list_all (\<lambda>a. wanted req (fst a) \<longrightarrow> decoder_accepts (fst a) (snd a)) attrs)"

text \<open>Marking the first entry of a type present, as the second loop does on success.\<close>

fun mark :: "nl80211_attrs \<Rightarrow> attr_entry list \<Rightarrow> attr_entry list" where
  "mark t [] = []"
| "mark t (e # es) = (if type e = t then e\<lparr>present := True\<rparr> # es else e # mark t es)"


text \<open>
  Notions for the proofs about the parser: the entry the first loop builds for a
  request, whether the first entry of a type is marked present, and that each entry
  carries the handler of its type.
\<close>

definition entry_of :: "nl80211_attrs \<times> nat \<Rightarrow> attr_entry" where
  "entry_of a = \<lparr>type = fst a, data = snd a, handler = the (handler_for_type (fst a)), present = False\<rparr>"

definition is_present :: "attr_entry list \<Rightarrow> nl80211_attrs \<Rightarrow> bool" where
  "is_present es t = (case find (\<lambda>e. type e = t) es of None \<Rightarrow> False | Some e \<Rightarrow> present e)"

definition wf_entries :: "attr_entry list \<Rightarrow> bool" where
  "wf_entries es = (\<forall>e \<in> set es. handler_for_type (type e) = Some (handler e))"

section \<open>ft.c: Fast BSS Transition\<close>

subsection \<open>Data\<close>

text \<open>
  The values of the errno constants on Linux; a status is an \<^verbatim>\<open>int\<close> that holds a
  status code of a response or a negated errno.
\<close>

fun errno_val :: "errno \<Rightarrow> int" where
  "errno_val ENOENT = 2"
| "errno_val EINVAL = 22"
| "errno_val ENOSYS = 38"
| "errno_val EBADMSG = 74"
| "errno_val EALREADY = 114"

text \<open>
  The element identifiers \<^verbatim>\<open>IE_TYPE_RSN\<close>, \<^verbatim>\<open>IE_TYPE_MOBILITY_DOMAIN\<close> and
  \<^verbatim>\<open>IE_TYPE_FAST_BSS_TRANSITION\<close> of \<^verbatim>\<open>src/ie.h\<close>, with their IEEE 802.11 numbers.
\<close>

definition IE_TYPE_RSN :: u8 where "IE_TYPE_RSN = 48"
definition IE_TYPE_MOBILITY_DOMAIN :: u8 where "IE_TYPE_MOBILITY_DOMAIN = 54"
definition IE_TYPE_FAST_BSS_TRANSITION :: u8 where "IE_TYPE_FAST_BSS_TRANSITION = 55"

text \<open>
  Of \<^verbatim>\<open>struct ie_rsn_info\<close> (declared in \<^verbatim>\<open>src/ie.h\<close>) the FT code writes three fields;
  the fields it only passes on are the component \<open>rsn_others\<close>.
\<close>

record 'r ie_rsn_info =
  num_pmkids :: nat
  pmkids :: bytes
  ocvc :: bool
  rsn_others :: 'r

text \<open>
  The fields of \<^verbatim>\<open>struct ie_ft_info\<close> that the modelled functions use. The array
  \<^verbatim>\<open>r0khid\<close> and its length \<^verbatim>\<open>r0khid_len\<close> are one list; \<^verbatim>\<open>mic\<close> is the 24 byte array.
\<close>

record ie_ft_info =
  ft_mic_element_count :: u8
  ft_mic :: bytes
  ft_anonce :: bytes
  ft_snonce :: bytes
  ft_r0khid :: bytes
  ft_r1khid :: bytes
  ft_r1khid_present :: bool
  ft_oci :: bytes
  ft_oci_present :: bool

text \<open>The result of \<^verbatim>\<open>memset(&ft_info, 0, sizeof(ft_info))\<close>.\<close>

definition zero_ft_info :: ie_ft_info where
  "zero_ft_info =
     \<lparr>ft_mic_element_count = 0, ft_mic = replicate 24 0, ft_anonce = replicate 32 0,
      ft_snonce = replicate 32 0, ft_r0khid = [], ft_r1khid = replicate 6 0,
      ft_r1khid_present = False, ft_oci = replicate 3 0, ft_oci_present = False\<rparr>"

text \<open>
  Modelled from the spec: \<^verbatim>\<open>struct handshake_state\<close> (\<^verbatim>\<open>src/handshake.h\<close> is not among the
  sources), with the fields the specification lists as read or written by FT:
  station and authenticator address, the nonces, the MDE (the 5 byte element that
  \<^verbatim>\<open>hs->mde\<close> points at), the key holder identifiers, the PMK-R0 and PMK-R1 names, the
  KCK and its length (what \<^verbatim>\<open>handshake_state_get_kck\<close> and
  \<^verbatim>\<open>handshake_state_get_kck_len\<close> return), the supplicant and authenticator elements,
  the OCVC flag and the channel definition.
\<close>

record 'c handshake_state =
  hs_ifindex :: "32 word"
  hs_spa :: bytes
  hs_aa :: bytes
  hs_anonce :: bytes
  hs_snonce :: bytes
  hs_mde :: bytes
  hs_r0khid :: bytes
  hs_r1khid :: bytes
  hs_pmk_r0_name :: bytes
  hs_pmk_r1_name :: bytes
  hs_kck :: bytes
  hs_kck_len :: nat
  hs_supplicant_ie :: "bytes option"
  hs_authenticator_ie :: "bytes option"
  hs_supplicant_fte :: "bytes option"
  hs_authenticator_fte :: "bytes option"
  hs_supplicant_ocvc :: bool
  hs_chandef :: "'c option"

text \<open>
  \<^verbatim>\<open>struct ft_info\<close>, one pending FT attempt. The scheduling handles \<^verbatim>\<open>timeout\<close> and
  \<^verbatim>\<open>work\<close> are left out: no modelled function reads them.
\<close>

record ft_info =
  ifindex :: "32 word"
  spa :: bytes
  aa :: bytes
  snonce :: bytes
  mde :: bytes
  fte :: "bytes option"
  authenticator_ie :: "bytes option"
  prev_bssid :: bytes
  frequency :: "32 word"
  ds_frequency :: "32 word"
  offchannel_id :: "32 word"
  status :: int
  parsed_ft_info :: ie_ft_info
  onchannel :: bool

text \<open>The fields of \<^verbatim>\<open>struct scan_bss\<close> that \<^verbatim>\<open>ft_info_new\<close> reads.\<close>

record scan_bss =
  bss_addr :: bytes
  bss_mde :: bytes
  bss_frequency :: "32 word"
  bss_rsne :: "bytes option"

text \<open>
  The functions of other modules that the FT code calls and that are not among the
  sources, as parameters: the element parsers and builders of \<^verbatim>\<open>ie.c\<close> (\<open>None\<close> for a
  negative return); \<^verbatim>\<open>handshake_util_ap_ie_matches\<close>; \<^verbatim>\<open>handshake_state_derive_ptk\<close>, as
  the two results of the derivation that the modelled code reads afterwards, the
  PMK-R1-Name and the KCK (whose length the derivation does not change);
  \<^verbatim>\<open>mmpdu_header_len\<close>; \<^verbatim>\<open>oci_from_chandef\<close>; the two checksums of the crypto library
  (key and data to digest; \<open>None\<close> when the checksum cannot be created); and the frame
  transmitter installed with \<^verbatim>\<open>__ft_set_tx_frame_func\<close>.
\<close>

record ('r, 'c) ft_ext =
  ie_parse_rsne_from_data :: "bytes \<Rightarrow> 'r ie_rsn_info option"
  ie_build_rsne :: "'r ie_rsn_info \<Rightarrow> bytes"
  handshake_util_ap_ie_matches :: "'r ie_rsn_info \<Rightarrow> bytes option \<Rightarrow> bool \<Rightarrow> bool"
  ie_parse_fast_bss_transition_from_data :: "bytes \<Rightarrow> nat \<Rightarrow> ie_ft_info option"
  ie_build_fast_bss_transition :: "ie_ft_info \<Rightarrow> nat \<Rightarrow> bytes"
  handshake_state_derive_ptk :: "'c handshake_state \<Rightarrow> bytes \<times> bytes"
  mmpdu_header_len :: "bytes \<Rightarrow> nat"
  oci_from_chandef :: "'c \<Rightarrow> bytes"
  l_checksum_cmac_aes :: "bytes \<Rightarrow> bytes \<Rightarrow> bytes option"
  l_checksum_hmac_sha384 :: "bytes \<Rightarrow> bytes \<Rightarrow> bytes option"
  tx_frame :: "32 word \<Rightarrow> 16 word \<Rightarrow> 32 word \<Rightarrow> bytes \<Rightarrow> bytes list \<Rightarrow> int"

text \<open>
  An element that a pointer refers to is the list from its tag on; its extent is
  its length byte plus 2, as in \<^verbatim>\<open>rsne[1] + 2\<close>.
\<close>

definition ie_bytes :: "bytes \<Rightarrow> bytes" where
  "ie_bytes e = take (unat (e ! 1) + 2) e"

definition l_get_le16 :: "bytes \<Rightarrow> 16 word" where
  "l_get_le16 d = ucast (d ! 0) OR push_bit 8 (ucast (d ! 1))"

subsection \<open>The FTE MIC\<close>

text \<open>
  \<^verbatim>\<open>ft_calculate_fte_mic\<close>: the scatter list in the order the code fills it, the
  checksum chosen by the KCK length, and the first \<^verbatim>\<open>kck_len\<close> bytes of the digest;
  \<open>None\<close> for \<^verbatim>\<open>false\<close>.
\<close>

definition ft_calculate_fte_mic ::
  "('r, 'c) ft_ext \<Rightarrow> 'c handshake_state \<Rightarrow> u8 \<Rightarrow> bytes option \<Rightarrow> bytes option \<Rightarrow> bytes option
     \<Rightarrow> bytes option" where
  "ft_calculate_fte_mic X hs seq_num rsne fte' ric =
     (let kck = hs_kck hs;
          kck_len = hs_kck_len hs;
          zero_mic = replicate 24 (0 :: u8);
          iov =
            [take 6 (hs_spa hs), take 6 (hs_aa hs), [seq_num]] @
            (case rsne of None \<Rightarrow> [] | Some r \<Rightarrow> [take (unat (r ! 1) + 2) r]) @
            [take (unat (hs_mde hs ! 1) + 2) (hs_mde hs)] @
            (case fte' of
               None \<Rightarrow> []
             | Some f \<Rightarrow>
                 [take 4 f, take kck_len zero_mic,
                  take (unat (f ! 1) + 2 - 4 - kck_len) (drop (4 + kck_len) f)]) @
            (case ric of None \<Rightarrow> [] | Some r \<Rightarrow> [take (unat (r ! 1) + 2) r]);
          checksum =
            (if kck_len = 16 then l_checksum_cmac_aes X (take kck_len kck)
             else l_checksum_hmac_sha384 X (take kck_len kck))
      in case checksum (concat iov) of
           None \<Rightarrow> None
         | Some digest \<Rightarrow> Some (take kck_len digest))"

text \<open>
  The words of the specification about the MIC. \<open>fte_zero_mic\<close> is the FTE with the
  \<open>kck_len\<close> bytes of its MIC field, at offset 4, replaced by zero bytes;
  \<open>fte_mic_data\<close> is the concatenation SPA, AA, sequence number, RSNE, MDE and that
  FTE; \<open>reassoc_ft_info\<close> is the content of the FTE of a reassociation request
  before the MIC is filled in: element count 3 and the nonces and key holder
  identifiers of the handshake state.
\<close>

definition fte_zero_mic :: "nat \<Rightarrow> bytes \<Rightarrow> bytes" where
  "fte_zero_mic kck_len f =
     take 4 f @ take kck_len (replicate 24 0) @
     take (unat (f ! 1) + 2 - 4 - kck_len) (drop (4 + kck_len) f)"

definition fte_mic_data :: "'c handshake_state \<Rightarrow> u8 \<Rightarrow> bytes \<Rightarrow> bytes \<Rightarrow> bytes" where
  "fte_mic_data hs seq_num rsne f =
     take 6 (hs_spa hs) @ take 6 (hs_aa hs) @ [seq_num] @ rsne @ ie_bytes (hs_mde hs) @
     fte_zero_mic (hs_kck_len hs) f"

definition reassoc_ft_info :: "'c handshake_state \<Rightarrow> ie_ft_info" where
  "reassoc_ft_info hs =
     zero_ft_info
       \<lparr>ft_mic_element_count := 3,
        ft_r0khid := hs_r0khid hs,
        ft_r1khid := take 6 (hs_r1khid hs),
        ft_r1khid_present := True,
        ft_anonce := take 32 (hs_anonce hs),
        ft_snonce := take 32 (hs_snonce hs)\<rparr>"

subsection \<open>Response validation\<close>

text \<open>
  Modelled from the spec: the element iterator \<^verbatim>\<open>ie_tlv_iter_init\<close> /
  \<^verbatim>\<open>ie_tlv_iter_next\<close> (\<^verbatim>\<open>src/ie.c\<close> is not among the sources), "parse the response into
  TLVs": an element is a tag byte, a length byte and that many bytes of data, and the
  iteration ends at the first element that does not fit the buffer. Each element is
  given as the pointer \<^verbatim>\<open>ie_tlv_iter_get_data(&iter) - 2\<close> sees it: tag, length, data.
\<close>

function ie_tlv_elems :: "bytes \<Rightarrow> bytes list" where
  "ie_tlv_elems buf =
     (case buf of
        t # l # rest \<Rightarrow>
          if unat l \<le> length rest
          then (t # l # take (unat l) rest) # ie_tlv_elems (drop (unat l) rest)
          else []
      | _ \<Rightarrow> [])"
  by pat_completeness auto
termination
  by (relation "measure length") auto

text \<open>
  The loop of \<^verbatim>\<open>parse_ies\<close> over the elements: the first RSNE, MDE and FTE are kept, a
  second one of a kind is an error (\<open>None\<close>).
\<close>

fun collect_ies ::
  "bytes list \<Rightarrow> bytes option \<times> bytes option \<times> bytes option
     \<Rightarrow> (bytes option \<times> bytes option \<times> bytes option) option" where
  "collect_ies [] acc = Some acc"
| "collect_ies (e # es) (rsne, mde', fte') =
     (if hd e = IE_TYPE_RSN then
        (if rsne \<noteq> None then None else collect_ies es (Some e, mde', fte'))
      else if hd e = IE_TYPE_MOBILITY_DOMAIN then
        (if mde' \<noteq> None then None else collect_ies es (rsne, Some e, fte'))
      else if hd e = IE_TYPE_FAST_BSS_TRANSITION then
        (if fte' \<noteq> None then None else collect_ies es (rsne, mde', Some e))
      else collect_ies es (rsne, mde', fte'))"

definition ft_verify_rsne ::
  "('r, 'c) ft_ext \<Rightarrow> bytes option \<Rightarrow> bytes \<Rightarrow> bytes option \<Rightarrow> bool" where
  "ft_verify_rsne X rsne pmk_r0_name auth_ie =
     (case rsne of
        None \<Rightarrow> False
      | Some r \<Rightarrow>
          (case ie_parse_rsne_from_data X (ie_bytes r) of
             None \<Rightarrow> False
           | Some msg2_rsne \<Rightarrow>
               if num_pmkids msg2_rsne \<noteq> 1 \<or> take 16 (pmkids msg2_rsne) \<noteq> take 16 pmk_r0_name
               then False
               else if \<not> handshake_util_ap_ie_matches X msg2_rsne auth_ie False then False
               else True))"

text \<open>
  \<^verbatim>\<open>parse_ies\<close>: \<open>Inl EINVAL\<close> for \<^verbatim>\<open>-EINVAL\<close>, otherwise the MDE and FTE pointers it
  hands out.
\<close>

definition parse_ies ::
  "('r, 'c) ft_ext \<Rightarrow> 'c handshake_state \<Rightarrow> bytes option \<Rightarrow> bytes
     \<Rightarrow> errno + (bytes option \<times> bytes option)" where
  "parse_ies X hs auth_ie ies =
     (case collect_ies (ie_tlv_elems ies) (None, None, None) of
        None \<Rightarrow> Inl EINVAL
      | Some (rsne, mde', fte') \<Rightarrow>
          let is_rsn = (hs_supplicant_ie hs \<noteq> None) in
          if is_rsn then
            (if \<not> ft_verify_rsne X rsne (hs_pmk_r0_name hs) auth_ie then Inl EINVAL
             else Inr (mde', fte'))
          else if rsne \<noteq> None then Inl EINVAL
          else Inr (mde', fte'))"

text \<open>
  \<^verbatim>\<open>ft_parse_fte\<close> parses into the caller's \<^verbatim>\<open>struct ie_ft_info\<close>: the result is the
  verdict and the structure afterwards (left as it was when the parser fails).
\<close>

definition ft_parse_fte ::
  "('r, 'c) ft_ext \<Rightarrow> 'c handshake_state \<Rightarrow> bytes \<Rightarrow> bytes option \<Rightarrow> ie_ft_info
     \<Rightarrow> bool \<times> ie_ft_info" where
  "ft_parse_fte X hs snonce' fte' ft =
     (let zeros = replicate 24 (0 :: u8); kck_len = hs_kck_len hs in
      case fte' of
        None \<Rightarrow> (False, ft)
      | Some f \<Rightarrow>
          (case ie_parse_fast_bss_transition_from_data X (ie_bytes f) kck_len of
             None \<Rightarrow> (False, ft)
           | Some ft' \<Rightarrow>
               if ft_mic_element_count ft' \<noteq> 0 \<or> take kck_len (ft_mic ft') \<noteq> take kck_len zeros
               then (False, ft')
               else if length (hs_r0khid hs) \<noteq> length (ft_r0khid ft') \<or>
                       hs_r0khid hs \<noteq> ft_r0khid ft' \<or> \<not> ft_r1khid_present ft'
               then (False, ft')
               else if take 32 (ft_snonce ft') \<noteq> take 32 snonce' then (False, ft')
               else (True, ft')))"

text \<open>
  \<^verbatim>\<open>mde_equal\<close>, with the comparison the source makes: \<^verbatim>\<open>memcmp(mde1, mde1, mde1[1] + 2)\<close>
  compares the first buffer with itself.
\<close>

definition mde_equal :: "bytes option \<Rightarrow> bytes option \<Rightarrow> bool" where
  "mde_equal mde1 mde2 =
     (case (mde1, mde2) of
        (Some m1, Some m2) \<Rightarrow> take (unat (m1 ! 1) + 2) m1 = take (unat (m1 ! 1) + 2) m1
      | _ \<Rightarrow> False)"

text \<open>
  \<^verbatim>\<open>ft_parse_ies\<close>: the verdict and the attempt afterwards (\<^verbatim>\<open>info->ft_info\<close> and, on
  success in an RSN, \<^verbatim>\<open>info->fte\<close> are written).
\<close>

definition ft_parse_ies ::
  "('r, 'c) ft_ext \<Rightarrow> ft_info \<Rightarrow> 'c handshake_state \<Rightarrow> bytes \<Rightarrow> bool \<times> ft_info" where
  "ft_parse_ies X info hs ies =
     (let is_rsn = (hs_supplicant_ie hs \<noteq> None) in
      case parse_ies X hs (authenticator_ie info) ies of
        Inl err \<Rightarrow> (False, info)
      | Inr (mde', fte') \<Rightarrow>
          if \<not> mde_equal (Some (mde info)) mde' then (False, info)
          else if is_rsn then
            (case ft_parse_fte X hs (snonce info) fte' (parsed_ft_info info) of
               (False, ft) \<Rightarrow> (False, info\<lparr>parsed_ft_info := ft\<rparr>)
             | (True, ft) \<Rightarrow>
                 (True, info\<lparr>parsed_ft_info := ft, fte := map_option ie_bytes fte'\<rparr>))
          else if fte' \<noteq> None then (False, info)
          else (True, info))"

text \<open>
  \<^verbatim>\<open>ft_parse_authentication_resp_frame\<close>: \<open>None\<close> for \<^verbatim>\<open>false\<close>, otherwise the status
  and, for status 0, the bytes from offset 28 on that it hands out as elements.
\<close>

definition ft_parse_authentication_resp_frame ::
  "bytes \<Rightarrow> bytes \<Rightarrow> bytes \<Rightarrow> bytes \<Rightarrow> 16 word \<Rightarrow> (16 word \<times> bytes option) option" where
  "ft_parse_authentication_resp_frame frame addr1 addr2 addr3 auth_seq =
     (if length frame < 30 then None
      else if take 6 (drop 4 frame) \<noteq> take 6 addr1 then None
      else if take 6 (drop 10 frame) \<noteq> take 6 addr2 then None
      else if take 6 (drop 16 frame) \<noteq> take 6 addr3 then None
      else if l_get_le16 (drop 24 frame) \<noteq> 2 then None
      else if l_get_le16 (drop 26 frame) \<noteq> auth_seq then None
      else
        let status' = (if auth_seq = 2 \<or> auth_seq = 4 then l_get_le16 (drop 28 frame) else 0)
        in Some (status', if status' = 0 then Some (drop 28 frame) else None))"

text \<open>
  \<^verbatim>\<open>ft_over_ds_parse_action_response\<close>: \<open>Inl EINVAL\<close> for \<^verbatim>\<open>-EINVAL\<close>, otherwise the status
  it returns, the addresses it hands out and, for status 0, the elements.
\<close>

definition ft_over_ds_parse_action_response ::
  "('r, 'c) ft_ext \<Rightarrow> bytes \<Rightarrow> errno + (16 word \<times> bytes \<times> bytes \<times> bytes option)" where
  "ft_over_ds_parse_action_response X frame =
     (let hdr_len = mmpdu_header_len X frame in
      if length frame < hdr_len + 16 then Inl EINVAL
      else
        let body = drop hdr_len frame in
        if body ! 0 \<noteq> 6 then Inl EINVAL
        else if body ! 1 \<noteq> 2 then Inl EINVAL
        else
          let spa' = take 6 (drop 2 body); aa' = take 6 (drop 8 body) in
          if spa' \<noteq> take 6 (drop 4 frame) then Inl EINVAL
          else
            let status' = l_get_le16 (drop 14 body)
            in Inr (status', spa', aa', if status' \<noteq> 0 then None else Some (drop 16 body)))"

subsection \<open>The pending attempts\<close>

text \<open>
  The state that the entry points of \<^verbatim>\<open>ft.c\<close> share: the queue \<^verbatim>\<open>info_list\<close>; the FT
  action requests that \<^verbatim>\<open>ft_action\<close> handed to the radio work scheduler and that the
  scheduler has not started yet; and the handshake state of each interface
  (\<^verbatim>\<open>netdev_get_handshake(netdev_find(ifindex))\<close>).
\<close>

record 'c ft_state =
  info_list :: "ft_info list"
  radio_work :: "ft_info list"
  handshake :: "32 word \<Rightarrow> 'c handshake_state"

text \<open>\<^verbatim>\<open>ft_init\<close> creates the empty queue.\<close>

definition ft_init :: "(32 word \<Rightarrow> 'c handshake_state) \<Rightarrow> 'c ft_state" where
  "ft_init hss = \<lparr>info_list = [], radio_work = [], handshake = hss\<rparr>"

text \<open>
  \<^verbatim>\<open>ft_info_find\<close> returns the first entry of the queue with the interface index and,
  unless \<^verbatim>\<open>aa\<close> is \<^verbatim>\<open>NULL\<close>, the address: here its position in the queue, which stands
  for the pointer.
\<close>

fun ft_info_find :: "ft_info list \<Rightarrow> 32 word \<Rightarrow> bytes option \<Rightarrow> nat option" where
  "ft_info_find [] i a = None"
| "ft_info_find (info # l) i a =
     (if ifindex info \<noteq> i then map_option Suc (ft_info_find l i a)
      else if (case a of None \<Rightarrow> False | Some a' \<Rightarrow> take 6 (aa info) \<noteq> take 6 a')
      then map_option Suc (ft_info_find l i a)
      else Some 0)"

text \<open>
  \<^verbatim>\<open>ft_info_new\<close>; the 32 bytes of \<^verbatim>\<open>l_getrandom\<close> are the argument \<open>rnd\<close>. \<^verbatim>\<open>l_new\<close>
  clears the structure.
\<close>

definition ft_info_new :: "'c handshake_state \<Rightarrow> scan_bss \<Rightarrow> bytes \<Rightarrow> ft_info" where
  "ft_info_new hs target rnd =
     \<lparr>ifindex = hs_ifindex hs, spa = take 6 (hs_spa hs), aa = take 6 (bss_addr target),
      snonce = take 32 rnd, mde = take 3 (bss_mde target), fte = None,
      authenticator_ie = map_option ie_bytes (bss_rsne target),
      prev_bssid = take 6 (hs_aa hs), frequency = bss_frequency target,
      ds_frequency = 0, offchannel_id = 0, status = - errno_val ENOENT,
      parsed_ft_info = zero_ft_info, onchannel = False\<rparr>"

text \<open>
  \<^verbatim>\<open>ft_build_authenticate_ies\<close>: the elements written to the buffer, \<open>None\<close> for
  \<^verbatim>\<open>false\<close>.
\<close>

definition ft_build_authenticate_ies ::
  "('r, 'c) ft_ext \<Rightarrow> 'c handshake_state \<Rightarrow> bool \<Rightarrow> bytes \<Rightarrow> bytes option" where
  "ft_build_authenticate_ies X hs ocvc' new_snonce =
     (let kck_len = hs_kck_len hs;
          mde_ie = [IE_TYPE_MOBILITY_DOMAIN, 3] @ take 3 (drop 2 (hs_mde hs))
      in case hs_supplicant_ie hs of
           None \<Rightarrow> Some mde_ie
         | Some sie \<Rightarrow>
             (case ie_parse_rsne_from_data X (ie_bytes sie) of
                None \<Rightarrow> None
              | Some rsn_info \<Rightarrow>
                  let rsne = ie_build_rsne X
                        (rsn_info\<lparr>num_pmkids := 1, pmkids := hs_pmk_r0_name hs, ocvc := ocvc'\<rparr>);
                      ft = zero_ft_info\<lparr>ft_r0khid := hs_r0khid hs, ft_snonce := take 32 new_snonce\<rparr>;
                      fte' = ie_build_fast_bss_transition X ft kck_len
                  in Some (ie_bytes rsne @ mde_ie @ ie_bytes fte')))"

text \<open>
  \<^verbatim>\<open>ft_prepare_handshake\<close>: the verdict and the handshake state afterwards. The setters
  of \<^verbatim>\<open>handshake.c\<close> store their argument in the field they are named after.
\<close>

definition ft_prepare_handshake ::
  "('r, 'c) ft_ext \<Rightarrow> ft_info \<Rightarrow> 'c handshake_state \<Rightarrow> bool \<times> 'c handshake_state" where
  "ft_prepare_handshake X info hs =
     (let kck_len = hs_kck_len hs;
          hs1 = hs\<lparr>hs_aa := take 6 (aa info),
                   hs_mde := take 2 (hs_mde hs) @ take 3 (mde info) @ drop 5 (hs_mde hs),
                   hs_chandef := None\<rparr>
      in case hs_supplicant_ie hs1 of
           None \<Rightarrow> (True, hs1)
         | Some sie \<Rightarrow>
             let hs2 = (case authenticator_ie info of
                          None \<Rightarrow> hs1
                        | Some a \<Rightarrow> hs1\<lparr>hs_authenticator_ie := Some a\<rparr>);
                 hs3 = hs2\<lparr>hs_snonce := take 32 (snonce info),
                           hs_authenticator_fte := fte info,
                           hs_anonce := take 32 (ft_anonce (parsed_ft_info info)),
                           hs_r0khid := ft_r0khid (parsed_ft_info info),
                           hs_r1khid := take 6 (ft_r1khid (parsed_ft_info info))\<rparr>;
                 hs4 = hs3\<lparr>hs_pmk_r1_name := fst (handshake_state_derive_ptk X hs3),
                           hs_kck := snd (handshake_state_derive_ptk X hs3)\<rparr>
             in case ie_parse_rsne_from_data X (ie_bytes sie) of
                  None \<Rightarrow> (False, hs4)
                | Some rsn_info \<Rightarrow>
                    let rsne = ie_build_rsne X
                          (rsn_info\<lparr>num_pmkids := 1, pmkids := hs_pmk_r1_name hs4, ocvc := False\<rparr>);
                        hs5 = hs4\<lparr>hs_supplicant_ie := Some (ie_bytes rsne)\<rparr>;
                        ft0 = zero_ft_info
                          \<lparr>ft_mic_element_count := 3,
                           ft_r0khid := hs_r0khid hs5,
                           ft_r1khid := take 6 (hs_r1khid hs5),
                           ft_r1khid_present := True,
                           ft_anonce := take 32 (hs_anonce hs5),
                           ft_snonce := take 32 (hs_snonce hs5)\<rparr>;
                        ft1 = (case hs_chandef hs5 of
                                 None \<Rightarrow> ft0
                               | Some cd \<Rightarrow>
                                   if hs_supplicant_ocvc hs5
                                   then ft0\<lparr>ft_oci := oci_from_chandef X cd, ft_oci_present := True\<rparr>
                                   else ft0);
                        fte0 = ie_build_fast_bss_transition X ft1 kck_len
                    in case ft_calculate_fte_mic X hs5 5 (Some rsne) (Some fte0) None of
                         None \<Rightarrow> (False, hs5)
                       | Some m \<Rightarrow>
                           let ft2 = ft1\<lparr>ft_mic := m @ drop (length m) (ft_mic ft1)\<rparr>;
                               fte1 = ie_build_fast_bss_transition X ft2 kck_len
                           in (True, hs5\<lparr>hs_supplicant_fte := Some (ie_bytes fte1)\<rparr>))"

text \<open>
  The entry points. Each takes the shared state and returns it updated, with the
  return value where there is one. Calls into the scheduler, the off-channel module
  and the timers leave the modelled state as it is.
\<close>

definition ft_clear_authentications :: "'c ft_state \<Rightarrow> 32 word \<Rightarrow> 'c ft_state" where
  "ft_clear_authentications s i = s\<lparr>info_list := filter (\<lambda>info. ifindex info \<noteq> i) (info_list s)\<rparr>"

definition ft_action ::
  "'c ft_state \<Rightarrow> 32 word \<Rightarrow> 32 word \<Rightarrow> scan_bss \<Rightarrow> bytes \<Rightarrow> int \<times> 'c ft_state" where
  "ft_action s i freq target rnd =
     (let info = (ft_info_new (handshake s i) target rnd)\<lparr>ds_frequency := freq\<rparr>
      in (0, s\<lparr>radio_work := radio_work s @ [info]\<rparr>))"

text \<open>
  \<^verbatim>\<open>ft_send_action\<close>, the \<^verbatim>\<open>do_work\<close> callback of the oldest request that has not
  started: the attempt joins the queue when the frame was sent and is destroyed
  otherwise.
\<close>

definition ft_send_action :: "('r, 'c) ft_ext \<Rightarrow> 'c ft_state \<Rightarrow> 'c ft_state" where
  "ft_send_action X s =
     (case radio_work s of
        [] \<Rightarrow> s
      | info # rest \<Rightarrow>
          let hs = handshake s (ifindex info);
              ft_req = [6, 1] @ take 6 (spa info) @ take 6 (aa info)
          in case ft_build_authenticate_ies X hs (hs_supplicant_ocvc hs) (snonce info) of
               None \<Rightarrow> s\<lparr>radio_work := rest\<rparr>
             | Some ies \<Rightarrow>
                 if tx_frame X (hs_ifindex hs) 0x00d0 (ds_frequency info) (hs_aa hs) [ft_req, ies] < 0
                 then s\<lparr>radio_work := rest\<rparr>
                 else s\<lparr>info_list := info_list s @ [info], radio_work := rest\<rparr>)"

text \<open>
  \<^verbatim>\<open>ft_authenticate\<close>; \<open>oid\<close> is the identifier that \<^verbatim>\<open>offchannel_start\<close> returns.
\<close>

definition ft_authenticate ::
  "'c ft_state \<Rightarrow> 32 word \<Rightarrow> scan_bss \<Rightarrow> bytes \<Rightarrow> 32 word \<Rightarrow> int \<times> 'c ft_state" where
  "ft_authenticate s i target rnd oid =
     (let info = (ft_info_new (handshake s i) target rnd)\<lparr>offchannel_id := oid\<rparr>
      in (0, s\<lparr>info_list := info_list s @ [info]\<rparr>))"

definition ft_authenticate_onchannel ::
  "'c ft_state \<Rightarrow> 32 word \<Rightarrow> scan_bss \<Rightarrow> bytes \<Rightarrow> int \<times> 'c ft_state" where
  "ft_authenticate_onchannel s i target rnd =
     (let info = (ft_info_new (handshake s i) target rnd)\<lparr>onchannel := True\<rparr>
      in (0, s\<lparr>info_list := info_list s @ [info]\<rparr>))"

definition ft_handshake_setup ::
  "('r, 'c) ft_ext \<Rightarrow> 'c ft_state \<Rightarrow> 32 word \<Rightarrow> bytes option \<Rightarrow> int \<times> 'c ft_state" where
  "ft_handshake_setup X s i target =
     (case ft_info_find (info_list s) i target of
        None \<Rightarrow> (- errno_val ENOENT, s)
      | Some k \<Rightarrow>
          let info = info_list s ! k in
          if status info \<noteq> 0
          then (status info, s\<lparr>info_list := take k (info_list s) @ drop (Suc k) (info_list s)\<rparr>)
          else
            let r = ft_prepare_handshake X info (handshake s i);
                s' = s\<lparr>handshake := (handshake s)(i := snd r)\<rparr>
            in (if fst r then 0 else - errno_val EINVAL, ft_clear_authentications s' i))"

text \<open>
  \<^verbatim>\<open>__ft_rx_authenticate\<close> and \<^verbatim>\<open>__ft_rx_action\<close>: the attempt found is updated in place.
\<close>

definition ft_rx_authenticate ::
  "('r, 'c) ft_ext \<Rightarrow> 'c ft_state \<Rightarrow> 32 word \<Rightarrow> bytes \<Rightarrow> 'c ft_state" where
  "ft_rx_authenticate X s i frame =
     (case ft_info_find (info_list s) i None of
        None \<Rightarrow> s
      | Some k \<Rightarrow>
          let info = info_list s ! k in
          case ft_parse_authentication_resp_frame frame (spa info) (aa info) (aa info) 2 of
            None \<Rightarrow> s
          | Some (status', ies) \<Rightarrow>
              if status' \<noteq> 0
              then s\<lparr>info_list := (info_list s)[k := info\<lparr>status := uint status'\<rparr>]\<rparr>
              else
                (case ies of
                   None \<Rightarrow> s
                 | Some b \<Rightarrow>
                     (case ft_parse_ies X info (handshake s i) b of
                        (False, info') \<Rightarrow> s\<lparr>info_list := (info_list s)[k := info']\<rparr>
                      | (True, info') \<Rightarrow>
                          s\<lparr>info_list := (info_list s)[k := info'\<lparr>status := uint status'\<rparr>]\<rparr>)))"

definition ft_rx_action ::
  "('r, 'c) ft_ext \<Rightarrow> 'c ft_state \<Rightarrow> 32 word \<Rightarrow> bytes \<Rightarrow> 'c ft_state" where
  "ft_rx_action X s i frame =
     (case ft_over_ds_parse_action_response X frame of
        Inl err \<Rightarrow> s
      | Inr (ret, spa', aa', ies) \<Rightarrow>
          (case ft_info_find (info_list s) i (Some aa') of
             None \<Rightarrow> s
           | Some k \<Rightarrow>
               let info = info_list s ! k in
               if ret \<noteq> 0
               then s\<lparr>info_list := (info_list s)[k := info\<lparr>status := uint ret\<rparr>]\<rparr>
               else
                 (case ies of
                    None \<Rightarrow> s
                  | Some b \<Rightarrow>
                      (case ft_parse_ies X info (handshake s i) b of
                         (False, info') \<Rightarrow> s\<lparr>info_list := (info_list s)[k := info']\<rparr>
                       | (True, info') \<Rightarrow>
                           s\<lparr>info_list := (info_list s)[k := info'\<lparr>status := uint ret\<rparr>]\<rparr>))))"


text \<open>
  A call of an entry point of \<^verbatim>\<open>ft.c\<close> with its arguments, and the state after a
  call and after a sequence of calls.
\<close>

datatype ft_call =
    Call_ft_action "32 word" "32 word" scan_bss bytes
  | Call_ft_send_action
  | Call_ft_authenticate "32 word" scan_bss bytes "32 word"
  | Call_ft_authenticate_onchannel "32 word" scan_bss bytes
  | Call_ft_handshake_setup "32 word" "bytes option"
  | Call_ft_clear_authentications "32 word"
  | Call_ft_rx_authenticate "32 word" bytes
  | Call_ft_rx_action "32 word" bytes

fun ft_step :: "('r, 'c) ft_ext \<Rightarrow> 'c ft_state \<Rightarrow> ft_call \<Rightarrow> 'c ft_state" where
  "ft_step X s (Call_ft_action i freq target rnd) = snd (ft_action s i freq target rnd)"
| "ft_step X s Call_ft_send_action = ft_send_action X s"
| "ft_step X s (Call_ft_authenticate i target rnd oid) = snd (ft_authenticate s i target rnd oid)"
| "ft_step X s (Call_ft_authenticate_onchannel i target rnd) =
     snd (ft_authenticate_onchannel s i target rnd)"
| "ft_step X s (Call_ft_handshake_setup i target) = snd (ft_handshake_setup X s i target)"
| "ft_step X s (Call_ft_clear_authentications i) = ft_clear_authentications s i"
| "ft_step X s (Call_ft_rx_authenticate i frame) = ft_rx_authenticate X s i frame"
| "ft_step X s (Call_ft_rx_action i frame) = ft_rx_action X s i frame"

definition ft_run :: "('r, 'c) ft_ext \<Rightarrow> 'c ft_state \<Rightarrow> ft_call list \<Rightarrow> 'c ft_state" where
  "ft_run X s calls = foldl (ft_step X) s calls"

text \<open>
  The words of the specification about the pending attempts: the pair that
  identifies an attempt, the invariant that no two pending attempts share it, and,
  for the amended claim, the discipline of a caller that starts an attempt only
  when none is pending for its pair. \<open>new_attempt\<close> is the pair of the attempt a call
  appends to the queue, if it appends one: \<^verbatim>\<open>ft_authenticate\<close> and
  \<^verbatim>\<open>ft_authenticate_onchannel\<close> always append, \<^verbatim>\<open>ft_send_action\<close> appends the oldest
  request when its frame was sent, and no other call appends.
\<close>

definition attempt_key :: "ft_info \<Rightarrow> 32 word \<times> bytes" where
  "attempt_key info = (ifindex info, aa info)"

definition unique_attempts :: "'c ft_state \<Rightarrow> bool" where
  "unique_attempts s = distinct (map attempt_key (info_list s))"

fun new_attempt :: "('r, 'c) ft_ext \<Rightarrow> 'c ft_state \<Rightarrow> ft_call \<Rightarrow> (32 word \<times> bytes) option" where
  "new_attempt X s (Call_ft_authenticate i target rnd oid) =
     Some (hs_ifindex (handshake s i), take 6 (bss_addr target))"
| "new_attempt X s (Call_ft_authenticate_onchannel i target rnd) =
     Some (hs_ifindex (handshake s i), take 6 (bss_addr target))"
| "new_attempt X s Call_ft_send_action =
     (case radio_work s of
        [] \<Rightarrow> None
      | info # rest \<Rightarrow>
          if length (info_list (ft_send_action X s)) = length (info_list s) then None
          else Some (attempt_key info))"
| "new_attempt X s _ = None"

definition call_ok :: "('r, 'c) ft_ext \<Rightarrow> 'c ft_state \<Rightarrow> ft_call \<Rightarrow> bool" where
  "call_ok X s c =
     (case new_attempt X s c of
        None \<Rightarrow> True
      | Some k \<Rightarrow> k \<notin> attempt_key ` set (info_list s))"

fun calls_ok :: "('r, 'c) ft_ext \<Rightarrow> 'c ft_state \<Rightarrow> ft_call list \<Rightarrow> bool" where
  "calls_ok X s [] = True"
| "calls_ok X s (c # cs) = (call_ok X s c \<and> calls_ok X (ft_step X s c) cs)"


text \<open>
  For the proofs about \<^verbatim>\<open>ft_prepare_handshake\<close>: the handshake state after its first
  part, in an RSN, when the target's address and MDE, the nonces and key holder
  identifiers of the response and the derived keys are in place.
\<close>

definition ft_target_state ::
  "('r, 'c) ft_ext \<Rightarrow> ft_info \<Rightarrow> 'c handshake_state \<Rightarrow> 'c handshake_state" where
  "ft_target_state X info hs =
     (let hs1 = hs\<lparr>hs_aa := take 6 (aa info),
                   hs_mde := take 2 (hs_mde hs) @ take 3 (mde info) @ drop 5 (hs_mde hs),
                   hs_chandef := None\<rparr>;
          hs2 = (case authenticator_ie info of
                   None \<Rightarrow> hs1
                 | Some a \<Rightarrow> hs1\<lparr>hs_authenticator_ie := Some a\<rparr>);
          hs3 = hs2\<lparr>hs_snonce := take 32 (snonce info),
                    hs_authenticator_fte := fte info,
                    hs_anonce := take 32 (ft_anonce (parsed_ft_info info)),
                    hs_r0khid := ft_r0khid (parsed_ft_info info),
                    hs_r1khid := take 6 (ft_r1khid (parsed_ft_info info))\<rparr>
      in hs3\<lparr>hs_pmk_r1_name := fst (handshake_state_derive_ptk X hs3),
              hs_kck := snd (handshake_state_derive_ptk X hs3)\<rparr>)"

subsection \<open>Concrete inputs\<close>

text \<open>
  Inputs on which the model is run in the closed theorems below: a target BSS, the
  handshake state of interface 1 outside an RSN (no supplicant RSNE) and a second
  one in an RSN with a 16 byte KCK, and an FT authentication response of the target
  with status 0 whose MDE body is \<^verbatim>\<open>aa bb cc\<close>, while the target advertised
  \<^verbatim>\<open>11 22 33\<close>.
\<close>

definition target_example :: scan_bss where
  "target_example =
     \<lparr>bss_addr = [0x02, 0, 0, 0, 0, 0x20], bss_mde = [0x11, 0x22, 0x33],
      bss_frequency = 5180, bss_rsne = None\<rparr>"

definition hs_open_example :: "unit handshake_state" where
  "hs_open_example =
     \<lparr>hs_ifindex = 1, hs_spa = [0x02, 0, 0, 0, 0, 0x10], hs_aa = [0x02, 0, 0, 0, 0, 0x01],
      hs_anonce = [], hs_snonce = [], hs_mde = [54, 3, 0x11, 0x22, 0x33],
      hs_r0khid = [], hs_r1khid = [], hs_pmk_r0_name = [], hs_pmk_r1_name = [],
      hs_kck = [], hs_kck_len = 16, hs_supplicant_ie = None, hs_authenticator_ie = None,
      hs_supplicant_fte = None, hs_authenticator_fte = None, hs_supplicant_ocvc = False,
      hs_chandef = None\<rparr>"

definition auth_resp_example :: bytes where
  "auth_resp_example =
     [0xb0, 0, 0, 0] @ [0x02, 0, 0, 0, 0, 0x10] @ [0x02, 0, 0, 0, 0, 0x20] @
     [0x02, 0, 0, 0, 0, 0x20] @ [0, 0] @ [2, 0] @ [2, 0] @ [0, 0] @
     [54, 3, 0xaa, 0xbb, 0xcc]"

text \<open>
  A second target of the same mobility domain, the FT action response of that
  target with status 0, and a sequence of calls on interface 1: an attempt over the
  air for the first target, a request over the DS for the second one that the
  scheduler then starts, the two responses, the setup of the handshake for the
  first target, and a new attempt for it.
\<close>

definition target_ds_example :: scan_bss where
  "target_ds_example =
     \<lparr>bss_addr = [0x02, 0, 0, 0, 0, 0x30], bss_mde = [0x11, 0x22, 0x33],
      bss_frequency = 5200, bss_rsne = None\<rparr>"

definition action_resp_example :: bytes where
  "action_resp_example =
     [0xd0, 0, 0, 0] @ [0x02, 0, 0, 0, 0, 0x10] @ [0x02, 0, 0, 0, 0, 0x01] @
     [0x02, 0, 0, 0, 0, 0x01] @ [0, 0] @
     [6, 2] @ [0x02, 0, 0, 0, 0, 0x10] @ [0x02, 0, 0, 0, 0, 0x30] @ [0, 0] @
     [54, 3, 0x11, 0x22, 0x33]"

definition calls_example :: "ft_call list" where
  "calls_example =
     [Call_ft_authenticate 1 target_example [] 7,
      Call_ft_action 1 5180 target_ds_example [],
      Call_ft_send_action,
      Call_ft_rx_authenticate 1 auth_resp_example,
      Call_ft_rx_action 1 action_resp_example,
      Call_ft_handshake_setup 1 (Some [0x02, 0, 0, 0, 0, 0x20]),
      Call_ft_authenticate_onchannel 1 target_example []]"

text \<open>
  Stand-ins for the collaborators, to run the RSN paths: an RSNE codec for elements
  with one pairwise cipher and one AKM (the 20 bytes before the PMKID count are kept
  as they are), an FTE codec with the layout MIC control, MIC, ANonce, SNonce,
  R1KH-ID and R0KH-ID subelements, and in place of the two checksums a function
  that returns the data it is given, which makes the authenticated bytes visible
  in the MIC.
\<close>

definition build_rsne_example :: "bytes ie_rsn_info \<Rightarrow> bytes" where
  "build_rsne_example r =
     [48, of_nat (22 + 16 * num_pmkids r)] @ take 20 (rsn_others r) @
     [of_nat (num_pmkids r), 0] @ take (16 * num_pmkids r) (pmkids r)"

definition parse_rsne_example :: "bytes \<Rightarrow> bytes ie_rsn_info option" where
  "parse_rsne_example b =
     (if length b < 22 \<or> hd b \<noteq> 48 then None
      else Some \<lparr>num_pmkids = (if length b < 24 then 0 else unat (b ! 22)),
                 pmkids = drop 24 b, ocvc = False, rsn_others = take 20 (drop 2 b)\<rparr>)"

definition build_fte_example :: "ie_ft_info \<Rightarrow> nat \<Rightarrow> bytes" where
  "build_fte_example ft kck_len =
     (let subs = (if ft_r1khid_present ft then [1, 6] @ take 6 (ft_r1khid ft) else []) @
                 (if ft_r0khid ft = [] then []
                  else [3, of_nat (length (ft_r0khid ft))] @ ft_r0khid ft);
          body = [0, ft_mic_element_count ft] @ take kck_len (ft_mic ft) @
                 take 32 (ft_anonce ft) @ take 32 (ft_snonce ft) @ subs
      in [55, of_nat (length body)] @ body)"

definition ext_example :: "(bytes, unit) ft_ext" where
  "ext_example =
     \<lparr>ie_parse_rsne_from_data = parse_rsne_example,
      ie_build_rsne = build_rsne_example,
      handshake_util_ap_ie_matches = (\<lambda>r a b. True),
      ie_parse_fast_bss_transition_from_data = (\<lambda>b n. None),
      ie_build_fast_bss_transition = build_fte_example,
      handshake_state_derive_ptk = (\<lambda>hs. (hs_pmk_r1_name hs, hs_kck hs)),
      mmpdu_header_len = (\<lambda>b. 24),
      oci_from_chandef = (\<lambda>c. [0, 0, 0]),
      l_checksum_cmac_aes = (\<lambda>k d. Some d),
      l_checksum_hmac_sha384 = (\<lambda>k d. Some d),
      tx_frame = (\<lambda>i t f a iov. 0)\<rparr>"

definition hs_rsn_example :: "unit handshake_state" where
  "hs_rsn_example =
     \<lparr>hs_ifindex = 1, hs_spa = [0x02, 0, 0, 0, 0, 0x10], hs_aa = [0x02, 0, 0, 0, 0, 0x01],
      hs_anonce = replicate 32 0, hs_snonce = replicate 32 0,
      hs_mde = [54, 3, 0x11, 0x22, 0x33],
      hs_r0khid = [0x72, 0x30], hs_r1khid = [0x02, 0, 0, 0, 0, 0x01],
      hs_pmk_r0_name = replicate 16 0xa0, hs_pmk_r1_name = replicate 16 0xa1,
      hs_kck = replicate 16 0x4b, hs_kck_len = 16,
      hs_supplicant_ie =
        Some ([48, 20, 1, 0] @ [0x00, 0x0f, 0xac, 4] @ [1, 0] @ [0x00, 0x0f, 0xac, 4] @
              [1, 0] @ [0x00, 0x0f, 0xac, 4] @ [0, 0]),
      hs_authenticator_ie = None,
      hs_supplicant_fte = None, hs_authenticator_fte = None, hs_supplicant_ocvc = False,
      hs_chandef = None\<rparr>"

definition info_rsn_example :: ft_info where
  "info_rsn_example =
     \<lparr>ifindex = 1, spa = [0x02, 0, 0, 0, 0, 0x10], aa = [0x02, 0, 0, 0, 0, 0x20],
      snonce = replicate 32 0x53, mde = [0x11, 0x22, 0x33], fte = None,
      authenticator_ie = None, prev_bssid = [0x02, 0, 0, 0, 0, 0x01], frequency = 5180,
      ds_frequency = 0, offchannel_id = 0, status = 0,
      parsed_ft_info = zero_ft_info
        \<lparr>ft_anonce := replicate 32 0x41, ft_snonce := replicate 32 0x53,
         ft_r0khid := [0x72, 0x30], ft_r1khid := [0x02, 0, 0, 0, 0, 0x20],
         ft_r1khid_present := True\<rparr>,
      onchannel = False\<rparr>"

section \<open>dpp-util.c: the bootstrapping URI\<close>

text \<open>
  A C string is the list of its characters before the terminating NUL; a
  \<^verbatim>\<open>const char *\<close> into it is the rest of the string from that position (the empty
  list at the terminator), and \<open>None\<close> when it is \<^verbatim>\<open>NULL\<close>. Reading the character a
  pointer refers to gives NUL at the terminator. Two pointers into one string are
  equal when the rests have the same length.
\<close>

definition c_str :: "string \<Rightarrow> string" where
  "c_str s = takeWhile (\<lambda>c. c \<noteq> CHR 0x00) s"

definition deref :: "string \<Rightarrow> char" where
  "deref p = (case p of [] \<Rightarrow> CHR 0x00 | c # r \<Rightarrow> c)"

definition strchr :: "string \<Rightarrow> char \<Rightarrow> string option" where
  "strchr p c = (if c \<in> set p then Some (dropWhile (\<lambda>x. x \<noteq> c) p) else None)"

text \<open>The macros \<^verbatim>\<open>TOKEN_NEXT\<close>, \<^verbatim>\<open>TOKEN_LEN\<close> and \<^verbatim>\<open>TOKEN_OK\<close>.\<close>

definition TOKEN_NEXT :: "string \<Rightarrow> char \<Rightarrow> string option" where
  "TOKEN_NEXT p sep =
     (case strchr p sep of
        None \<Rightarrow> None
      | Some n \<Rightarrow> if deref (tl n) = CHR 0x00 then None else Some (tl n))"

definition TOKEN_LEN :: "string \<Rightarrow> char \<Rightarrow> nat" where
  "TOKEN_LEN p sep =
     (case strchr p sep of None \<Rightarrow> 0 | Some n \<Rightarrow> length p - length n)"

definition TOKEN_OK :: "string option \<Rightarrow> bool" where
  "TOKEN_OK pos =
     (case pos of
        None \<Rightarrow> False
      | Some p \<Rightarrow> deref p \<noteq> CHR 0x00 \<and> deref (drop 1 p) = CHR '':'' \<and>
                  deref (drop 2 p) \<noteq> CHR 0x00)"

text \<open>
  \<^verbatim>\<open>strtoul(p, &end, 10)\<close> of the C library, for an \<^verbatim>\<open>unsigned long\<close> of 64 bits: white
  space is skipped, a sign is accepted, and the digits that follow are converted.
  The result is the value, the end pointer, and whether \<^verbatim>\<open>errno\<close> is \<^verbatim>\<open>ERANGE\<close>. With
  no digit the end pointer is \<open>p\<close> itself and the value 0.
\<close>

definition isspace :: "char \<Rightarrow> bool" where
  "isspace c = (c = CHR '' '' \<or> (9 \<le> (of_char c :: nat) \<and> (of_char c :: nat) \<le> 13))"

definition isdigit :: "char \<Rightarrow> bool" where
  "isdigit c = (48 \<le> (of_char c :: nat) \<and> (of_char c :: nat) \<le> 57)"

definition digits_value :: "string \<Rightarrow> nat" where
  "digits_value ds = foldl (\<lambda>a c. 10 * a + (of_char c - 48)) 0 ds"

definition strtoul :: "string \<Rightarrow> nat \<times> string \<times> bool" where
  "strtoul p =
     (let s1 = dropWhile isspace p;
          neg = (deref s1 = CHR ''-'');
          s2 = (if deref s1 = CHR ''-'' \<or> deref s1 = CHR ''+'' then tl s1 else s1);
          ds = takeWhile isdigit s2
      in if ds = [] then (0, p, False)
         else if digits_value ds > 2 ^ 64 - 1 then (2 ^ 64 - 1, dropWhile isdigit s2, True)
         else ((if neg then (2 ^ 64 - digits_value ds) mod 2 ^ 64 else digits_value ds),
               dropWhile isdigit s2, False))"

text \<open>
  The library functions that the URI parser calls and that are not among the
  sources, as parameters: the base64 decoder, the DER element finder (the tag and
  the content of the element with the given index, \<open>None\<close> for \<^verbatim>\<open>NULL\<close>), the curve and
  point constructors of the ECC library, \<^verbatim>\<open>oci_to_frequency\<close> (0 when the pair is not
  in the table) and \<^verbatim>\<open>util_is_valid_sta_address\<close>.
\<close>

record ('p, 'cv) dpp_ext =
  l_base64_decode :: "string \<Rightarrow> bytes option"
  asn1_der_find_elem :: "bytes \<Rightarrow> nat \<Rightarrow> (u8 \<times> bytes) option"
  l_ecc_curve_from_ike_group :: "nat \<Rightarrow> 'cv option"
  l_ecc_point_from_data :: "'cv \<Rightarrow> u8 \<Rightarrow> bytes \<Rightarrow> 'p option"
  oci_to_frequency :: "u8 \<Rightarrow> u8 \<Rightarrow> 32 word"
  util_is_valid_sta_address :: "bytes \<Rightarrow> bool"

text \<open>
  \<^verbatim>\<open>struct dpp_uri_info\<close>, as \<^verbatim>\<open>dpp_parse_uri\<close> and \<^verbatim>\<open>dpp_free_uri_info\<close> use it; \<^verbatim>\<open>l_new\<close>
  clears it.
\<close>

record 'p dpp_uri_info =
  freqs :: "32 word set option"
  boot_public :: "'p option"
  mac :: bytes
  version :: u8
  information :: "string option"
  host :: "string option"

definition new_uri_info :: "'p dpp_uri_info" where
  "new_uri_info =
     \<lparr>freqs = None, boot_public = None, mac = replicate 6 0, version = 0,
      information = None, host = None\<rparr>"

text \<open>
  The loop of \<^verbatim>\<open>dpp_parse_class_and_channel\<close>. \<open>token\<close> is the pointer the function is
  given (the rest of the URI from the value of the token on), \<open>pos\<close> the loop
  pointer, \<open>e\<close> the end pointer of the last conversion and \<open>fs\<close> the frequencies
  added so far; \<open>None\<close> is the jump to \<^verbatim>\<open>free_set\<close>. Both conversions store their
  result in a \<^verbatim>\<open>uint8_t\<close> first, so that the value compared with it is the truncated
  one.
\<close>

function class_and_channel_loop ::
  "('p, 'cv) dpp_ext \<Rightarrow> string \<Rightarrow> nat \<Rightarrow> string option \<Rightarrow> string \<Rightarrow> 32 word set
     \<Rightarrow> (string \<times> 32 word set) option" where
  "class_and_channel_loop X token len pos e fs =
     (case pos of
        None \<Rightarrow> Some (e, fs)
      | Some p \<Rightarrow>
          if \<not> (length token - length p < len) then Some (e, fs)
          else if deref p = CHR ''-'' \<or> deref p = CHR ''+'' then None
          else
            (case strtoul p of
               (v1, e1, erange1) \<Rightarrow>
                 if erange1 then None
                 else if length e1 = length p \<or> deref e1 \<noteq> CHR ''/'' then None
                 else
                   let oper_class = (of_nat v1 :: u8); p2 = tl e1 in
                   if deref p2 = CHR ''-'' \<or> deref p2 = CHR ''+'' then None
                   else
                     (case strtoul p2 of
                        (v2, e2, erange2) \<Rightarrow>
                          if erange2 then None
                          else if length e2 = length p2 \<or>
                                  (deref e2 \<noteq> CHR '','' \<and> deref e2 \<noteq> CHR '';'')
                          then None
                          else
                            let channel = (of_nat v2 :: u8);
                                freq = oci_to_frequency X oper_class channel
                            in if freq = 0 then None
                               else class_and_channel_loop X token len
                                      (TOKEN_NEXT p2 CHR '','') e2 (insert freq fs))))"
  by pat_completeness auto

termination
proof -
  have strchr_len: "length n \<le> length p" if "strchr p c = Some n" for p c n
    using that length_dropWhile_le [of "\<lambda>x. x \<noteq> c" p]
    by (auto simp: strchr_def split: if_splits)
  have strchr_ne: "n \<noteq> []" if "strchr p c = Some n" for p c n
    using that by (auto simp: strchr_def split: if_splits)
  have next_len: "length r < length p" if "TOKEN_NEXT p sep = Some r" for p sep r
  proof -
    from that obtain n where n: "strchr p sep = Some n" "r = tl n"
      by (auto simp: TOKEN_NEXT_def split: option.splits if_splits)
    from strchr_ne [OF n(1)] have "length (tl n) < length n" by (cases n) auto
    with strchr_len [OF n(1)] n(2) show ?thesis by simp
  qed
  have strtoul_len: "length e \<le> length p" if "strtoul p = (v, e, er)" for p v e er
  proof -
    have "length (dropWhile isdigit (tl (dropWhile isspace p))) \<le> length p"
      using length_dropWhile_le [of isdigit "tl (dropWhile isspace p)"]
        length_dropWhile_le [of isspace p]
      by simp
    moreover have "length (dropWhile isdigit (dropWhile isspace p)) \<le> length p"
      using length_dropWhile_le [of isdigit "dropWhile isspace p"]
        length_dropWhile_le [of isspace p]
      by simp
    ultimately show ?thesis
      using that by (auto simp: strtoul_def Let_def split: if_splits)
  qed
  have step: "length r < length p"
    if "(v, e, er) = strtoul p" "TOKEN_NEXT (tl e) sep = Some r" for p v e er sep r
    using strtoul_len [OF that(1) [symmetric]] next_len [OF that(2)] by (cases e) auto
  show ?thesis
    by (relation "measure (\<lambda>(X, token, len, pos, e, fs).
                    case pos of None \<Rightarrow> 0 | Some p \<Rightarrow> Suc (length p))")
       (auto split: option.splits dest: step)
qed

declare class_and_channel_loop.simps [simp del]

definition dpp_parse_class_and_channel ::
  "('p, 'cv) dpp_ext \<Rightarrow> string \<Rightarrow> nat \<Rightarrow> 32 word set option" where
  "dpp_parse_class_and_channel X token len =
     (case class_and_channel_loop X token len (Some token) token {} of
        None \<Rightarrow> None
      | Some (e, fs) \<Rightarrow>
          if length token - len \<noteq> length e \<or> length token < len then None
          else if fs = {} then None
          else Some fs)"

text \<open>
  \<^verbatim>\<open>dpp_parse_mac\<close>: twelve hexadecimal digits, which \<^verbatim>\<open>sscanf\<close> then reads as six
  bytes; \<open>None\<close> for \<^verbatim>\<open>-EINVAL\<close>.
\<close>

definition l_ascii_isxdigit :: "char \<Rightarrow> bool" where
  "l_ascii_isxdigit c =
     (let n = (of_char c :: nat)
      in (48 \<le> n \<and> n \<le> 57) \<or> (97 \<le> n \<and> n \<le> 102) \<or> (65 \<le> n \<and> n \<le> 70))"

definition hex_value :: "char \<Rightarrow> nat" where
  "hex_value c =
     (let n = (of_char c :: nat)
      in if n \<le> 57 then n - 48 else if 97 \<le> n then n - 87 else n - 55)"

fun hex_pairs :: "string \<Rightarrow> bytes" where
  "hex_pairs (a # b # r) = of_nat (16 * hex_value a + hex_value b) # hex_pairs r"
| "hex_pairs _ = []"

definition dpp_parse_mac :: "('p, 'cv) dpp_ext \<Rightarrow> string \<Rightarrow> nat \<Rightarrow> bytes option" where
  "dpp_parse_mac X str len =
     (if len \<noteq> 12 then None
      else if \<not> list_all l_ascii_isxdigit (take 12 str) then None
      else
        let m = hex_pairs (take 12 str) in
        if \<not> util_is_valid_sta_address X m then None else Some m)"

definition dpp_parse_version :: "string \<Rightarrow> nat \<Rightarrow> u8 option" where
  "dpp_parse_version str len =
     (if len \<noteq> 1 then None
      else if deref str \<noteq> CHR ''1'' \<and> deref str \<noteq> CHR ''2'' then None
      else Some (of_nat (of_char (deref str) - 48)))"

text \<open>
  The object identifiers and the DER tags that \<^verbatim>\<open>dpp_point_from_asn1\<close> compares with;
  \<^verbatim>\<open>asn1_oid_eq\<close> holds when the content of an element is the identifier.
\<close>

definition ec_oid :: bytes where
  "ec_oid = [0x2a, 0x86, 0x48, 0xce, 0x3d, 0x02, 0x01]"

definition ec_p256_oid :: bytes where
  "ec_p256_oid = [0x2a, 0x86, 0x48, 0xce, 0x3d, 0x03, 0x01, 0x07]"

definition ec_p384_oid :: bytes where
  "ec_p384_oid = [0x2B, 0x81, 0x04, 0x00, 0x22]"

definition ASN1_ID_SEQUENCE :: u8 where "ASN1_ID_SEQUENCE = 0x30"
definition ASN1_ID_OID :: u8 where "ASN1_ID_OID = 0x06"
definition ASN1_ID_BIT_STRING :: u8 where "ASN1_ID_BIT_STRING = 0x03"

definition dpp_point_from_asn1 :: "('p, 'cv) dpp_ext \<Rightarrow> bytes \<Rightarrow> 'p option" where
  "dpp_point_from_asn1 X asn1 =
     (case asn1_der_find_elem X asn1 0 of
        None \<Rightarrow> None
      | Some (tag1, outer_seq) \<Rightarrow>
          if tag1 \<noteq> ASN1_ID_SEQUENCE then None
          else
            (case asn1_der_find_elem X outer_seq 0 of
               None \<Rightarrow> None
             | Some (tag2, inner_seq) \<Rightarrow>
                 if tag2 \<noteq> ASN1_ID_SEQUENCE then None
                 else
                   (case asn1_der_find_elem X inner_seq 0 of
                      None \<Rightarrow> None
                    | Some (tag3, elem3) \<Rightarrow>
                        if tag3 \<noteq> ASN1_ID_OID then None
                        else if elem3 \<noteq> ec_oid then None
                        else
                          (case asn1_der_find_elem X inner_seq 1 of
                             None \<Rightarrow> None
                           | Some (tag4, elem4) \<Rightarrow>
                               if tag4 \<noteq> ASN1_ID_OID then None
                               else
                                 (case (if elem4 = ec_p256_oid then Some 19
                                        else if elem4 = ec_p384_oid then Some 20
                                        else None) of
                                    None \<Rightarrow> None
                                  | Some curve_num \<Rightarrow>
                                      (case l_ecc_curve_from_ike_group X curve_num of
                                         None \<Rightarrow> None
                                       | Some curve \<Rightarrow>
                                           (case asn1_der_find_elem X outer_seq 1 of
                                              None \<Rightarrow> None
                                            | Some (tag5, key_data) \<Rightarrow>
                                                if tag5 \<noteq> ASN1_ID_BIT_STRING \<or>
                                                   length key_data < 2
                                                then None
                                                else l_ecc_point_from_data X curve
                                                       (key_data ! 1) (drop 2 key_data))))))))"

definition dpp_parse_key :: "('p, 'cv) dpp_ext \<Rightarrow> string \<Rightarrow> nat \<Rightarrow> 'p option" where
  "dpp_parse_key X str len =
     (case l_base64_decode X (take len str) of
        None \<Rightarrow> None
      | Some decoded \<Rightarrow> dpp_point_from_asn1 X decoded)"

text \<open>
  The \<^verbatim>\<open>switch\<close> of \<^verbatim>\<open>dpp_parse_uri\<close> on the letter of a token, with the value of the
  token and its length: the URI information after the token, \<open>None\<close> for the jump to
  \<^verbatim>\<open>free_info\<close>. The cases \<^verbatim>\<open>'H'\<close> and \<^verbatim>\<open>'I'\<close> store nothing.
\<close>

definition dpp_parse_token ::
  "('p, 'cv) dpp_ext \<Rightarrow> char \<Rightarrow> string \<Rightarrow> nat \<Rightarrow> 'p dpp_uri_info \<Rightarrow> 'p dpp_uri_info option" where
  "dpp_parse_token X c val len info =
     (if c = CHR ''C'' then
        (case dpp_parse_class_and_channel X val len of
           None \<Rightarrow> None
         | Some fs \<Rightarrow> Some (info\<lparr>freqs := Some fs\<rparr>))
      else if c = CHR ''M'' then
        (case dpp_parse_mac X val len of
           None \<Rightarrow> None
         | Some m \<Rightarrow> Some (info\<lparr>mac := m\<rparr>))
      else if c = CHR ''V'' then
        (case dpp_parse_version val len of
           None \<Rightarrow> None
         | Some v \<Rightarrow> Some (info\<lparr>version := v\<rparr>))
      else if c = CHR ''K'' then
        (case dpp_parse_key X val len of
           None \<Rightarrow> None
         | Some k \<Rightarrow> Some (info\<lparr>boot_public := Some k\<rparr>))
      else if c = CHR ''H'' \<or> c = CHR ''I'' then Some info
      else None)"

text \<open>
  The token loop of \<^verbatim>\<open>dpp_parse_uri\<close>: the pointer and the URI information when the
  loop ends, \<open>None\<close> for the jump to \<^verbatim>\<open>free_info\<close>.
\<close>

function dpp_parse_tokens ::
  "('p, 'cv) dpp_ext \<Rightarrow> string option \<Rightarrow> 'p dpp_uri_info
     \<Rightarrow> (string option \<times> 'p dpp_uri_info) option" where
  "dpp_parse_tokens X pos info =
     (if \<not> TOKEN_OK pos then Some (pos, info)
      else
        (case pos of
           None \<Rightarrow> Some (pos, info)
         | Some p \<Rightarrow>
             let len = TOKEN_LEN (drop 2 p) CHR '';'' in
             if len = 0 then None
             else
               (case dpp_parse_token X (deref p) (drop 2 p) len info of
                  None \<Rightarrow> None
                | Some info' \<Rightarrow> dpp_parse_tokens X (TOKEN_NEXT p CHR '';'') info')))"
  by pat_completeness auto
termination
proof -
  have next_len: "length r < length p" if "TOKEN_NEXT p sep = Some r" for p sep r
  proof -
    from that obtain n where n: "sep \<in> set p" "n = dropWhile (\<lambda>x. x \<noteq> sep) p" "r = tl n"
      by (auto simp: TOKEN_NEXT_def strchr_def split: option.splits if_splits)
    from n(1,2) have "n \<noteq> []" by simp
    then have "length (tl n) < length n" by (cases n) auto
    with length_dropWhile_le [of "\<lambda>x. x \<noteq> sep" p] n(2,3) show ?thesis by simp
  qed
  show ?thesis
    by (relation "measure (\<lambda>(X, pos, info). case pos of None \<Rightarrow> 0 | Some p \<Rightarrow> Suc (length p))")
       (auto split: option.splits dest: next_len)
qed

declare dpp_parse_tokens.simps [simp del]

text \<open>
  \<^verbatim>\<open>dpp_parse_uri\<close>: \<open>None\<close> for \<^verbatim>\<open>NULL\<close>. \<^verbatim>\<open>end\<close> points at the last character of the URI,
  so that \<^verbatim>\<open>pos != end\<close> holds unless exactly one character is left at \<open>pos\<close>.
\<close>

definition dpp_parse_uri :: "('p, 'cv) dpp_ext \<Rightarrow> string \<Rightarrow> 'p dpp_uri_info option" where
  "dpp_parse_uri X uri =
     (let s = c_str uri in
      if take 4 s \<noteq> ''DPP:'' then None
      else
        (case dpp_parse_tokens X (Some (drop 4 s)) new_uri_info of
           None \<Rightarrow> None
         | Some (pos, info) \<Rightarrow>
             if (case pos of None \<Rightarrow> True | Some p \<Rightarrow> length p \<noteq> 1) then None
             else if boot_public info = None then None
             else Some info))"

subsection \<open>Concrete collaborators for the URI parser\<close>

text \<open>
  Stand-ins for the library functions, used to run the parser on the URIs of the
  unit tests: a base64 decoder, a DER element finder for elements shorter than 128
  bytes, points as the triple of the curve, the point type and the coordinate
  bytes (accepted when the type is a compressed one and the length is that of the
  curve), the channels of operating classes 81 and 115, and unicast non-zero
  station addresses.
\<close>

definition b64_value :: "char \<Rightarrow> nat option" where
  "b64_value c =
     (let n = (of_char c :: nat)
      in if 65 \<le> n \<and> n \<le> 90 then Some (n - 65)
         else if 97 \<le> n \<and> n \<le> 122 then Some (n - 71)
         else if 48 \<le> n \<and> n \<le> 57 then Some (n + 4)
         else if c = CHR ''+'' then Some 62
         else if c = CHR ''/'' then Some 63
         else None)"

fun b64_quads :: "nat list \<Rightarrow> bytes" where
  "b64_quads (a # b # c # d # r) =
     [of_nat (a * 4 + b div 16), of_nat ((b mod 16) * 16 + c div 4), of_nat ((c mod 4) * 64 + d)]
       @ b64_quads r"
| "b64_quads [a, b, c] = [of_nat (a * 4 + b div 16), of_nat ((b mod 16) * 16 + c div 4)]"
| "b64_quads [a, b] = [of_nat (a * 4 + b div 16)]"
| "b64_quads _ = []"

definition base64_example :: "string \<Rightarrow> bytes option" where
  "base64_example s =
     (let body = takeWhile (\<lambda>c. c \<noteq> CHR ''='') s;
          vals = map b64_value body
      in if length s mod 4 \<noteq> 0 \<or> 2 < length s - length body \<or> \<not> list_all (\<lambda>v. v \<noteq> None) vals
         then None
         else Some (b64_quads (map the vals)))"

function der_elems :: "bytes \<Rightarrow> (u8 \<times> bytes) list" where
  "der_elems buf =
     (case buf of
        t # l # rest \<Rightarrow>
          if unat l < 128 \<and> unat l \<le> length rest
          then (t, take (unat l) rest) # der_elems (drop (unat l) rest)
          else []
      | _ \<Rightarrow> [])"
  by pat_completeness auto
termination
  by (relation "measure length") auto

declare der_elems.simps [simp del]

definition der_find_example :: "bytes \<Rightarrow> nat \<Rightarrow> (u8 \<times> bytes) option" where
  "der_find_example buf i =
     (if i < length (der_elems buf) then Some (der_elems buf ! i) else None)"

definition oci_example :: "u8 \<Rightarrow> u8 \<Rightarrow> 32 word" where
  "oci_example oper_class channel =
     (if oper_class = 81 \<and> 1 \<le> channel \<and> channel \<le> 13 then 2407 + 5 * ucast channel
      else if oper_class = 115 \<and> channel \<in> {36, 40, 44, 48} then 5000 + 5 * ucast channel
      else 0)"

definition dpp_ext_example :: "(nat \<times> u8 \<times> bytes, nat) dpp_ext" where
  "dpp_ext_example =
     \<lparr>l_base64_decode = base64_example,
      asn1_der_find_elem = der_find_example,
      l_ecc_curve_from_ike_group = (\<lambda>g. if g = 19 \<or> g = 20 then Some g else None),
      l_ecc_point_from_data =
        (\<lambda>curve t d. if (t = 2 \<or> t = 3) \<and> length d = (if curve = 19 then 32 else 48)
                      then Some (curve, t, d) else None),
      oci_to_frequency = oci_example,
      util_is_valid_sta_address =
        (\<lambda>m. length m = 6 \<and> m \<noteq> replicate 6 0 \<and> \<not> bit (hd m) 0)\<rparr>"

definition key_example :: string where
  "key_example =
     ''MDkwEwYHKoZIzj0CAQYIKoZIzj0DAQcDIgADURzxmttZoIRIPWGoQMV00XHWCAQIhXruVWOz0NjlkIA=''"

definition key_der_example :: bytes where
  "key_der_example =
     [0x30, 0x39, 0x30, 0x13, 0x06, 0x07, 0x2a, 0x86, 0x48, 0xce, 0x3d, 0x02, 0x01,
      0x06, 0x08, 0x2a, 0x86, 0x48, 0xce, 0x3d, 0x03, 0x01, 0x07, 0x03, 0x22, 0x00, 0x03,
      0x51, 0x1c, 0xf1, 0x9a, 0xdb, 0x59, 0xa0, 0x84, 0x48, 0x3d, 0x61, 0xa8, 0x40, 0xc5,
      0x74, 0xd1, 0x71, 0xd6, 0x08, 0x04, 0x08, 0x85, 0x7a, 0xee, 0x55, 0x63, 0xb3, 0xd0,
      0xd8, 0xe5, 0x90, 0x80]"

definition point_example :: "nat \<times> u8 \<times> bytes" where
  "point_example = (19, 0x03, drop 27 key_der_example)"

text \<open>
  The URI of the unit tests that has every token but \<^verbatim>\<open>H\<close>, what follows \<^verbatim>\<open>DPP:\<close> in it,
  the same URI with an \<^verbatim>\<open>H\<close> token before the others, and a URI with the key alone
  that ends with one \<^verbatim>\<open>;\<close> and one more character.
\<close>

definition uri_example :: string where
  "uri_example =
     ''DPP:C:81/1,115/36;I:SN=4774LH2b4044;M:5254005828e5;V:2;K:'' @ key_example @ '';;''"

definition uri_info_example :: "(nat \<times> u8 \<times> bytes) dpp_uri_info" where
  "uri_info_example =
     \<lparr>freqs = Some {2412, 5180}, boot_public = Some point_example,
      mac = [0x52, 0x54, 0x00, 0x58, 0x28, 0xe5], version = 2,
      information = None, host = None\<rparr>"

definition uri_rest_example :: string where
  "uri_rest_example =
     ''C:81/1,115/36;I:SN=4774LH2b4044;M:5254005828e5;V:2;K:'' @ key_example @ '';;''"

definition uri_host_example :: string where
  "uri_host_example = ''DPP:H:example.org;'' @ uri_rest_example"

definition uri_trailing_example :: string where
  "uri_trailing_example = ''DPP:K:'' @ key_example @ '';x''"

section \<open>dpp-util.c: wrapped data\<close>

text \<open>
  \<^verbatim>\<open>l_put_le16\<close> as the two bytes it stores, and \<^verbatim>\<open>memcpy(buf + off, bs, n)\<close> on a buffer
  that is a list of bytes.
\<close>

definition l_put_le16 :: "16 word \<Rightarrow> bytes" where
  "l_put_le16 v = [ucast v, ucast (drop_bit 8 v)]"

definition store :: "bytes \<Rightarrow> nat \<Rightarrow> bytes \<Rightarrow> bytes" where
  "store buf off bs = take off buf @ bs @ drop (off + length bs) buf"

text \<open>
  \<^verbatim>\<open>dpp_append_attr\<close>: the value returned and the buffer \<open>to\<close> afterwards. \<open>ty\<close> is the value
  of the \<^verbatim>\<open>enum dpp_attribute_type\<close>.
\<close>

definition dpp_append_attr :: "bytes \<Rightarrow> nat \<Rightarrow> bytes \<Rightarrow> nat \<Rightarrow> nat \<times> bytes" where
  "dpp_append_attr to ty attr attr_len =
     (let to1 = store to 0 (l_put_le16 (of_nat ty));
          to2 = store to1 2 (l_put_le16 (of_nat attr_len));
          to3 = store to2 4 (take attr_len attr)
      in (attr_len + 4, to3))"

text \<open>
  AES-SIV is implemented in \<^verbatim>\<open>crypto.c\<close> and the attribute types are declared in
  \<^verbatim>\<open>dpp-util.h\<close>; neither is among the sources, so both are parameters. The two
  functions are given the key, the input and the list of associated-data chunks,
  and return what they write to \<open>out\<close>, \<open>None\<close> when they return \<^verbatim>\<open>false\<close>.
\<close>

record siv_ext =
  aes_siv_encrypt :: "bytes \<Rightarrow> bytes \<Rightarrow> bytes list \<Rightarrow> bytes option"
  aes_siv_decrypt :: "bytes \<Rightarrow> bytes \<Rightarrow> bytes list \<Rightarrow> bytes option"
  DPP_ATTR_WRAPPED_DATA :: nat

text \<open>
  The \<^verbatim>\<open>struct iovec ad[2]\<close> that both functions fill: the chunks that are not \<^verbatim>\<open>NULL\<close>,
  \<open>ad0\<close> first.
\<close>

definition ad_iov :: "bytes option \<Rightarrow> bytes option \<Rightarrow> bytes list" where
  "ad_iov ad0 ad1 =
     (case ad0 of None \<Rightarrow> [] | Some a \<Rightarrow> [a]) @ (case ad1 of None \<Rightarrow> [] | Some a \<Rightarrow> [a])"

text \<open>
  The allocator \<^verbatim>\<open>l_malloc\<close> of the ELL library is not among the sources. It returns
  \<^verbatim>\<open>NULL\<close> for a size of 0, and ends the process with \<^verbatim>\<open>abort\<close> when the allocation
  fails; the sizes that fail are taken to be those of \<open>2 ^ 64 - 16\<close> bytes or more, which
  is what \<^verbatim>\<open>wrapped_len - 16\<close> is in \<^verbatim>\<open>size_t\<close> for a length below 16. A call either
  ends the process or returns; \<open>l_malloc\<close> returns whether the pointer is not \<^verbatim>\<open>NULL\<close>.
\<close>

datatype 'a outcome = Aborted | Returned 'a

definition l_malloc :: "nat \<Rightarrow> bool outcome" where
  "l_malloc n =
     (if n = 0 then Returned False
      else if 2 ^ 64 - 16 \<le> n then Aborted
      else Returned True)"

text \<open>
  \<^verbatim>\<open>dpp_unwrap_attr\<close>: the buffer returned and \<^verbatim>\<open>*unwrapped_len\<close>, \<open>None\<close> for \<^verbatim>\<open>NULL\<close>. The
  length is computed in \<^verbatim>\<open>size_t\<close>, 64 bits wide. The pointer returned is the one
  \<^verbatim>\<open>l_malloc\<close> gave, so that a ciphertext of 16 bytes, whose plaintext is empty, has
  \<^verbatim>\<open>NULL\<close> returned for it also when \<^verbatim>\<open>aes_siv_decrypt\<close> accepts it.
\<close>

definition dpp_unwrap_attr ::
  "siv_ext \<Rightarrow> bytes option \<Rightarrow> bytes option \<Rightarrow> bytes \<Rightarrow> bytes
     \<Rightarrow> (bytes \<times> nat) option outcome" where
  "dpp_unwrap_attr X ad0 ad1 key wrapped =
     (let wrapped_len = length wrapped;
          unwrapped_len = (wrapped_len + 2 ^ 64 - 16) mod 2 ^ 64
      in case l_malloc unwrapped_len of
           Aborted \<Rightarrow> Aborted
         | Returned unwrapped \<Rightarrow>
             (case aes_siv_decrypt X key wrapped (ad_iov ad0 ad1) of
                None \<Rightarrow> Returned None
              | Some plaintext \<Rightarrow>
                  if unwrapped then Returned (Some (plaintext, unwrapped_len))
                  else Returned None))"

text \<open>
  \<^verbatim>\<open>dpp_append_wrapped_data\<close>. The variable arguments are a list of pairs of the
  attribute type and the attribute data, the length \<open>l\<close> passed with a pointer \<open>p\<close>
  being the length of the data. The two loops are \<open>attrs_length\<close> and
  \<open>attrs_plaintext\<close>. The result is the value returned and the buffer \<open>to\<close> afterwards;
  \<^verbatim>\<open>return false\<close> returns 0.
\<close>

definition attrs_length :: "(nat \<times> bytes) list \<Rightarrow> nat" where
  "attrs_length attrs = foldl (\<lambda>attrs_len (ty, p). attrs_len + (length p + 4)) 0 attrs"

definition attrs_plaintext :: "(nat \<times> bytes) list \<Rightarrow> bytes" where
  "attrs_plaintext attrs =
     foldl (\<lambda>plaintext (ty, p).
              plaintext @ l_put_le16 (of_nat ty) @ l_put_le16 (of_nat (length p)) @ p)
       [] attrs"

definition dpp_append_wrapped_data ::
  "siv_ext \<Rightarrow> bytes option \<Rightarrow> bytes option \<Rightarrow> bytes \<Rightarrow> nat \<Rightarrow> bytes \<Rightarrow> (nat \<times> bytes) list
     \<Rightarrow> nat \<times> bytes" where
  "dpp_append_wrapped_data X ad0 ad1 to to_len key attrs =
     (let attrs_len = attrs_length attrs in
      if to_len < attrs_len + 4 + 16 then (0, to)
      else
        let plaintext = attrs_plaintext attrs;
            to1 = store to 0 (l_put_le16 (of_nat (DPP_ATTR_WRAPPED_DATA X)));
            to2 = store to1 2 (l_put_le16 (of_nat (attrs_len + 16)))
        in (case aes_siv_encrypt X key plaintext (ad_iov ad0 ad1) of
              None \<Rightarrow> (0, to2)
            | Some out \<Rightarrow> (attrs_len + 4 + 16, store to2 4 out)))"

subsection \<open>The claim about wrapped data\<close>

text \<open>
  The serialized attributes, each as \<^verbatim>\<open>dpp_append_attr\<close> writes it: the type and the
  length in 16 bits, little-endian, then the data.
\<close>

definition serialize_attrs :: "(nat \<times> bytes) list \<Rightarrow> bytes" where
  "serialize_attrs attrs =
     concat (map (\<lambda>(ty, p). snd (dpp_append_attr [] ty p (length p))) attrs)"

text \<open>
  The ciphertext of the attribute that \<^verbatim>\<open>dpp_append_wrapped_data\<close> emitted, given the
  value it returned and the buffer: what follows the four bytes of the header.
\<close>

definition wrapped_ciphertext :: "nat \<Rightarrow> bytes \<Rightarrow> bytes" where
  "wrapped_ciphertext n to = take (n - 4) (drop 4 to)"

text \<open>
  Two buffers of one length that differ in exactly one byte, and two lists of
  associated-data chunks of which exactly one chunk differs, in exactly one byte.
\<close>

definition one_byte_flipped :: "bytes \<Rightarrow> bytes \<Rightarrow> bool" where
  "one_byte_flipped xs ys =
     (length xs = length ys \<and>
      list_ex (\<lambda>i. ys ! i \<noteq> xs ! i \<and> ys = xs[i := ys ! i]) [0..<length xs])"

definition ad_flipped :: "bytes list \<Rightarrow> bytes list \<Rightarrow> bool" where
  "ad_flipped ad ad' =
     (length ad = length ad' \<and>
      list_ex (\<lambda>j. one_byte_flipped (ad ! j) (ad' ! j) \<and> ad' = ad[j := ad' ! j]) [0..<length ad])"

text \<open>
  Modelled from the spec: AES-SIV of \<^verbatim>\<open>crypto.c\<close>, which is not among the sources. The
  spec says of it that the ciphertext is 16 bytes longer than the plaintext, that
  encrypting and then decrypting under the same key and associated data returns the
  plaintext bit for bit, and that flipping any byte of the ciphertext or of the
  associated data makes decryption fail.
\<close>

definition aes_siv_spec :: "siv_ext \<Rightarrow> bool" where
  "aes_siv_spec X =
     (\<forall>key pt ad ct.
        aes_siv_encrypt X key pt ad = Some ct \<longrightarrow>
          length ct = length pt + 16 \<and>
          aes_siv_decrypt X key ct ad = Some pt \<and>
          (\<forall>ct'. one_byte_flipped ct ct' \<longrightarrow> aes_siv_decrypt X key ct' ad = None) \<and>
          (\<forall>ad'. ad_flipped ad ad' \<longrightarrow> aes_siv_decrypt X key ct ad' = None))"

subsection \<open>A concrete cipher\<close>

text \<open>
  A stand-in for AES-SIV with the properties the spec states, used to run the two
  functions: the sixteen bytes of the tag all hold the sum of the bytes of the key,
  of the associated data and of the plaintext, and the plaintext follows, each byte
  combined with a constant. Keys are 32, 48 or 64 bytes long.
\<close>

definition siv_tag_example :: "bytes \<Rightarrow> bytes \<Rightarrow> bytes list \<Rightarrow> bytes" where
  "siv_tag_example key pt ad =
     replicate 16 (sum_list key + sum_list (concat ad) + sum_list pt)"

definition siv_example :: siv_ext where
  "siv_example =
     \<lparr>aes_siv_encrypt =
        (\<lambda>key pt ad.
           if length key \<notin> {32, 48, 64} then None
           else Some (siv_tag_example key pt ad @ map (\<lambda>b. b XOR 0x5a) pt)),
      aes_siv_decrypt =
        (\<lambda>key ct ad.
           if length key \<notin> {32, 48, 64} \<or> length ct < 16 then None
           else
             let pt = map (\<lambda>b. b XOR 0x5a) (drop 16 ct) in
             if take 16 ct = siv_tag_example key pt ad then Some pt else None),
      DPP_ATTR_WRAPPED_DATA = 0x1004\<rparr>"

definition key_siv_example :: bytes where
  "key_siv_example = replicate 32 0x2b"

definition attrs_example :: "(nat \<times> bytes) list" where
  "attrs_example = [(0x1002, [0x01, 0x02]), (0x1005, [0xaa])]"

definition wrapped_example :: bytes where
  "wrapped_example =
     [0x04, 0x10, 0x1b, 0x00] @ replicate 16 0x67 @
     [0x58, 0x4a, 0x58, 0x5a, 0x5b, 0x58, 0x5f, 0x4a, 0x5b, 0x5a, 0xf0] @ replicate 9 0"

definition ciphertext_example :: bytes where
  "ciphertext_example = take 27 (drop 4 wrapped_example)"

definition attrs_long_example :: "(nat \<times> bytes) list" where
  "attrs_long_example = [(0x1002, replicate 65516 0)]"

section \<open>dpp-util.c: the mutual authentication secret\<close>

text \<open>
  The ECC library is not among the sources, so that its functions are parameters,
  for one curve: the point that \<^verbatim>\<open>l_ecc_point_new\<close> returns, the order that
  \<^verbatim>\<open>l_ecc_curve_get_order\<close> returns, and for the three operations what they store in
  their first argument, \<open>None\<close> when they return \<^verbatim>\<open>false\<close>.
\<close>

record ('p, 's) ecc_ext =
  l_ecc_point_new :: 'p
  l_ecc_curve_get_order :: 's
  l_ecc_point_add :: "'p \<Rightarrow> 'p \<Rightarrow> 'p option"
  l_ecc_point_multiply :: "'s \<Rightarrow> 'p \<Rightarrow> 'p option"
  l_ecc_scalar_add :: "'s \<Rightarrow> 's \<Rightarrow> 's \<Rightarrow> 's option"

text \<open>
  \<^verbatim>\<open>dpp_derive_li\<close> ignores what the two operations return, so that a failed operation
  leaves \<open>ret\<close> as it was; \<^verbatim>\<open>dpp_derive_lr\<close> returns \<^verbatim>\<open>NULL\<close>, here \<open>None\<close>, when an
  operation fails.
\<close>

definition dpp_derive_li :: "('p, 's) ecc_ext \<Rightarrow> 'p \<Rightarrow> 'p \<Rightarrow> 's \<Rightarrow> 'p" where
  "dpp_derive_li E boot_pub proto_pub boot_private =
     (let ret = l_ecc_point_new E;
          ret = (case l_ecc_point_add E boot_pub proto_pub of
                   None \<Rightarrow> ret | Some r \<Rightarrow> r);
          ret = (case l_ecc_point_multiply E boot_private ret of
                   None \<Rightarrow> ret | Some r \<Rightarrow> r)
      in ret)"

definition dpp_derive_lr :: "('p, 's) ecc_ext \<Rightarrow> 's \<Rightarrow> 's \<Rightarrow> 'p \<Rightarrow> 'p option" where
  "dpp_derive_lr E boot_private proto_private peer_public =
     (let order = l_ecc_curve_get_order E in
      case l_ecc_scalar_add E boot_private proto_private order of
        None \<Rightarrow> None
      | Some scalar_sum \<Rightarrow>
          (case l_ecc_point_multiply E scalar_sum peer_public of
             None \<Rightarrow> None
           | Some ret \<Rightarrow> Some ret))"

text \<open>
  Modelled from the spec: the operations of the ECC library, which is not among the
  sources. The spec writes the secrets as \<open>bI \<cdot> (BR + PR)\<close> and
  \<open>((bR + pR) mod q) \<cdot> BI\<close>, and a public key as the private key times the generator
  \<open>G\<close>: the points of a curve are a commutative group under \<open>+\<close>, \<open>n \<cdot> P\<close> is the sum of
  \<open>n\<close> copies of \<open>P\<close>, scalars are added modulo the order \<open>q\<close>, and a new point is
  the neutral element.
\<close>

primrec scalar_mult :: "nat \<Rightarrow> 'a::ab_group_add \<Rightarrow> 'a" where
  "scalar_mult 0 P = 0"
| "scalar_mult (Suc n) P = P + scalar_mult n P"

definition ecc_group :: "nat \<Rightarrow> ('a::ab_group_add, nat) ecc_ext" where
  "ecc_group q =
     \<lparr>l_ecc_point_new = 0,
      l_ecc_curve_get_order = q,
      l_ecc_point_add = (\<lambda>a b. Some (a + b)),
      l_ecc_point_multiply = (\<lambda>s P. Some (scalar_mult s P)),
      l_ecc_scalar_add = (\<lambda>a b m. Some ((a + b) mod m))\<rparr>"

chapter \<open>Properties\<close>

section \<open>Non-HT rate estimation\<close>

lemma peer_supports_rate_iff:
  assumes "ie_ok ie"
  shows "peer_supports_rate ie rate = peer_advertises ie rate"
proof (cases ie)
  case None
  then show ?thesis by (simp add: peer_advertises_def)
next
  case (Some rs)
  let ?n = "unat (rs ! 1)"
  from assms Some have len: "?n + 2 \<le> length rs" by (simp add: ie_ok_def)
  have "(\<exists>i<?n. (rs ! (i + 2)) AND 0x7f = rate) =
        (\<exists>b \<in> set (take ?n (drop 2 rs)). b AND 0x7f = rate)"
  proof
    assume "\<exists>i<?n. (rs ! (i + 2)) AND 0x7f = rate"
    then obtain i where i: "i < ?n" "(rs ! (i + 2)) AND 0x7f = rate" by blast
    from i(1) len have "take ?n (drop 2 rs) ! i = rs ! (i + 2)"
      by (simp add: add.commute)
    moreover from i(1) len have "i < length (take ?n (drop 2 rs))" by simp
    ultimately have "rs ! (i + 2) \<in> set (take ?n (drop 2 rs))"
      by (metis nth_mem)
    with i(2) show "\<exists>b \<in> set (take ?n (drop 2 rs)). b AND 0x7f = rate" by blast
  next
    assume "\<exists>b \<in> set (take ?n (drop 2 rs)). b AND 0x7f = rate"
    then obtain b where b: "b \<in> set (take ?n (drop 2 rs))" "b AND 0x7f = rate" by blast
    from b(1) obtain i where i: "i < length (take ?n (drop 2 rs))" "take ?n (drop 2 rs) ! i = b"
      by (auto simp: in_set_conv_nth)
    from i(1) len have "i < ?n" by simp
    moreover from this len i(2) have "rs ! (i + 2) = b" by (simp add: add.commute)
    ultimately show "\<exists>i<?n. (rs ! (i + 2)) AND 0x7f = rate" using b(2) by blast
  qed
  moreover have "rs ! 1 = 0 \<Longrightarrow> ?n = 0" by simp
  ultimately show ?thesis using Some
    by (auto simp: peer_advertises_def list_ex_iff)
qed

lemma find_distinct_snd:
  "distinct (map snd xs) \<Longrightarrow>
   (find (\<lambda>e. snd e = r) xs = Some e) = (e \<in> set xs \<and> snd e = r)"
  by (induction xs) (auto simp: rev_image_eqI)

lemma find_None_snd: "(find (\<lambda>e. snd e = r) xs = None) = (r \<notin> snd ` set xs)"
  by (induction xs) auto

lemma distinct_rate_rssi_map: "distinct (map snd rate_rssi_map)"
  by (simp add: rate_rssi_map_def)

lemma rate_usable_find:
  "rate_usable rssi rate =
     (case find (\<lambda>e. snd e = rate) rate_rssi_map of None \<Rightarrow> False | Some e \<Rightarrow> fst e \<le> rssi)"
proof (cases "find (\<lambda>e. snd e = rate) rate_rssi_map")
  case None
  then have "rate \<notin> snd ` set rate_rssi_map" by (simp add: find_None_snd)
  then have "\<not> rate_usable rssi rate" unfolding rate_usable_def by blast
  then show ?thesis by (simp add: None)
next
  case (Some e)
  then have e: "e \<in> set rate_rssi_map" "snd e = rate"
    by (simp_all add: find_distinct_snd [OF distinct_rate_rssi_map])
  have uniq: "e' = e" if "e' \<in> set rate_rssi_map" "snd e' = rate" for e'
  proof -
    from that have "find (\<lambda>e. snd e = rate) rate_rssi_map = Some e'"
      by (simp add: find_distinct_snd [OF distinct_rate_rssi_map])
    with Some show ?thesis by simp
  qed
  have "rate_usable rssi rate = (fst e \<le> rssi)"
    unfolding rate_usable_def using e uniq by blast
  then show ?thesis by (simp add: Some)
qed

lemma nonht_rate_step_eq:
  assumes "ie_ok sr" "ie_ok esr"
  shows "nonht_rate_step sr esr rssi rate m =
           (if m < rate \<and> eligible sr esr rssi rate then rate else m)"
  using assms
  by (auto simp: nonht_rate_step_def eligible_def rate_usable_find peer_supports_rate_iff
           split: option.splits)

lemma fold_max_step:
  fixes m :: u8
  assumes "\<And>r a. f r a = (if a < r \<and> E r then r else a)"
  shows "m \<le> fold f xs m \<and>
         (fold f xs m = m \<or> (fold f xs m \<in> set xs \<and> E (fold f xs m))) \<and>
         (\<forall>r \<in> set xs. E r \<longrightarrow> r \<le> fold f xs m)"
proof (induction xs arbitrary: m)
  case Nil
  then show ?case by simp
next
  case (Cons x xs)
  show ?case
  proof (cases "m < x \<and> E x")
    case True
    then have "fold f (x # xs) m = fold f xs x" by (simp add: assms)
    with Cons.IH [of x] True show ?thesis by auto
  next
    case False
    then have "fold f (x # xs) m = fold f xs m" by (auto simp: assms)
    with Cons.IH [of m] False show ?thesis by auto
  qed
qed

lemma not_eligible_0: "\<not> eligible sr esr rssi 0"
  by (simp add: eligible_def rate_usable_def rate_rssi_map_def)

lemma unat_rate_word: "unat (word_of_int (uint (m::u8) * 500000) :: 64 word) = unat m * 500000"
proof -
  have m: "unat m < 2 ^ 8" using unsigned_less [of m] by simp
  then have lt: "unat m * 500000 < 2 ^ 64" by simp
  have "unat (ucast m :: 64 word) = take_bit 64 (unat m)"
    by (simp add: unsigned_ucast_eq)
  also have "\<dots> = unat m" using m by (simp add: take_bit_nat_eq_self)
  finally have u: "unat (ucast m :: 64 word) = unat m" .
  have k: "unat (500000 :: 64 word) = 500000" by simp
  have "unat (ucast m :: 64 word) * unat (500000 :: 64 word) < 2 ^ LENGTH(64)"
    using lt by (simp only: u k) simp
  then have "unat (ucast m * 500000 :: 64 word) = unat (ucast m :: 64 word) * unat (500000 :: 64 word)"
    by (simp only: unat_mult_lem)
  then show ?thesis by (simp add: u)
qed

lemma nonht_rate_loop:
  assumes "ie_ok sr" "ie_ok esr"
  shows "(fold (nonht_rate_step sr esr rssi) xs 0 = 0 \<or>
          (fold (nonht_rate_step sr esr rssi) xs 0 \<in> set xs \<and>
           eligible sr esr rssi (fold (nonht_rate_step sr esr rssi) xs 0))) \<and>
         (\<forall>r \<in> set xs. eligible sr esr rssi r \<longrightarrow>
            r \<le> fold (nonht_rate_step sr esr rssi) xs 0)"
  using fold_max_step [of "nonht_rate_step sr esr rssi" "eligible sr esr rssi" 0 xs]
        nonht_rate_step_eq [OF assms]
  by simp

text \<open>
  C5, as stated, asks that every returned rate \<open>r\<close> divide 500000. The returned rate is a
  multiple of 500000 instead: with the band and peer rates of the 54 Mbit/s scenario
  at -60 dBm the estimator returns 54000000, which does not divide 500000.
\<close>

theorem band_estimate_nonht_rate_divides_counterexample:
  "band_estimate_nonht_rate
     \<lparr>supported_rates = [2, 4, 11, 22, 12, 18, 24, 36, 48, 72, 96, 108]\<rparr>
     (Some [1, 12, 2, 4, 11, 22, 12, 18, 24, 36, 48, 72, 96, 108]) None (-60)
   = Inr 54000000 \<and> \<not> (unat (54000000 :: 64 word) dvd 500000)"
  by (simp add: band_estimate_nonht_rate_def nonht_rate_step_def rate_rssi_map_def
        upt_conv_Cons)

text \<open>
  C5, amended: for well-formed peer elements, \<^verbatim>\<open>band_estimate_nonht_rate\<close> fails (with
  \<^verbatim>\<open>-EINVAL\<close>) exactly when no band rate is eligible, and otherwise returns
  \<open>max_rate * 500000\<close> where \<open>max_rate\<close> is the largest band rate that is in the threshold
  table with \<open>rssi\<close> at or above its threshold and that the peer advertises in the
  Supported Rates or the Extended Supported Rates element (basic-rate bit masked);
  the returned rate is a multiple of 500000 (500000 divides it, not the reverse).
\<close>

theorem band_estimate_nonht_rate_max_eligible:
  assumes "ie_ok sr" and "ie_ok esr"
  shows "case band_estimate_nonht_rate b sr esr rssi of
           Inl e \<Rightarrow> e = EINVAL \<and> (\<forall>rate \<in> set (supported_rates b). \<not> eligible sr esr rssi rate)
         | Inr r \<Rightarrow>
             (\<exists>m \<in> set (supported_rates b).
                unat r = unat m * 500000 \<and> eligible sr esr rssi m \<and>
                (\<forall>rate \<in> set (supported_rates b). eligible sr esr rssi rate \<longrightarrow> rate \<le> m)) \<and>
             500000 dvd unat r"
proof (cases "sr = None \<and> esr = None")
  case True
  then have "\<not> eligible sr esr rssi rate" for rate
    by (simp add: eligible_def peer_advertises_def)
  with True show ?thesis by (simp add: band_estimate_nonht_rate_def)
next
  case False
  define R where "R = fold (nonht_rate_step sr esr rssi) (rev (supported_rates b)) 0"
  from nonht_rate_loop [OF assms, of rssi "rev (supported_rates b)"]
  have loop: "R = 0 \<or> (R \<in> set (supported_rates b) \<and> eligible sr esr rssi R)"
    "\<forall>r \<in> set (supported_rates b). eligible sr esr rssi r \<longrightarrow> r \<le> R"
    by (simp_all add: R_def)
  show ?thesis
  proof (cases "R = 0")
    case True
    have "\<not> eligible sr esr rssi rate" if "rate \<in> set (supported_rates b)" for rate
    proof
      assume el: "eligible sr esr rssi rate"
      with loop(2) that True have "rate \<le> 0" by blast
      then have "rate = 0" by simp
      with el not_eligible_0 show False by blast
    qed
    with False True show ?thesis
      by (auto simp: band_estimate_nonht_rate_def R_def [symmetric])
  next
    case nz: False
    with loop(1) have R: "R \<in> set (supported_rates b)" "eligible sr esr rssi R" by simp_all
    have res: "band_estimate_nonht_rate b sr esr rssi = Inr (word_of_int (uint R * 500000))"
      using False nz by (simp add: band_estimate_nonht_rate_def R_def [symmetric])
    have "unat (word_of_int (uint R * 500000) :: 64 word) = unat R * 500000"
      by (rule unat_rate_word)
    with R loop(2) show ?thesis
      by (simp only: res sum.case) (metis dvd_triv_right)
  qed
qed

theorem band_estimate_nonht_rate_max_eligible_witness:
  "ie_ok (Some [1, 8, 0x82, 0x84, 0x8b, 0x96, 12, 18, 24, 36]) \<and>
   ie_ok (Some [50, 4, 48, 72, 96, 108]) \<and>
   band_estimate_nonht_rate
     \<lparr>supported_rates = [2, 4, 11, 22, 12, 18, 24, 36, 48, 72, 96, 108]\<rparr>
     (Some [1, 8, 0x82, 0x84, 0x8b, 0x96, 12, 18, 24, 36])
     (Some [50, 4, 48, 72, 96, 108]) (-80) = Inr 11000000 \<and>
   (case band_estimate_nonht_rate
           \<lparr>supported_rates = [2, 4, 11, 22, 12, 18, 24, 36, 48, 72, 96, 108]\<rparr>
           (Some [1, 8, 0x82, 0x84, 0x8b, 0x96, 12, 18, 24, 36])
           (Some [50, 4, 48, 72, 96, 108]) (-80) of
      Inl e \<Rightarrow> e = EINVAL \<and>
        (\<forall>rate \<in> set (supported_rates
            \<lparr>supported_rates = [2, 4, 11, 22, 12, 18, 24, 36, 48, 72, 96, 108]\<rparr>).
           \<not> eligible (Some [1, 8, 0x82, 0x84, 0x8b, 0x96, 12, 18, 24, 36])
               (Some [50, 4, 48, 72, 96, 108]) (-80) rate)
    | Inr r \<Rightarrow>
        (\<exists>m \<in> set (supported_rates
            \<lparr>supported_rates = [2, 4, 11, 22, 12, 18, 24, 36, 48, 72, 96, 108]\<rparr>).
           unat r = unat m * 500000 \<and>
           eligible (Some [1, 8, 0x82, 0x84, 0x8b, 0x96, 12, 18, 24, 36])
             (Some [50, 4, 48, 72, 96, 108]) (-80) m \<and>
           (\<forall>rate \<in> set (supported_rates
               \<lparr>supported_rates = [2, 4, 11, 22, 12, 18, 24, 36, 48, 72, 96, 108]\<rparr>).
              eligible (Some [1, 8, 0x82, 0x84, 0x8b, 0x96, 12, 18, 24, 36])
                (Some [50, 4, 48, 72, 96, 108]) (-80) rate \<longrightarrow> rate \<le> m)) \<and>
        500000 dvd unat r)"
proof -
  have h1: "ie_ok (Some [1, 8, 0x82, 0x84, 0x8b, 0x96, 12, 18, 24, 36])"
    by (simp add: ie_ok_def)
  have h2: "ie_ok (Some [50, 4, 48, 72, 96, 108])"
    by (simp add: ie_ok_def)
  have v: "band_estimate_nonht_rate
           \<lparr>supported_rates = [2, 4, 11, 22, 12, 18, 24, 36, 48, 72, 96, 108]\<rparr>
           (Some [1, 8, 0x82, 0x84, 0x8b, 0x96, 12, 18, 24, 36])
           (Some [50, 4, 48, 72, 96, 108]) (-80) = Inr 11000000"
    by (simp add: band_estimate_nonht_rate_def nonht_rate_step_def rate_rssi_map_def
          upt_conv_Cons)
  note t = band_estimate_nonht_rate_max_eligible [OF h1 h2,
      of "\<lparr>supported_rates = [2, 4, 11, 22, 12, 18, 24, 36, 48, 72, 96, 108]\<rparr>" "-80"]
  show ?thesis by (rule conjI [OF h1 conjI [OF h2 conjI [OF v t]]])
qed

section \<open>Attribute parsing\<close>

lemma call_handler_None_iff:
  "(call_handler h d out st = None) = (\<not> payload_ok h d)"
  by (cases h)
     (auto simp: extract_ifindex_def extract_name_def extract_2_chars_def extract_mac_def
        extract_uint64_def extract_uint32_def extract_flag_def extract_iovec_def
        extract_nested_def extract_u8_def Suc_le_eq)

lemma build_entries_requested: "build_entries (requested args) = build_entries args"
  by (induction args rule: build_entries.induct) (auto simp: requested_def split: option.splits)

lemma build_entries_None_iff:
  "NL80211_ATTR_UNSPEC \<notin> fst ` set req \<Longrightarrow>
   (build_entries req = None) = (\<not> all_supported req)"
  by (induction req rule: build_entries.induct) (auto simp: all_supported_def split: option.splits)

lemma requested_no_unspec: "NL80211_ATTR_UNSPEC \<notin> fst ` set (requested args)"
  by (auto simp: requested_def dest: set_takeWhileD)

lemma build_entries_Some:
  "NL80211_ATTR_UNSPEC \<notin> fst ` set req \<Longrightarrow> all_supported req \<Longrightarrow>
   build_entries req = Some (map entry_of req)"
  by (induction req rule: build_entries.induct)
     (auto simp: all_supported_def entry_of_def split: option.splits)

lemma scan_entry_find:
  "scan_entry es t d st =
     (case find (\<lambda>e. type e = t) es of
        None \<Rightarrow> (Inr es, st)
      | Some e \<Rightarrow>
          if present e then (Inl EALREADY, st)
          else case call_handler (handler e) d (data e) st of
                 None \<Rightarrow> (Inl EINVAL, st)
               | Some st' \<Rightarrow> (Inr (mark t es), st'))"
  by (induction es) (auto split: option.splits)

lemma scan_attrs_append:
  "scan_attrs (xs @ ys) es st =
     (case scan_attrs xs es st of
        (Inl err, st') \<Rightarrow> (Inl err, st')
      | (Inr es', st') \<Rightarrow> scan_attrs ys es' st')"
  by (induction xs es st rule: scan_attrs.induct) (auto split: prod.splits sum.splits)

lemma find_mark:
  "find (\<lambda>e. type e = t') (mark t es) =
     (if t' = t then map_option (\<lambda>e. e\<lparr>present := True\<rparr>) (find (\<lambda>e. type e = t) es)
      else find (\<lambda>e. type e = t') es)"
  by (induction es) auto

lemma map_type_mark: "map type (mark t es) = map type es"
  by (induction es) auto

lemma map_data_mark: "map data (mark t es) = map data es"
  by (induction es) auto

lemma map_handler_mark: "map handler (mark t es) = map handler es"
  by (induction es) auto

lemma mark_not_requested: "t \<notin> type ` set es \<Longrightarrow> mark t es = es"
  by (induction es) auto

lemma find_type_Some:
  "find (\<lambda>e. type e = t) es = Some e \<Longrightarrow> e \<in> set es \<and> type e = t"
  by (induction es) (auto split: if_splits)

lemma is_present_requested: "is_present es t \<Longrightarrow> t \<in> type ` set es"
  by (auto simp: is_present_def split: option.splits dest: find_type_Some)

lemma is_present_mark:
  "is_present (mark t es) t' = (if t' = t then t \<in> type ` set es else is_present es t')"
  by (auto simp: is_present_def find_mark find_None_iff split: option.splits
           dest: find_type_Some)

lemma type_set_mark: "type ` set (mark t es) = type ` set es"
  using map_type_mark [of t es] by (metis set_map)

lemma is_present_fold_mark:
  "is_present (fold mark ts es) t = (is_present es t \<or> (t \<in> set ts \<and> t \<in> type ` set es))"
  by (induction ts arbitrary: es)
     (auto simp: is_present_mark type_set_mark dest: is_present_requested)

lemma type_set_fold_mark: "type ` set (fold mark ts es) = type ` set es"
  by (induction ts arbitrary: es) (auto simp: type_set_mark)

lemma map_type_fold_mark: "map type (fold mark ts es) = map type es"
  by (induction ts arbitrary: es) (auto simp: map_type_mark)

lemma map_data_fold_mark: "map data (fold mark ts es) = map data es"
  by (induction ts arbitrary: es) (auto simp: map_data_mark)

lemma map_handler_fold_mark: "map handler (fold mark ts es) = map handler es"
  by (induction ts arbitrary: es) (auto simp: map_handler_mark)

lemma wf_entries_mark: "wf_entries es \<Longrightarrow> wf_entries (mark t es)"
  by (induction es) (auto simp: wf_entries_def)

lemma scan_attrs_clean:
  assumes "wf_entries es"
    and "distinct (filter (\<lambda>t. t \<in> type ` set es) (map fst pre))"
    and "\<forall>a \<in> set pre. fst a \<in> type ` set es \<longrightarrow>
           \<not> is_present es (fst a) \<and> decoder_accepts (fst a) (snd a)"
  shows "\<exists>st'. scan_attrs pre es st = (Inr (fold mark (map fst pre) es), st')"
  using assms
proof (induction pre arbitrary: es st)
  case Nil
  then show ?case by simp
next
  case (Cons a pre)
  obtain t d where a: "a = (t, d)" by (cases a)
  show ?case
  proof (cases "find (\<lambda>e. type e = t) es")
    case None
    then have nt: "t \<notin> type ` set es" by (auto simp: find_None_iff)
    then have m: "mark t es = es" by (rule mark_not_requested)
    from Cons.prems nt a have "\<exists>st'. scan_attrs pre es st = (Inr (fold mark (map fst pre) es), st')"
      by (intro Cons.IH) auto
    with None m a show ?thesis by (simp add: scan_entry_find)
  next
    case (Some e)
    then have e: "e \<in> set es" "type e = t" by (auto dest: find_type_Some)
    then have req: "t \<in> type ` set es" by force
    with Cons.prems(3) a have np: "\<not> is_present es t" and acc: "decoder_accepts t d" by auto
    from np Some have npe: "\<not> present e" by (simp add: is_present_def)
    from Cons.prems(1) e have "handler_for_type t = Some (handler e)" by (auto simp: wf_entries_def)
    with acc have "payload_ok (handler e) d" by (simp add: decoder_accepts_def)
    then obtain st1 where st1: "call_handler (handler e) d (data e) st = Some st1"
      using call_handler_None_iff [of "handler e" d "data e" st] by (cases "call_handler (handler e) d (data e) st") auto
    have step: "scan_entry es t d st = (Inr (mark t es), st1)"
      using Some npe st1 by (simp add: scan_entry_find)
    have wf': "wf_entries (mark t es)" using Cons.prems(1) by (rule wf_entries_mark)
    from Cons.prems(2) a req have tn: "t \<notin> set (map fst pre)" and
      d': "distinct (filter (\<lambda>t. t \<in> type ` set es) (map fst pre))" by auto
    have "\<exists>st'. scan_attrs pre (mark t es) st1 = (Inr (fold mark (map fst pre) (mark t es)), st')"
    proof (rule Cons.IH [OF wf'])
      show "distinct (filter (\<lambda>t'. t' \<in> type ` set (mark t es)) (map fst pre))"
        using d' by (simp add: type_set_mark)
      show "\<forall>a\<in>set pre. fst a \<in> type ` set (mark t es) \<longrightarrow>
              \<not> is_present (mark t es) (fst a) \<and> decoder_accepts (fst a) (snd a)"
        using Cons.prems(3) tn by (auto simp: type_set_mark is_present_mark)
    qed
    with step a show ?thesis by simp
  qed
qed

lemma check_entries_result:
  "fst (check_entries es st) =
     (if \<exists>e \<in> set es. handler e \<noteq> Extract_flag \<and> \<not> present e then Inl ENOENT else Inr ())"
proof (induction es arbitrary: st)
  case Nil
  then show ?case by simp
next
  case (Cons e es)
  show ?case
    using Cons.IH [of st] Cons.IH [of "st(data e \<mapsto> Out_flag (present e))"]
    by (cases "handler e = Extract_flag"; cases "present e") (simp_all del: fun_upd_apply)
qed

lemma check_entries_frame:
  "x \<notin> data ` set es \<Longrightarrow> snd (check_entries es st) x = st x"
proof (induction es arbitrary: st)
  case Nil
  then show ?case by simp
next
  case (Cons e es)
  from Cons.prems have x: "x \<noteq> data e" "x \<notin> data ` set es" by auto
  show ?case
    using Cons.IH [OF x(2), of st] Cons.IH [OF x(2), of "st(data e \<mapsto> Out_flag (present e))"] x(1)
    by (cases "handler e = Extract_flag"; cases "present e") (simp_all del: fun_upd_apply, simp_all)
qed

lemma check_entries_flags:
  "distinct (map data es) \<Longrightarrow> fst (check_entries es st) = Inr () \<Longrightarrow>
   e \<in> set es \<Longrightarrow> handler e = Extract_flag \<Longrightarrow>
   snd (check_entries es st) (data e) = Some (Out_flag (present e))"
proof (induction es arbitrary: st)
  case Nil
  then show ?case by simp
next
  case (Cons e' es)
  from Cons.prems(1) have d: "data e' \<notin> data ` set es" "distinct (map data es)" by auto
  show ?case
  proof (cases "handler e' = Extract_flag")
    case flag: True
    let ?st = "st(data e' \<mapsto> Out_flag (present e'))"
    have eq: "check_entries (e' # es) st = check_entries es ?st" using flag by simp
    show ?thesis
    proof (cases "e = e'")
      case True
      have "snd (check_entries es ?st) (data e') = ?st (data e')"
        using d(1) by (rule check_entries_frame)
      with True show ?thesis by (simp only: eq) simp
    next
      case False
      with Cons.prems(3) have "e \<in> set es" by simp
      moreover from Cons.prems(2) have "fst (check_entries es ?st) = Inr ()" by (simp only: eq)
      ultimately have "snd (check_entries es ?st) (data e) = Some (Out_flag (present e))"
        using Cons.IH [OF d(2)] Cons.prems(4) by blast
      then show ?thesis by (simp only: eq)
    qed
  next
    case nf: False
    with Cons.prems(4) have ne: "e \<noteq> e'" by auto
    from nf Cons.prems(2) have p: "present e'" by (auto split: if_splits)
    with nf have eq: "check_entries (e' # es) st = check_entries es st" by simp
    from ne Cons.prems(3) have "e \<in> set es" by simp
    moreover from Cons.prems(2) have "fst (check_entries es st) = Inr ()" by (simp only: eq)
    ultimately have "snd (check_entries es st) (data e) = Some (Out_flag (present e))"
      using Cons.IH [OF d(2)] Cons.prems(4) by blast
    then show ?thesis by (simp only: eq)
  qed
qed

lemma wf_entries_fold_mark: "wf_entries es \<Longrightarrow> wf_entries (fold mark ts es)"
  by (induction ts arbitrary: es) (auto simp: wf_entries_mark)

lemma wf_entries_initial: "all_supported req \<Longrightarrow> wf_entries (map entry_of req)"
  by (auto simp: wf_entries_def all_supported_def entry_of_def list_all_iff)

lemma type_set_initial: "type ` set (map entry_of req) = fst ` set req"
  by (force simp: entry_of_def)

lemma not_present_initial: "\<not> is_present (map entry_of req) t"
  by (auto simp: is_present_def entry_of_def split: option.splits dest!: find_type_Some)

lemma find_distinct_type:
  "distinct (map type es) \<Longrightarrow> e \<in> set es \<Longrightarrow> find (\<lambda>x. type x = type e) es = Some e"
  by (induction es) (auto simp: rev_image_eqI)

lemma parse_supported:
  assumes "all_supported (requested args)"
  shows "nl80211_parse_attrs (Some attrs) args st =
           (case scan_attrs attrs (map entry_of (requested args)) st of
              (Inl err, st') \<Rightarrow> (Inl err, st')
            | (Inr es', st') \<Rightarrow> check_entries es' st')"
proof -
  have "build_entries args = Some (map entry_of (requested args))"
    using build_entries_Some [OF requested_no_unspec assms] build_entries_requested [of args]
    by simp
  then show ?thesis by (simp add: nl80211_parse_attrs_def)
qed

lemma parse_unsupported:
  assumes "\<not> all_supported (requested args)"
  shows "nl80211_parse_attrs (Some attrs) args st = (Inl ENOSYS, st)"
proof -
  have "build_entries args = None"
    using build_entries_None_iff [OF requested_no_unspec, of args] assms
      build_entries_requested [of args]
    by simp
  then show ?thesis by (simp add: nl80211_parse_attrs_def)
qed

lemma scan_clean_initial:
  assumes "all_supported req" and "clean req pre"
  shows "\<exists>st'. scan_attrs pre (map entry_of req) st =
           (Inr (fold mark (map fst pre) (map entry_of req)), st')"
proof (rule scan_attrs_clean)
  show "wf_entries (map entry_of req)" using assms(1) by (rule wf_entries_initial)
  have "(\<lambda>t. t \<in> type ` set (map entry_of req)) = wanted req"
    by (rule ext) (simp only: type_set_initial wanted_def)
  with assms(2) show "distinct (filter (\<lambda>t. t \<in> type ` set (map entry_of req)) (map fst pre))"
    by (simp add: clean_def)
  from assms(2) show "\<forall>a\<in>set pre. fst a \<in> type ` set (map entry_of req) \<longrightarrow>
      \<not> is_present (map entry_of req) (fst a) \<and> decoder_accepts (fst a) (snd a)"
    by (simp only: type_set_initial not_present_initial)
       (auto simp: clean_def list_all_iff wanted_def)
qed

lemma parse_duplicate:
  assumes sup: "all_supported (requested args)"
    and cl: "clean (requested args) pre"
    and w: "wanted (requested args) t"
    and dup: "t \<in> fst ` set pre"
  shows "fst (nl80211_parse_attrs (Some (pre @ (t, d) # post)) args st) = Inl EALREADY"
proof -
  let ?es0 = "map entry_of (requested args)"
  let ?es1 = "fold mark (map fst pre) ?es0"
  from scan_clean_initial [OF sup cl] obtain st1 where
    pre: "scan_attrs pre ?es0 st = (Inr ?es1, st1)" by blast
  from w have "t \<in> type ` set ?es0" by (simp only: type_set_initial wanted_def)
  with dup have "is_present ?es1 t" by (simp add: is_present_fold_mark)
  then obtain e where "find (\<lambda>e. type e = t) ?es1 = Some e" "present e"
    by (auto simp: is_present_def split: option.splits)
  then have "scan_entry ?es1 t d st1 = (Inl EALREADY, st1)"
    by (simp add: scan_entry_find)
  then have "scan_attrs ((t, d) # post) ?es1 st1 = (Inl EALREADY, st1)" by simp
  with pre have "scan_attrs (pre @ (t, d) # post) ?es0 st = (Inl EALREADY, st1)"
    by (simp add: scan_attrs_append)
  then show ?thesis by (simp add: parse_supported [OF sup])
qed

lemma parse_rejected:
  assumes sup: "all_supported (requested args)"
    and cl: "clean (requested args) pre"
    and w: "wanted (requested args) t"
    and new: "t \<notin> fst ` set pre"
    and rej: "\<not> decoder_accepts t d"
  shows "fst (nl80211_parse_attrs (Some (pre @ (t, d) # post)) args st) = Inl EINVAL"
proof -
  let ?es0 = "map entry_of (requested args)"
  let ?es1 = "fold mark (map fst pre) ?es0"
  from scan_clean_initial [OF sup cl] obtain st1 where
    pre: "scan_attrs pre ?es0 st = (Inr ?es1, st1)" by blast
  from w have "t \<in> type ` set ?es0" by (simp only: type_set_initial wanted_def)
  then have "t \<in> type ` set ?es1" by (simp only: type_set_fold_mark)
  then obtain e where e: "find (\<lambda>e. type e = t) ?es1 = Some e"
    by (cases "find (\<lambda>e. type e = t) ?es1") (auto simp: find_None_iff)
  from new have "\<not> is_present ?es1 t"
    by (simp add: is_present_fold_mark not_present_initial)
  with e have np: "\<not> present e" by (simp add: is_present_def)
  from e have "e \<in> set ?es1" "type e = t" by (auto dest: find_type_Some)
  moreover have "wf_entries ?es1"
    using wf_entries_initial [OF sup] by (rule wf_entries_fold_mark)
  ultimately have "handler_for_type t = Some (handler e)" by (auto simp: wf_entries_def)
  with rej have "\<not> payload_ok (handler e) d" by (simp add: decoder_accepts_def)
  then have "call_handler (handler e) d (data e) st1 = None"
    by (simp add: call_handler_None_iff)
  with e np have "scan_entry ?es1 t d st1 = (Inl EINVAL, st1)"
    by (simp add: scan_entry_find)
  then have "scan_attrs ((t, d) # post) ?es1 st1 = (Inl EINVAL, st1)" by simp
  with pre have "scan_attrs (pre @ (t, d) # post) ?es0 st = (Inl EINVAL, st1)"
    by (simp add: scan_attrs_append)
  then show ?thesis by (simp add: parse_supported [OF sup])
qed

lemma parse_missing:
  assumes sup: "all_supported (requested args)"
    and cl: "clean (requested args) attrs"
    and a: "a \<in> set (requested args)" "\<not> is_flag (fst a)" "fst a \<notin> fst ` set attrs"
  shows "fst (nl80211_parse_attrs (Some attrs) args st) = Inl ENOENT"
proof -
  let ?es0 = "map entry_of (requested args)"
  let ?es1 = "fold mark (map fst attrs) ?es0"
  from scan_clean_initial [OF sup cl] obtain st1 where
    sc: "scan_attrs attrs ?es0 st = (Inr ?es1, st1)" by blast
  from a(1) have "fst a \<in> type ` set ?es0" by (simp only: type_set_initial) force
  then have "fst a \<in> type ` set ?es1" by (simp only: type_set_fold_mark)
  then obtain e where e: "find (\<lambda>e. type e = fst a) ?es1 = Some e"
    by (cases "find (\<lambda>e. type e = fst a) ?es1") (auto simp: find_None_iff)
  from a(3) have "\<not> is_present ?es1 (fst a)"
    by (simp add: is_present_fold_mark not_present_initial)
  with e have np: "\<not> present e" by (simp add: is_present_def)
  from e have mem: "e \<in> set ?es1" "type e = fst a" by (auto dest: find_type_Some)
  moreover have "wf_entries ?es1"
    using wf_entries_initial [OF sup] by (rule wf_entries_fold_mark)
  ultimately have "handler_for_type (fst a) = Some (handler e)" by (auto simp: wf_entries_def)
  with a(2) have "handler e \<noteq> Extract_flag" by (auto simp: is_flag_def)
  with np mem(1) have "fst (check_entries ?es1 st1) = Inl ENOENT"
    by (auto simp: check_entries_result)
  with sc show ?thesis by (simp add: parse_supported [OF sup])
qed

lemma parse_complete:
  assumes sup: "all_supported (requested args)"
    and cl: "clean (requested args) attrs"
    and dt: "distinct (map fst (requested args))"
    and dl: "distinct (map snd (requested args))"
    and all: "\<forall>a \<in> set (requested args). \<not> is_flag (fst a) \<longrightarrow> fst a \<in> fst ` set attrs"
  shows "fst (nl80211_parse_attrs (Some attrs) args st) = Inr () \<and>
         (\<forall>a \<in> set (requested args). is_flag (fst a) \<longrightarrow>
            snd (nl80211_parse_attrs (Some attrs) args st) (snd a) =
              Some (Out_flag (fst a \<in> fst ` set attrs)))"
proof -
  let ?req = "requested args"
  let ?es0 = "map entry_of ?req"
  let ?es1 = "fold mark (map fst attrs) ?es0"
  from scan_clean_initial [OF sup cl] obtain st1 where
    sc: "scan_attrs attrs ?es0 st = (Inr ?es1, st1)" by blast
  have wf: "wf_entries ?es1"
    using wf_entries_initial [OF sup] by (rule wf_entries_fold_mark)
  have types: "map type ?es1 = map fst ?req"
    by (simp add: map_type_fold_mark entry_of_def comp_def)
  have datas: "map data ?es1 = map snd ?req"
    by (simp add: map_data_fold_mark entry_of_def comp_def)
  have pres: "present e = (type e \<in> fst ` set attrs)" if "e \<in> set ?es1" for e
  proof -
    from dt types have "distinct (map type ?es1)" by simp
    from find_distinct_type [OF this that]
    have "is_present ?es1 (type e) = present e" by (simp add: is_present_def)
    moreover have "type e \<in> type ` set ?es0"
      using that type_set_fold_mark [of "map fst attrs" ?es0] by blast
    ultimately show ?thesis by (simp add: is_present_fold_mark not_present_initial)
  qed
  have req_type: "type e \<in> fst ` set ?req" if "e \<in> set ?es1" for e
  proof -
    from that have "type e \<in> set (map type ?es1)" by simp
    then show ?thesis by (simp only: types) simp
  qed
  have ok: "fst (check_entries ?es1 st1) = Inr ()"
  proof -
    have "present e" if "e \<in> set ?es1" "handler e \<noteq> Extract_flag" for e
    proof -
      from wf that(1) have h: "handler_for_type (type e) = Some (handler e)"
        by (auto simp: wf_entries_def)
      with that(2) have "\<not> is_flag (type e)" by (simp add: is_flag_def)
      moreover from req_type [OF that(1)] obtain a where "a \<in> set ?req" "fst a = type e"
        by force
      ultimately have "type e \<in> fst ` set attrs" using all by metis
      with pres [OF that(1)] show ?thesis by simp
    qed
    then show ?thesis by (auto simp: check_entries_result)
  qed
  have res: "nl80211_parse_attrs (Some attrs) args st = check_entries ?es1 st1"
    using sc by (simp add: parse_supported [OF sup])
  have flags: "snd (check_entries ?es1 st1) (snd a) = Some (Out_flag (fst a \<in> fst ` set attrs))"
    if a: "a \<in> set ?req" "is_flag (fst a)" for a
  proof -
    from a(1) obtain i where i: "i < length ?req" "?req ! i = a"
      by (auto simp: in_set_conv_nth)
    define e where "e = ?es1 ! i"
    have len: "length ?es1 = length ?req" using types by (metis length_map)
    with i have mem: "e \<in> set ?es1" by (simp add: e_def)
    have "type e = map type ?es1 ! i" using i len by (simp add: e_def)
    then have te: "type e = fst a" using i by (simp only: types) simp
    have "data e = map data ?es1 ! i" using i len by (simp add: e_def)
    then have de: "data e = snd a" using i by (simp only: datas) simp
    from wf mem have "handler_for_type (type e) = Some (handler e)"
      by (auto simp: wf_entries_def)
    with a(2) te have he: "handler e = Extract_flag" by (simp add: is_flag_def)
    from dl datas have "distinct (map data ?es1)" by simp
    from check_entries_flags [OF this ok mem he] pres [OF mem] te de
    show ?thesis by simp
  qed
  from ok flags show ?thesis by (simp only: res) blast
qed

lemma scan_entry_errors:
  "fst (scan_entry es t d st) = Inl err \<Longrightarrow> err = EALREADY \<or> err = EINVAL"
  by (induction es) (auto split: if_splits option.splits prod.splits sum.splits)

lemma scan_attrs_errors:
  "fst (scan_attrs attrs es st) = Inl err \<Longrightarrow> err = EALREADY \<or> err = EINVAL"
proof (induction attrs es st rule: scan_attrs.induct)
  case (1 es st)
  then show ?case by simp
next
  case (2 t d attrs es st)
  show ?case
  proof (cases "scan_entry es t d st")
    case (Pair r st')
    show ?thesis
    proof (cases r)
      case (Inl e)
      with Pair 2(2) have "fst (scan_entry es t d st) = Inl err" by simp
      then show ?thesis by (rule scan_entry_errors)
    next
      case (Inr es')
      with Pair 2 show ?thesis by simp
    qed
  qed
qed

lemma check_entries_errors: "fst (check_entries es st) = Inl err \<Longrightarrow> err = ENOENT"
  by (simp add: check_entries_result split: if_splits)

text \<open>
  C6, as stated, has every attribute identifier that occurs twice in the message yield
  \<^verbatim>\<open>-EALREADY\<close>. The parser skips attributes that were not requested: with
  \<^verbatim>\<open>NL80211_ATTR_WIPHY\<close> twice in the message and only \<^verbatim>\<open>NL80211_ATTR_IFINDEX\<close> requested
  the call succeeds.
\<close>

theorem nl80211_parse_attrs_duplicate_counterexample:
  "fst (nl80211_parse_attrs
          (Some [(NL80211_ATTR_WIPHY, [1, 0, 0, 0]), (NL80211_ATTR_WIPHY, [1, 0, 0, 0]),
                 (NL80211_ATTR_IFINDEX, [7, 0, 0, 0])])
          [(NL80211_ATTR_IFINDEX, 0)] Map.empty) = Inr () \<and>
   fst (nl80211_parse_attrs
          (Some [(NL80211_ATTR_WIPHY, [1, 0, 0, 0]), (NL80211_ATTR_WIPHY, [1, 0, 0, 0]),
                 (NL80211_ATTR_IFINDEX, [7, 0, 0, 0])])
          [(NL80211_ATTR_IFINDEX, 0)] Map.empty) \<noteq> Inl EALREADY"
  by (simp add: nl80211_parse_attrs_def extract_ifindex_def l_get_u32_def l_get_le_def)

text \<open>
  C6, amended: the four errors in the order the parser reaches them, for a message
  that \<^verbatim>\<open>l_genl_attr_init\<close> accepts.
  (1) A requested identifier with no decoder yields \<^verbatim>\<open>-ENOSYS\<close>, whatever the message.
  With every requested identifier supported:
  (2) a second occurrence of a requested identifier yields \<^verbatim>\<open>-EALREADY\<close> and
  (3) the first occurrence of a requested identifier whose decoder rejects the payload
  (an ifindex of 0, a wrong length) yields \<^verbatim>\<open>-EINVAL\<close>, in both cases when the
  attributes before it are clean (no requested identifier twice, none rejected);
  attributes that were not requested are skipped, duplicated or not;
  (4) after a clean message, a requested identifier that is not flag-typed and does
  not occur in the message yields \<^verbatim>\<open>-ENOENT\<close>;
  (5) after a clean message in which every requested identifier that is not
  flag-typed occurs, a request with distinct identifiers and distinct output
  locations succeeds, and each flag-typed output holds whether its identifier
  occurred: \<open>False\<close> for an absent flag, which is no failure.
\<close>

theorem nl80211_parse_attrs_errors:
  "(\<not> all_supported (requested args) \<longrightarrow>
      fst (nl80211_parse_attrs (Some attrs) args st) = Inl ENOSYS) \<and>
   (all_supported (requested args) \<and> clean (requested args) pre \<and>
    wanted (requested args) t \<and> t \<in> fst ` set pre \<longrightarrow>
      fst (nl80211_parse_attrs (Some (pre @ (t, d) # post)) args st) = Inl EALREADY) \<and>
   (all_supported (requested args) \<and> clean (requested args) pre \<and>
    wanted (requested args) t \<and> t \<notin> fst ` set pre \<and> \<not> decoder_accepts t d \<longrightarrow>
      fst (nl80211_parse_attrs (Some (pre @ (t, d) # post)) args st) = Inl EINVAL) \<and>
   (all_supported (requested args) \<and> clean (requested args) attrs \<and>
    (\<exists>a \<in> set (requested args). \<not> is_flag (fst a) \<and> fst a \<notin> fst ` set attrs) \<longrightarrow>
      fst (nl80211_parse_attrs (Some attrs) args st) = Inl ENOENT) \<and>
   (all_supported (requested args) \<and> clean (requested args) attrs \<and>
    distinct (map fst (requested args)) \<and> distinct (map snd (requested args)) \<and>
    (\<forall>a \<in> set (requested args). \<not> is_flag (fst a) \<longrightarrow> fst a \<in> fst ` set attrs) \<longrightarrow>
      fst (nl80211_parse_attrs (Some attrs) args st) = Inr () \<and>
      (\<forall>a \<in> set (requested args). is_flag (fst a) \<longrightarrow>
         snd (nl80211_parse_attrs (Some attrs) args st) (snd a) =
           Some (Out_flag (fst a \<in> fst ` set attrs))))"
proof (intro conjI impI)
  assume "\<not> all_supported (requested args)"
  then show "fst (nl80211_parse_attrs (Some attrs) args st) = Inl ENOSYS"
    by (simp add: parse_unsupported)
next
  assume "all_supported (requested args) \<and> clean (requested args) pre \<and>
    wanted (requested args) t \<and> t \<in> fst ` set pre"
  then show "fst (nl80211_parse_attrs (Some (pre @ (t, d) # post)) args st) = Inl EALREADY"
    by (simp add: parse_duplicate)
next
  assume "all_supported (requested args) \<and> clean (requested args) pre \<and>
    wanted (requested args) t \<and> t \<notin> fst ` set pre \<and> \<not> decoder_accepts t d"
  then show "fst (nl80211_parse_attrs (Some (pre @ (t, d) # post)) args st) = Inl EINVAL"
    by (simp add: parse_rejected)
next
  assume "all_supported (requested args) \<and> clean (requested args) attrs \<and>
    (\<exists>a \<in> set (requested args). \<not> is_flag (fst a) \<and> fst a \<notin> fst ` set attrs)"
  then show "fst (nl80211_parse_attrs (Some attrs) args st) = Inl ENOENT"
    using parse_missing [of args attrs] by blast
next
  assume a: "all_supported (requested args) \<and> clean (requested args) attrs \<and>
    distinct (map fst (requested args)) \<and> distinct (map snd (requested args)) \<and>
    (\<forall>a \<in> set (requested args). \<not> is_flag (fst a) \<longrightarrow> fst a \<in> fst ` set attrs)"
  then have c: "fst (nl80211_parse_attrs (Some attrs) args st) = Inr () \<and>
         (\<forall>a \<in> set (requested args). is_flag (fst a) \<longrightarrow>
            snd (nl80211_parse_attrs (Some attrs) args st) (snd a) =
              Some (Out_flag (fst a \<in> fst ` set attrs)))"
    by (intro parse_complete) simp_all
  from c show "fst (nl80211_parse_attrs (Some attrs) args st) = Inr ()" by (rule conjunct1)
  from c show "\<forall>a \<in> set (requested args). is_flag (fst a) \<longrightarrow>
         snd (nl80211_parse_attrs (Some attrs) args st) (snd a) =
           Some (Out_flag (fst a \<in> fst ` set attrs))" by (rule conjunct2)
qed

theorem nl80211_parse_attrs_errors_witness:
  "fst (nl80211_parse_attrs (Some [(NL80211_ATTR_IFINDEX, [7, 0, 0, 0])])
          [(NL80211_ATTR_IFINDEX, 0), (NL80211_ATTR_OTHER 7, 1)] Map.empty) = Inl ENOSYS \<and>
   fst (nl80211_parse_attrs
          (Some ([(NL80211_ATTR_WIPHY, [1, 0, 0, 0]), (NL80211_ATTR_IFINDEX, [7, 0, 0, 0])] @
                 (NL80211_ATTR_IFINDEX, [8, 0, 0, 0]) # []))
          [(NL80211_ATTR_IFINDEX, 0)] Map.empty) = Inl EALREADY \<and>
   fst (nl80211_parse_attrs
          (Some ([(NL80211_ATTR_WIPHY, [1, 0, 0, 0])] @
                 (NL80211_ATTR_IFINDEX, [0, 0, 0, 0]) # [(NL80211_ATTR_MAC, [])]))
          [(NL80211_ATTR_IFINDEX, 0), (NL80211_ATTR_MAC, 1)] Map.empty) = Inl EINVAL \<and>
   fst (nl80211_parse_attrs (Some [(NL80211_ATTR_IFINDEX, [7, 0, 0, 0])])
          [(NL80211_ATTR_ACK, 2), (NL80211_ATTR_IFINDEX, 0), (NL80211_ATTR_WIPHY, 1)]
          Map.empty) = Inl ENOENT \<and>
   fst (nl80211_parse_attrs (Some [(NL80211_ATTR_IFINDEX, [7, 0, 0, 0])])
          [(NL80211_ATTR_ACK, 2), (NL80211_ATTR_IFINDEX, 0)] Map.empty) = Inr () \<and>
   snd (nl80211_parse_attrs (Some [(NL80211_ATTR_IFINDEX, [7, 0, 0, 0])])
          [(NL80211_ATTR_ACK, 2), (NL80211_ATTR_IFINDEX, 0)] Map.empty) 2 =
     Some (Out_flag False)"
proof -
  have u32: "l_get_u32 [7, 0, 0, 0] \<noteq> 0" "l_get_u32 [0, 0, 0, 0] = 0"
    by (simp_all add: l_get_u32_def l_get_le_def)
  have c1: "fst (nl80211_parse_attrs (Some [(NL80211_ATTR_IFINDEX, [7, 0, 0, 0])])
          [(NL80211_ATTR_IFINDEX, 0), (NL80211_ATTR_OTHER 7, 1)] Map.empty) = Inl ENOSYS"
    by (rule nl80211_parse_attrs_errors [THEN conjunct1, THEN mp])
       (simp add: requested_def all_supported_def)
  have c2: "fst (nl80211_parse_attrs
          (Some ([(NL80211_ATTR_WIPHY, [1, 0, 0, 0]), (NL80211_ATTR_IFINDEX, [7, 0, 0, 0])] @
                 (NL80211_ATTR_IFINDEX, [8, 0, 0, 0]) # []))
          [(NL80211_ATTR_IFINDEX, 0)] Map.empty) = Inl EALREADY"
    by (rule nl80211_parse_attrs_errors [THEN conjunct2, THEN conjunct1, THEN mp])
       (simp add: requested_def all_supported_def clean_def wanted_def decoder_accepts_def u32)
  have c3: "fst (nl80211_parse_attrs
          (Some ([(NL80211_ATTR_WIPHY, [1, 0, 0, 0])] @
                 (NL80211_ATTR_IFINDEX, [0, 0, 0, 0]) # [(NL80211_ATTR_MAC, [])]))
          [(NL80211_ATTR_IFINDEX, 0), (NL80211_ATTR_MAC, 1)] Map.empty) = Inl EINVAL"
    by (rule nl80211_parse_attrs_errors
          [THEN conjunct2, THEN conjunct2, THEN conjunct1, THEN mp])
       (simp add: requested_def all_supported_def clean_def wanted_def decoder_accepts_def u32)
  have c4: "fst (nl80211_parse_attrs (Some [(NL80211_ATTR_IFINDEX, [7, 0, 0, 0])])
          [(NL80211_ATTR_ACK, 2), (NL80211_ATTR_IFINDEX, 0), (NL80211_ATTR_WIPHY, 1)]
          Map.empty) = Inl ENOENT"
    by (rule nl80211_parse_attrs_errors
          [THEN conjunct2, THEN conjunct2, THEN conjunct2, THEN conjunct1, THEN mp])
       (simp add: requested_def all_supported_def clean_def wanted_def decoder_accepts_def
          is_flag_def u32)
  have c5: "fst (nl80211_parse_attrs (Some [(NL80211_ATTR_IFINDEX, [7, 0, 0, 0])])
          [(NL80211_ATTR_ACK, 2), (NL80211_ATTR_IFINDEX, 0)] Map.empty) = Inr () \<and>
     (\<forall>a \<in> set (requested [(NL80211_ATTR_ACK, 2), (NL80211_ATTR_IFINDEX, 0)]).
        is_flag (fst a) \<longrightarrow>
        snd (nl80211_parse_attrs (Some [(NL80211_ATTR_IFINDEX, [7, 0, 0, 0])])
          [(NL80211_ATTR_ACK, 2), (NL80211_ATTR_IFINDEX, 0)] Map.empty) (snd a) =
        Some (Out_flag (fst a \<in> fst ` set [(NL80211_ATTR_IFINDEX, [7, 0, 0, 0 :: u8])])))"
    by (rule nl80211_parse_attrs_errors
          [THEN conjunct2, THEN conjunct2, THEN conjunct2, THEN conjunct2, THEN mp])
       (simp add: requested_def all_supported_def clean_def wanted_def decoder_accepts_def
          is_flag_def u32)
  from c5 have c6: "snd (nl80211_parse_attrs (Some [(NL80211_ATTR_IFINDEX, [7, 0, 0, 0])])
          [(NL80211_ATTR_ACK, 2), (NL80211_ATTR_IFINDEX, 0)] Map.empty) 2 =
     Some (Out_flag False)"
    by (simp add: requested_def is_flag_def)
  from c1 c2 c3 c4 c5 c6 show ?thesis by (intro conjI) (rule c1 c2 c3 c4 c6 | simp)+
qed

text \<open>
  C7, as stated, has no output location modified whenever the parser returns an
  error. The handlers write through the caller's pointers while the message is
  scanned: with \<^verbatim>\<open>NL80211_ATTR_IFINDEX\<close> and \<^verbatim>\<open>NL80211_ATTR_WIPHY\<close> requested and only the
  first in the message, the call returns \<^verbatim>\<open>-ENOENT\<close> and the ifindex output holds 7.
\<close>

theorem nl80211_parse_attrs_partial_output_counterexample:
  "nl80211_parse_attrs (Some [(NL80211_ATTR_IFINDEX, [7, 0, 0, 0])])
     [(NL80211_ATTR_IFINDEX, 0), (NL80211_ATTR_WIPHY, 1)] Map.empty
   = (Inl ENOENT, [0 \<mapsto> Out_u32 7]) \<and>
   snd (nl80211_parse_attrs (Some [(NL80211_ATTR_IFINDEX, [7, 0, 0, 0])])
     [(NL80211_ATTR_IFINDEX, 0), (NL80211_ATTR_WIPHY, 1)] Map.empty) 0 \<noteq> Map.empty 0"
  by (simp add: nl80211_parse_attrs_def extract_ifindex_def l_get_u32_def l_get_le_def)

text \<open>
  C7, amended: when \<^verbatim>\<open>nl80211_parse_attrs\<close> fails before it scans the message, that is
  when \<^verbatim>\<open>l_genl_attr_init\<close> fails (\<^verbatim>\<open>-EINVAL\<close>) or when it returns \<^verbatim>\<open>-ENOSYS\<close>, no output
  location has been modified. (On \<^verbatim>\<open>-EALREADY\<close>, on a decoder's \<^verbatim>\<open>-EINVAL\<close> and on
  \<^verbatim>\<open>-ENOENT\<close> the outputs decoded before the failure stay written.)
\<close>

theorem nl80211_parse_attrs_early_errors_keep_outputs:
  "msg = None \<or> fst (nl80211_parse_attrs msg args st) = Inl ENOSYS \<Longrightarrow>
   snd (nl80211_parse_attrs msg args st) = st"
proof (cases msg)
  case None
  then show ?thesis by (simp add: nl80211_parse_attrs_def)
next
  case (Some attrs)
  assume "msg = None \<or> fst (nl80211_parse_attrs msg args st) = Inl ENOSYS"
  with Some have r: "fst (nl80211_parse_attrs (Some attrs) args st) = Inl ENOSYS" by simp
  show ?thesis
  proof (cases "build_entries args")
    case None
    with Some show ?thesis by (simp add: nl80211_parse_attrs_def)
  next
    case es: (Some entries)
    obtain r1 st1 where sc: "scan_attrs attrs entries st = (r1, st1)"
      by (cases "scan_attrs attrs entries st")
    show ?thesis
    proof (cases r1)
      case (Inl err)
      with sc have "fst (scan_attrs attrs entries st) = Inl err" by simp
      then have "err = EALREADY \<or> err = EINVAL" by (rule scan_attrs_errors)
      moreover from r es sc Inl have "err = ENOSYS" by (simp add: nl80211_parse_attrs_def)
      ultimately show ?thesis by auto
    next
      case (Inr entries')
      with r es sc have "fst (check_entries entries' st1) = Inl ENOSYS"
        by (simp add: nl80211_parse_attrs_def)
      then have "ENOSYS = ENOENT" by (rule check_entries_errors)
      then show ?thesis by simp
    qed
  qed
qed

theorem nl80211_parse_attrs_early_errors_keep_outputs_witness:
  "fst (nl80211_parse_attrs (Some [(NL80211_ATTR_IFINDEX, [7, 0, 0, 0])])
          [(NL80211_ATTR_IFINDEX, 0), (NL80211_ATTR_OTHER 7, 1)] [5 \<mapsto> Out_flag True])
     = Inl ENOSYS \<and>
   snd (nl80211_parse_attrs (Some [(NL80211_ATTR_IFINDEX, [7, 0, 0, 0])])
          [(NL80211_ATTR_IFINDEX, 0), (NL80211_ATTR_OTHER 7, 1)] [5 \<mapsto> Out_flag True])
     = [5 \<mapsto> Out_flag True]"
proof -
  have h: "fst (nl80211_parse_attrs (Some [(NL80211_ATTR_IFINDEX, [7, 0, 0, 0])])
          [(NL80211_ATTR_IFINDEX, 0), (NL80211_ATTR_OTHER 7, 1)] [5 \<mapsto> Out_flag True])
     = Inl ENOSYS"
    by (simp add: nl80211_parse_attrs_def)
  from h show ?thesis
    by (intro conjI nl80211_parse_attrs_early_errors_keep_outputs disjI2)
qed

section \<open>Fast BSS Transition: the pending attempts\<close>

lemma ft_parse_ies_key: "attempt_key (snd (ft_parse_ies X info hs ies)) = attempt_key info"
  by (auto simp: ft_parse_ies_def attempt_key_def Let_def split: sum.splits prod.splits bool.splits)

lemma ft_parse_ies_key_eq:
  "ft_parse_ies X info hs ies = (b, info') \<Longrightarrow> attempt_key info' = attempt_key info"
  using ft_parse_ies_key [of X info hs ies] by simp

lemma keys_list_update:
  "k < length l \<Longrightarrow> attempt_key info' = attempt_key (l ! k) \<Longrightarrow>
   map attempt_key (l[k := info']) = map attempt_key l"
  by (simp add: map_update list_update_same_conv)

lemma ft_info_find_less: "ft_info_find l i a = Some k \<Longrightarrow> k < length l"
  by (induction l arbitrary: k) (auto split: if_splits)

lemma ft_rx_authenticate_keys:
  "map attempt_key (info_list (ft_rx_authenticate X s i frame)) = map attempt_key (info_list s)"
proof (cases "ft_info_find (info_list s) i None")
  case None
  then show ?thesis by (simp add: ft_rx_authenticate_def)
next
  case (Some k)
  then have k: "k < length (info_list s)" by (rule ft_info_find_less)
  have upd: "map attempt_key ((info_list s)[k := info']) = map attempt_key (info_list s)"
    if "attempt_key info' = attempt_key (info_list s ! k)" for info'
    using k that by (rule keys_list_update)
  have a: "attempt_key (info\<lparr>status := v\<rparr>) = attempt_key info" for info v
    by (simp add: attempt_key_def)
  show ?thesis
    by (auto simp: ft_rx_authenticate_def Some Let_def upd a
             split: option.splits prod.splits bool.splits
             dest!: ft_parse_ies_key_eq)
qed

lemma ft_rx_action_keys:
  "map attempt_key (info_list (ft_rx_action X s i frame)) = map attempt_key (info_list s)"
proof (cases "ft_over_ds_parse_action_response X frame")
  case (Inl e)
  then show ?thesis by (simp add: ft_rx_action_def)
next
  case (Inr r)
  obtain ret spa' aa' ies where r: "r = (ret, spa', aa', ies)" by (cases r)
  show ?thesis
  proof (cases "ft_info_find (info_list s) i (Some aa')")
    case None
    with Inr r show ?thesis by (simp add: ft_rx_action_def)
  next
    case (Some k)
    then have k: "k < length (info_list s)" by (rule ft_info_find_less)
    have upd: "map attempt_key ((info_list s)[k := info']) = map attempt_key (info_list s)"
      if "attempt_key info' = attempt_key (info_list s ! k)" for info'
      using k that by (rule keys_list_update)
    have a: "attempt_key (info\<lparr>status := v\<rparr>) = attempt_key info" for info v
      by (simp add: attempt_key_def)
    show ?thesis
      by (auto simp: ft_rx_action_def Inr r Some Let_def upd a
               split: option.splits prod.splits bool.splits
               dest!: ft_parse_ies_key_eq)
  qed
qed

lemma distinct_map_remove_nth:
  assumes "distinct (map f l)"
  shows "distinct (map f (take k l @ drop (Suc k) l))"
proof (cases "k < length l")
  case True
  then have "l = take k l @ l ! k # drop (Suc k) l" by (rule id_take_nth_drop)
  then have "map f l = map f (take k l) @ f (l ! k) # map f (drop (Suc k) l)"
    by (metis list.simps(9) map_append)
  with assms have "distinct (map f (take k l) @ f (l ! k) # map f (drop (Suc k) l))"
    by simp
  then show ?thesis by simp
next
  case False
  with assms show ?thesis by simp
qed

lemma ft_clear_authentications_unique:
  "unique_attempts s \<Longrightarrow> unique_attempts (ft_clear_authentications s i)"
  by (simp add: unique_attempts_def ft_clear_authentications_def distinct_map_filter)

lemma ft_handshake_setup_unique:
  assumes "unique_attempts s"
  shows "unique_attempts (snd (ft_handshake_setup X s i target))"
proof (cases "ft_info_find (info_list s) i target")
  case None
  with assms show ?thesis by (simp add: ft_handshake_setup_def)
next
  case (Some k)
  show ?thesis
  proof (cases "status (info_list s ! k) \<noteq> 0")
    case True
    with Some assms show ?thesis
      by (simp add: ft_handshake_setup_def unique_attempts_def distinct_map_remove_nth
               del: map_append)
  next
    case False
    have "unique_attempts (s\<lparr>handshake := h\<rparr>)" for h
      using assms by (simp add: unique_attempts_def)
    with Some False show ?thesis
      by (simp add: ft_handshake_setup_def Let_def ft_clear_authentications_unique)
  qed
qed

lemma ft_step_unique:
  assumes "unique_attempts s" and "call_ok X s c"
  shows "unique_attempts (ft_step X s c)"
proof (cases c)
  case (Call_ft_action i freq target rnd)
  with assms show ?thesis by (simp add: ft_action_def unique_attempts_def Let_def)
next
  case Call_ft_send_action
  with assms show ?thesis
    by (auto simp: ft_send_action_def unique_attempts_def call_ok_def Let_def
             split: list.splits option.splits if_splits)
next
  case (Call_ft_authenticate i target rnd oid)
  with assms show ?thesis
    by (auto simp: ft_authenticate_def unique_attempts_def call_ok_def Let_def
          attempt_key_def ft_info_new_def)
next
  case (Call_ft_authenticate_onchannel i target rnd)
  with assms show ?thesis
    by (auto simp: ft_authenticate_onchannel_def unique_attempts_def call_ok_def Let_def
          attempt_key_def ft_info_new_def)
next
  case (Call_ft_handshake_setup i target)
  with assms show ?thesis by (simp add: ft_handshake_setup_unique)
next
  case (Call_ft_clear_authentications i)
  with assms show ?thesis by (simp add: ft_clear_authentications_unique)
next
  case (Call_ft_rx_authenticate i frame)
  with assms show ?thesis by (simp add: unique_attempts_def ft_rx_authenticate_keys)
next
  case (Call_ft_rx_action i frame)
  with assms show ?thesis by (simp add: unique_attempts_def ft_rx_action_keys)
qed

lemma ft_run_unique:
  "unique_attempts s \<Longrightarrow> calls_ok X s cs \<Longrightarrow> unique_attempts (ft_run X s cs)"
  unfolding ft_run_def
  by (induction cs arbitrary: s) (auto simp: ft_step_unique)

lemma replicate_numeral: "replicate (numeral k) x = x # replicate (pred_numeral k) x"
  by (simp add: numeral_eq_Suc)

text \<open>
  C1, as stated, has at most one pending attempt for a pair of interface index and
  target address after any sequence of calls. \<^verbatim>\<open>ft_authenticate\<close> appends to the queue
  without looking for a pending attempt: called twice for one target on interface
  1, it leaves two attempts with the same pair.
\<close>

theorem ft_authenticate_twice_counterexample:
  "map attempt_key
     (info_list
        (ft_run ext_example (ft_init (\<lambda>i. hs_open_example))
           [Call_ft_authenticate 1 target_example [] 7,
            Call_ft_authenticate 1 target_example [] 8])) =
     [(1, [0x02, 0, 0, 0, 0, 0x20]), (1, [0x02, 0, 0, 0, 0, 0x20])] \<and>
   \<not> unique_attempts
        (ft_run ext_example (ft_init (\<lambda>i. hs_open_example))
           [Call_ft_authenticate 1 target_example [] 7,
            Call_ft_authenticate 1 target_example [] 8])"
  by (simp add: ft_run_def ft_init_def ft_authenticate_def ft_info_new_def attempt_key_def
        unique_attempts_def target_example_def hs_open_example_def Let_def)

text \<open>
  C1, amended: \<^verbatim>\<open>ft.c\<close> does not enforce the invariant; it keeps it. Starting from the
  empty queue of \<^verbatim>\<open>ft_init\<close>, after any sequence of calls of \<^verbatim>\<open>ft_action\<close> (with the
  scheduler's call of \<^verbatim>\<open>ft_send_action\<close>), \<^verbatim>\<open>ft_authenticate\<close>,
  \<^verbatim>\<open>ft_authenticate_onchannel\<close>, \<^verbatim>\<open>ft_handshake_setup\<close>, \<^verbatim>\<open>ft_clear_authentications\<close>
  and of the two receive handlers, no two pending attempts have the same pair of
  interface index and target address, provided that each call that appends an
  attempt is made when no attempt with its pair is pending.
\<close>

theorem ft_unique_attempts_preserved:
  "calls_ok X (ft_init hss) cs \<Longrightarrow> unique_attempts (ft_run X (ft_init hss) cs)"
  by (rule ft_run_unique) (simp_all add: unique_attempts_def ft_init_def)

lemma mde_equal_present: "mde_equal (Some m1) (Some m2)"
  by (simp add: mde_equal_def)

lemma calls_example_states:
  "map attempt_key (info_list (ft_run ext_example (ft_init (\<lambda>i. hs_open_example))
     (take 1 calls_example))) = [(1, [0x02, 0, 0, 0, 0, 0x20])]"
  "map attempt_key (radio_work (ft_run ext_example (ft_init (\<lambda>i. hs_open_example))
     (take 2 calls_example))) = [(1, [0x02, 0, 0, 0, 0, 0x30])]"
  "map attempt_key (info_list (ft_run ext_example (ft_init (\<lambda>i. hs_open_example))
     (take 3 calls_example))) = [(1, [0x02, 0, 0, 0, 0, 0x20]), (1, [0x02, 0, 0, 0, 0, 0x30])]"
  "map status (info_list (ft_run ext_example (ft_init (\<lambda>i. hs_open_example))
     (take 3 calls_example))) = [- 2, - 2]"
  "map status (info_list (ft_run ext_example (ft_init (\<lambda>i. hs_open_example))
     (take 4 calls_example))) = [0, - 2]"
  "map status (info_list (ft_run ext_example (ft_init (\<lambda>i. hs_open_example))
     (take 5 calls_example))) = [0, 0]"
  "map attempt_key (info_list (ft_run ext_example (ft_init (\<lambda>i. hs_open_example))
     (take 5 calls_example))) = [(1, [0x02, 0, 0, 0, 0, 0x20]), (1, [0x02, 0, 0, 0, 0, 0x30])]"
  "map attempt_key (info_list (ft_run ext_example (ft_init (\<lambda>i. hs_open_example))
     (take 6 calls_example))) = []"
  "map attempt_key (info_list (ft_run ext_example (ft_init (\<lambda>i. hs_open_example))
     calls_example)) = [(1, [0x02, 0, 0, 0, 0, 0x20])]"
  by (simp_all add: calls_example_def ft_run_def ft_init_def ft_authenticate_def
        ft_authenticate_onchannel_def ft_action_def ft_send_action_def
        ft_build_authenticate_ies_def ft_info_new_def attempt_key_def
        ft_rx_authenticate_def ft_rx_action_def ft_parse_authentication_resp_frame_def
        ft_over_ds_parse_action_response_def l_get_le16_def
        ft_parse_ies_def parse_ies_def mde_equal_present ft_handshake_setup_def
        ft_prepare_handshake_def ft_clear_authentications_def
        IE_TYPE_RSN_def IE_TYPE_MOBILITY_DOMAIN_def IE_TYPE_FAST_BSS_TRANSITION_def
        target_example_def target_ds_example_def hs_open_example_def auth_resp_example_def
        action_resp_example_def ext_example_def Let_def)

theorem ft_unique_attempts_preserved_witness:
  "calls_ok ext_example (ft_init (\<lambda>i. hs_open_example)) calls_example \<and>
   unique_attempts (ft_run ext_example (ft_init (\<lambda>i. hs_open_example)) calls_example) \<and>
   map attempt_key (info_list (ft_run ext_example (ft_init (\<lambda>i. hs_open_example))
     (take 5 calls_example))) = [(1, [0x02, 0, 0, 0, 0, 0x20]), (1, [0x02, 0, 0, 0, 0, 0x30])] \<and>
   map status (info_list (ft_run ext_example (ft_init (\<lambda>i. hs_open_example))
     (take 5 calls_example))) = [0, 0]"
proof -
  have h: "calls_ok ext_example (ft_init (\<lambda>i. hs_open_example)) calls_example"
    by (simp add: calls_example_def call_ok_def ft_init_def ft_authenticate_def
        ft_authenticate_onchannel_def ft_action_def ft_send_action_def
        ft_build_authenticate_ies_def ft_info_new_def attempt_key_def
        ft_rx_authenticate_def ft_rx_action_def ft_parse_authentication_resp_frame_def
        ft_over_ds_parse_action_response_def l_get_le16_def
        ft_parse_ies_def parse_ies_def mde_equal_present ft_handshake_setup_def
        ft_prepare_handshake_def ft_clear_authentications_def
        IE_TYPE_RSN_def IE_TYPE_MOBILITY_DOMAIN_def IE_TYPE_FAST_BSS_TRANSITION_def
        target_example_def target_ds_example_def hs_open_example_def auth_resp_example_def
        action_resp_example_def ext_example_def Let_def)
  show ?thesis
    by (rule conjI [OF h conjI [OF ft_unique_attempts_preserved [OF h]
          conjI [OF calls_example_states(7) calls_example_states(6)]]])
qed

section \<open>Fast BSS Transition: the MDE of a response\<close>

text \<open>
  C3: a response whose MDE differs from the one stored on the attempt must fail
  validation. \<^verbatim>\<open>mde_equal\<close> compares its first argument with itself, so any response
  that carries an MDE passes: the attempt below holds the MDE body \<^verbatim>\<open>11 22 33\<close>, the
  response carries \<^verbatim>\<open>aa bb cc\<close>, and \<^verbatim>\<open>__ft_rx_authenticate\<close> records status 0, the mark
  of a successful authentication, in place of the initial \<^verbatim>\<open>-ENOENT\<close>.
\<close>

theorem ft_rx_authenticate_accepts_other_mde:
  "map mde (info_list
     (ft_run ext_example (ft_init (\<lambda>i. hs_open_example))
        [Call_ft_authenticate 1 target_example [] 7])) = [[0x11, 0x22, 0x33]] \<and>
   map status (info_list
     (ft_run ext_example (ft_init (\<lambda>i. hs_open_example))
        [Call_ft_authenticate 1 target_example [] 7])) = [- 2] \<and>
   map status (info_list
     (ft_run ext_example (ft_init (\<lambda>i. hs_open_example))
        [Call_ft_authenticate 1 target_example [] 7,
         Call_ft_rx_authenticate 1 auth_resp_example])) = [0]"
  by (simp add: ft_run_def ft_init_def ft_authenticate_def ft_info_new_def
        ft_rx_authenticate_def ft_parse_authentication_resp_frame_def l_get_le16_def
        ft_parse_ies_def parse_ies_def mde_equal_present
        IE_TYPE_RSN_def IE_TYPE_MOBILITY_DOMAIN_def IE_TYPE_FAST_BSS_TRANSITION_def
        target_example_def hs_open_example_def auth_resp_example_def Let_def)

section \<open>Fast BSS Transition: the MIC of the reassociation request\<close>

lemma ie_bytes_idem: "ie_bytes (ie_bytes e) = ie_bytes e"
  by (simp add: ie_bytes_def)

lemma fte_zero_mic_well_formed:
  assumes "kck_len \<le> 24" and "4 + kck_len \<le> unat (f ! 1) + 2"
  shows "fte_zero_mic kck_len f =
           take 4 (ie_bytes f) @ replicate kck_len 0 @ drop (4 + kck_len) (ie_bytes f)"
proof -
  have "take kck_len (replicate 24 (0 :: u8)) = replicate kck_len 0"
    using assms(1) by (simp add: min_def)
  moreover have "take 4 (ie_bytes f) = take 4 f"
    using assms(2) by (simp add: ie_bytes_def min_def)
  moreover have "drop (4 + kck_len) (ie_bytes f) =
      take (unat (f ! 1) + 2 - 4 - kck_len) (drop (4 + kck_len) f)"
    by (simp add: ie_bytes_def drop_take)
  ultimately show ?thesis by (simp add: fte_zero_mic_def)
qed

lemma ft_calculate_fte_mic_data:
  "ft_calculate_fte_mic X hs seq_num (Some rsne) (Some f) None =
     map_option (take (hs_kck_len hs))
       ((if hs_kck_len hs = 16 then l_checksum_cmac_aes X else l_checksum_hmac_sha384 X)
          (take (hs_kck_len hs) (hs_kck hs)) (fte_mic_data hs seq_num (ie_bytes rsne) f))"
  by (simp add: ft_calculate_fte_mic_def fte_mic_data_def fte_zero_mic_def ie_bytes_def Let_def
           split: option.splits)

lemma ft_calculate_fte_mic_cong:
  "hs_spa hs = hs_spa hs' \<Longrightarrow> hs_aa hs = hs_aa hs' \<Longrightarrow> hs_mde hs = hs_mde hs' \<Longrightarrow>
   hs_kck hs = hs_kck hs' \<Longrightarrow> hs_kck_len hs = hs_kck_len hs' \<Longrightarrow>
   ft_calculate_fte_mic X hs seq_num rsne f ric = ft_calculate_fte_mic X hs' seq_num rsne f ric"
  by (simp add: ft_calculate_fte_mic_def)

lemma ft_target_state_fields:
  "hs_chandef (ft_target_state X info hs) = None"
  "hs_kck_len (ft_target_state X info hs) = hs_kck_len hs"
  "hs_supplicant_ie (ft_target_state X info hs) = hs_supplicant_ie hs"
  "hs_spa (ft_target_state X info hs) = hs_spa hs"
  by (simp_all add: ft_target_state_def Let_def split: option.splits)

lemma ft_prepare_handshake_rsn:
  assumes "hs_supplicant_ie hs = Some sie"
    and "ie_parse_rsne_from_data X (ie_bytes sie) = Some rsn_info"
    and "rsne = ie_build_rsne X
           (rsn_info\<lparr>num_pmkids := 1,
                      pmkids := hs_pmk_r1_name (ft_target_state X info hs), ocvc := False\<rparr>)"
    and "hs5 = (ft_target_state X info hs)\<lparr>hs_supplicant_ie := Some (ie_bytes rsne)\<rparr>"
    and "fte0 = ie_build_fast_bss_transition X (reassoc_ft_info hs5) (hs_kck_len hs)"
  shows "ft_prepare_handshake X info hs =
           (case ft_calculate_fte_mic X hs5 5 (Some rsne) (Some fte0) None of
              None \<Rightarrow> (False, hs5)
            | Some m \<Rightarrow>
                (True, hs5\<lparr>hs_supplicant_fte :=
                   Some (ie_bytes (ie_build_fast_bss_transition X
                     ((reassoc_ft_info hs5)\<lparr>ft_mic := m @ drop (length m) (replicate 24 0)\<rparr>)
                     (hs_kck_len hs)))\<rparr>))"
  using assms(1,2) unfolding assms(3,4,5)
  by (cases "authenticator_ie info")
     (simp_all add: ft_prepare_handshake_def ft_target_state_def Let_def reassoc_ft_info_def
        zero_ft_info_def
      split: option.splits)

text \<open>
  C2, amended: when \<^verbatim>\<open>ft_prepare_handshake\<close> succeeds for a handshake state with a
  supplicant RSNE, the FTE it stores for the reassociation request is built from
  an \<^verbatim>\<open>ie_ft_info\<close> with MIC element count 3 whose MIC is the first \<open>kck_len\<close> bytes of
  the MAC, under the KCK, of the concatenation SPA, AA, sequence number, RSNE (the
  rebuilt supplicant RSNE), MDE and the FTE with the MIC field zeroed. The sequence
  number is the single byte 5 (the reassociation request is the third message of
  the FT exchange), not 6. The MAC is AES-128-CMAC when the KCK length is 16 and
  HMAC-SHA384 otherwise, in particular when it is 24.
\<close>

theorem ft_prepare_handshake_fte_mic:
  assumes ok: "ft_prepare_handshake X info hs = (True, hs')"
    and rsn: "hs_supplicant_ie hs \<noteq> None"
  shows "\<exists>rsne m.
           hs_supplicant_ie hs' = Some rsne \<and>
           ft_mic_element_count (reassoc_ft_info hs') = 3 \<and>
           map_option (take (hs_kck_len hs'))
             ((if hs_kck_len hs' = 16 then l_checksum_cmac_aes X else l_checksum_hmac_sha384 X)
                (take (hs_kck_len hs') (hs_kck hs'))
                (fte_mic_data hs' 5 rsne
                   (ie_build_fast_bss_transition X (reassoc_ft_info hs') (hs_kck_len hs'))))
             = Some m \<and>
           hs_supplicant_fte hs' =
             Some (ie_bytes (ie_build_fast_bss_transition X
               ((reassoc_ft_info hs')\<lparr>ft_mic := m @ drop (length m) (replicate 24 0)\<rparr>)
               (hs_kck_len hs')))"
proof -
  from rsn obtain sie where sie: "hs_supplicant_ie hs = Some sie" by auto
  define kl where "kl = hs_kck_len hs"
  show ?thesis
  proof (cases "ie_parse_rsne_from_data X (ie_bytes sie)")
    case None
    with ok sie show ?thesis
      by (simp add: ft_prepare_handshake_def Let_def)
  next
    case (Some rsn_info)
    define rsne where "rsne = ie_build_rsne X
        (rsn_info\<lparr>num_pmkids := 1,
                   pmkids := hs_pmk_r1_name (ft_target_state X info hs), ocvc := False\<rparr>)"
    define hs5 where "hs5 = (ft_target_state X info hs)\<lparr>hs_supplicant_ie := Some (ie_bytes rsne)\<rparr>"
    define ft1 where "ft1 = reassoc_ft_info hs5"
    define fte0 where "fte0 = ie_build_fast_bss_transition X ft1 kl"
    have hs5_kl: "hs_kck_len hs5 = kl"
      by (simp add: hs5_def kl_def ft_target_state_fields)
    have unfold: "ft_prepare_handshake X info hs =
        (case ft_calculate_fte_mic X hs5 5 (Some rsne) (Some fte0) None of
           None \<Rightarrow> (False, hs5)
         | Some m \<Rightarrow>
             (True, hs5\<lparr>hs_supplicant_fte := Some (ie_bytes (ie_build_fast_bss_transition X
                (ft1\<lparr>ft_mic := m @ drop (length m) (replicate 24 0)\<rparr>) kl))\<rparr>))"
      unfolding ft1_def kl_def
      by (rule ft_prepare_handshake_rsn [OF sie Some rsne_def hs5_def])
         (simp add: fte0_def ft1_def kl_def)
    show ?thesis
    proof (cases "ft_calculate_fte_mic X hs5 5 (Some rsne) (Some fte0) None")
      case None
      with ok unfold show ?thesis by simp
    next
      case m: (Some m)
      with ok unfold have hs': "hs' = hs5\<lparr>hs_supplicant_fte :=
          Some (ie_bytes (ie_build_fast_bss_transition X
            (ft1\<lparr>ft_mic := m @ drop (length m) (replicate 24 0)\<rparr>) kl))\<rparr>"
        by simp
      have r: "reassoc_ft_info hs' = ft1" by (simp add: hs' ft1_def reassoc_ft_info_def)
      have kl': "hs_kck_len hs' = kl" by (simp add: hs' hs5_kl)
      have sup: "hs_supplicant_ie hs' = Some (ie_bytes rsne)" by (simp add: hs' hs5_def)
      have "ft_calculate_fte_mic X hs' 5 (Some rsne) (Some fte0) None = Some m"
        using m by (simp add: hs' ft_calculate_fte_mic_def)
      then have mac: "map_option (take kl)
             ((if kl = 16 then l_checksum_cmac_aes X else l_checksum_hmac_sha384 X)
                (take kl (hs_kck hs')) (fte_mic_data hs' 5 (ie_bytes rsne) fte0)) = Some m"
        by (simp only: ft_calculate_fte_mic_data kl')
      have cnt: "ft_mic_element_count ft1 = 3"
        by (simp add: ft1_def reassoc_ft_info_def)
      have fin: "hs_supplicant_fte hs' = Some (ie_bytes (ie_build_fast_bss_transition X
            (ft1\<lparr>ft_mic := m @ drop (length m) (replicate 24 0)\<rparr>) kl))"
        by (simp add: hs')
      show ?thesis
        apply (rule exI [of _ "ie_bytes rsne"])
        apply (rule exI [of _ m])
        apply (simp only: r kl')
        apply (intro conjI sup cnt fin)
        apply (rule mac [unfolded fte0_def])
        done
    qed
  qed
qed

lemma ext_example_fields:
  "ie_parse_rsne_from_data ext_example = parse_rsne_example"
  "ie_build_rsne ext_example = build_rsne_example"
  "ie_build_fast_bss_transition ext_example = build_fte_example"
  "handshake_state_derive_ptk ext_example = (\<lambda>hs. (hs_pmk_r1_name hs, hs_kck hs))"
  "l_checksum_cmac_aes ext_example = (\<lambda>k d. Some d)"
  "l_checksum_hmac_sha384 ext_example = (\<lambda>k d. Some d)"
  by (simp_all add: ext_example_def)

lemma target_state_example: "ft_target_state ext_example info_rsn_example hs_rsn_example =
   hs_rsn_example
        \<lparr>hs_aa := [0x02, 0, 0, 0, 0, 0x20],
         hs_snonce := replicate 32 0x53,
         hs_anonce := replicate 32 0x41,
         hs_r1khid := [0x02, 0, 0, 0, 0, 0x20]\<rparr>"
  by (simp add: ft_target_state_def Let_def ext_example_fields info_rsn_example_def
        hs_rsn_example_def zero_ft_info_def)

lemma parse_rsne_example_value: "ie_parse_rsne_from_data ext_example (ie_bytes ([48, 20, 1, 0] @ [0x00, 0x0f, 0xac, 4] @ [1, 0] @ [0x00, 0x0f, 0xac, 4] @
              [1, 0] @ [0x00, 0x0f, 0xac, 4] @ [0, 0])) = Some \<lparr>num_pmkids = 0, pmkids = [], ocvc = False, rsn_others = [1, 0, 0x00, 0x0f, 0xac, 4, 1, 0, 0x00, 0x0f, 0xac, 4, 1, 0, 0x00, 0x0f, 0xac, 4, 0, 0]\<rparr>"
  by (simp add: parse_rsne_example_def ie_bytes_def ext_example_fields)

lemma target_state_example_pmk: "hs_pmk_r1_name (ft_target_state ext_example info_rsn_example hs_rsn_example) = replicate 16 0xa1"
  by (subst target_state_example) (simp add: hs_rsn_example_def)

lemma reassoc_rsne_example: "ie_build_rsne ext_example
     (\<lparr>num_pmkids = 0, pmkids = [], ocvc = False, rsn_others = [1, 0, 0x00, 0x0f, 0xac, 4, 1, 0, 0x00, 0x0f, 0xac, 4, 1, 0, 0x00, 0x0f, 0xac, 4, 0, 0]\<rparr>
       \<lparr>num_pmkids := 1, pmkids := hs_pmk_r1_name (ft_target_state ext_example info_rsn_example hs_rsn_example), ocvc := False\<rparr>)
  = [48, 38, 1, 0] @ [0x00, 0x0f, 0xac, 4] @ [1, 0] @ [0x00, 0x0f, 0xac, 4] @
                 [1, 0] @ [0x00, 0x0f, 0xac, 4] @ [0, 0] @ [1, 0] @ replicate 16 0xa1"
  by (simp add: target_state_example_pmk ext_example_fields build_rsne_example_def replicate_numeral)

lemma reassoc_ft_info_example: "reassoc_ft_info ((ft_target_state ext_example info_rsn_example hs_rsn_example)\<lparr>hs_supplicant_ie := x\<rparr>) =
   zero_ft_info
       \<lparr>ft_mic_element_count := 3,
        ft_r0khid := [0x72, 0x30],
        ft_r1khid := [0x02, 0, 0, 0, 0, 0x20],
        ft_r1khid_present := True,
        ft_anonce := replicate 32 0x41,
        ft_snonce := replicate 32 0x53\<rparr>"
  by (subst target_state_example) (simp add: reassoc_ft_info_def hs_rsn_example_def)

lemma reassoc_fte_example: "ie_build_fast_bss_transition ext_example (zero_ft_info
       \<lparr>ft_mic_element_count := 3,
        ft_r0khid := [0x72, 0x30],
        ft_r1khid := [0x02, 0, 0, 0, 0, 0x20],
        ft_r1khid_present := True,
        ft_anonce := replicate 32 0x41,
        ft_snonce := replicate 32 0x53\<rparr>) 16 = [55, 94, 0, 3] @ replicate 16 0 @ replicate 32 0x41 @ replicate 32 0x53 @
                 [1, 6, 0x02, 0, 0, 0, 0, 0x20] @ [3, 2, 0x72, 0x30]"
  by (simp add: ext_example_fields build_fte_example_def zero_ft_info_def replicate_numeral Let_def)

lemma reassoc_mic_example: "ft_calculate_fte_mic ext_example
     ((ft_target_state ext_example info_rsn_example hs_rsn_example)\<lparr>hs_supplicant_ie := x\<rparr>) 5
     (Some ([48, 38, 1, 0] @ r)) (Some ([55, 94, 0, 3] @ f)) None =
   Some ([0x02, 0, 0, 0, 0, 0x10] @ [0x02, 0, 0, 0, 0, 0x20] @ [5] @ [48, 38, 1])"
  by (subst target_state_example) (simp add: ft_calculate_fte_mic_def Let_def ext_example_fields hs_rsn_example_def)

lemma hs_rsn_example_fields:
  "hs_supplicant_ie hs_rsn_example =
     Some ([48, 20, 1, 0] @ [0x00, 0x0f, 0xac, 4] @ [1, 0] @ [0x00, 0x0f, 0xac, 4] @
           [1, 0] @ [0x00, 0x0f, 0xac, 4] @ [0, 0])"
  "hs_kck_len hs_rsn_example = 16"
  by (simp_all add: hs_rsn_example_def)

lemma ft_prepare_handshake_example:
  "fst (ft_prepare_handshake ext_example info_rsn_example hs_rsn_example) \<and>
   map_option (take 16 \<circ> drop 4)
     (hs_supplicant_fte (snd (ft_prepare_handshake ext_example info_rsn_example hs_rsn_example)))
     = Some ([0x02, 0, 0, 0, 0, 0x10] @ [0x02, 0, 0, 0, 0, 0x20] @ [5] @ [48, 38, 1])"
proof -
  have len: "length ([0x02, 0, 0, 0, 0, 0x10] @ [0x02, 0, 0, 0, 0, 0x20] @ [5] @ [48, 38, 1 :: u8]) = 16"
    by simp
  have "ft_prepare_handshake ext_example info_rsn_example hs_rsn_example =
      (True,
       (ft_target_state ext_example info_rsn_example hs_rsn_example)
         \<lparr>hs_supplicant_ie := Some (ie_bytes ([48, 38, 1, 0] @ [0x00, 0x0f, 0xac, 4] @ [1, 0] @
             [0x00, 0x0f, 0xac, 4] @ [1, 0] @ [0x00, 0x0f, 0xac, 4] @ [0, 0] @ [1, 0] @
             replicate 16 0xa1)),
          hs_supplicant_fte := Some (ie_bytes (ie_build_fast_bss_transition ext_example
            (zero_ft_info
               \<lparr>ft_mic_element_count := 3,
                ft_r0khid := [0x72, 0x30],
                ft_r1khid := [0x02, 0, 0, 0, 0, 0x20],
                ft_r1khid_present := True,
                ft_anonce := replicate 32 0x41,
                ft_snonce := replicate 32 0x53,
                ft_mic := ([0x02, 0, 0, 0, 0, 0x10] @ [0x02, 0, 0, 0, 0, 0x20] @ [5] @
                           [48, 38, 1]) @ drop 16 (replicate 24 0)\<rparr>) 16))\<rparr>)"
    by (simp only: ft_prepare_handshake_rsn [OF hs_rsn_example_fields(1) parse_rsne_example_value refl refl refl]
          reassoc_rsne_example reassoc_ft_info_example reassoc_fte_example reassoc_mic_example hs_rsn_example_fields(2) option.case len)
  then show ?thesis
    by (simp only: fst_conv snd_conv)
       (simp add: ext_example_fields build_fte_example_def zero_ft_info_def ie_bytes_def
          replicate_numeral Let_def)
qed

text \<open>
  C2, as stated, has the sequence number byte 6 under the MIC of the reassociation
  request. \<^verbatim>\<open>ft_prepare_handshake\<close> passes 5 to \<^verbatim>\<open>ft_calculate_fte_mic\<close> (6 is the number
  of the response, which \<^verbatim>\<open>__ft_rx_associate\<close> verifies). With the stand-in checksum
  that returns its input, the 16 byte MIC field of the FTE stored for the request
  shows the first 16 authenticated bytes: SPA, AA, then 5, then the start of the
  RSNE.
\<close>

theorem ft_prepare_handshake_seq_counterexample:
  "fst (ft_prepare_handshake ext_example info_rsn_example hs_rsn_example) \<and>
   map_option (take 16 \<circ> drop 4)
     (hs_supplicant_fte (snd (ft_prepare_handshake ext_example info_rsn_example hs_rsn_example)))
     = Some ([0x02, 0, 0, 0, 0, 0x10] @ [0x02, 0, 0, 0, 0, 0x20] @ [5] @ [48, 38, 1]) \<and>
   map_option (take 16 \<circ> drop 4)
     (hs_supplicant_fte (snd (ft_prepare_handshake ext_example info_rsn_example hs_rsn_example)))
     \<noteq> Some ([0x02, 0, 0, 0, 0, 0x10] @ [0x02, 0, 0, 0, 0, 0x20] @ [6] @ [48, 38, 1])"
  using ft_prepare_handshake_example by auto

theorem ft_prepare_handshake_fte_mic_witness:
  "ft_prepare_handshake ext_example info_rsn_example hs_rsn_example =
     (True, snd (ft_prepare_handshake ext_example info_rsn_example hs_rsn_example)) \<and>
   hs_supplicant_ie hs_rsn_example \<noteq> None \<and>
   (\<exists>rsne m.
      hs_supplicant_ie (snd (ft_prepare_handshake ext_example info_rsn_example hs_rsn_example))
        = Some rsne \<and>
      ft_mic_element_count (reassoc_ft_info
        (snd (ft_prepare_handshake ext_example info_rsn_example hs_rsn_example))) = 3 \<and>
      map_option
        (take (hs_kck_len (snd (ft_prepare_handshake ext_example info_rsn_example hs_rsn_example))))
        ((if hs_kck_len (snd (ft_prepare_handshake ext_example info_rsn_example hs_rsn_example)) = 16
          then l_checksum_cmac_aes ext_example else l_checksum_hmac_sha384 ext_example)
           (take (hs_kck_len (snd (ft_prepare_handshake ext_example info_rsn_example hs_rsn_example)))
              (hs_kck (snd (ft_prepare_handshake ext_example info_rsn_example hs_rsn_example))))
           (fte_mic_data (snd (ft_prepare_handshake ext_example info_rsn_example hs_rsn_example))
              5 rsne
              (ie_build_fast_bss_transition ext_example
                 (reassoc_ft_info
                    (snd (ft_prepare_handshake ext_example info_rsn_example hs_rsn_example)))
                 (hs_kck_len
                    (snd (ft_prepare_handshake ext_example info_rsn_example hs_rsn_example))))))
        = Some m \<and>
      hs_supplicant_fte (snd (ft_prepare_handshake ext_example info_rsn_example hs_rsn_example)) =
        Some (ie_bytes (ie_build_fast_bss_transition ext_example
          ((reassoc_ft_info
              (snd (ft_prepare_handshake ext_example info_rsn_example hs_rsn_example)))
             \<lparr>ft_mic := m @ drop (length m) (replicate 24 0)\<rparr>)
          (hs_kck_len (snd (ft_prepare_handshake ext_example info_rsn_example hs_rsn_example))))))"
proof -
  have h1: "ft_prepare_handshake ext_example info_rsn_example hs_rsn_example =
     (True, snd (ft_prepare_handshake ext_example info_rsn_example hs_rsn_example))"
    using ft_prepare_handshake_example by (simp add: prod_eq_iff)
  have h2: "hs_supplicant_ie hs_rsn_example \<noteq> None"
    by (simp add: hs_rsn_example_fields)
  show ?thesis
    by (rule conjI [OF h1 conjI [OF h2 ft_prepare_handshake_fte_mic [OF h1 h2]]])
qed

section \<open>The bootstrapping URI\<close>

lemma base64_key_example: "base64_example key_example = Some key_der_example"
  by (simp add: base64_example_def key_example_def key_der_example_def b64_value_def Let_def)

lemma der_key_example:
  "dpp_point_from_asn1 dpp_ext_example key_der_example = Some point_example"
  by (simp add: dpp_point_from_asn1_def dpp_ext_example_def der_find_example_def
      der_elems.simps key_der_example_def point_example_def ec_oid_def ec_p256_oid_def
      ASN1_ID_SEQUENCE_def ASN1_ID_OID_def ASN1_ID_BIT_STRING_def)
lemma dpp_parse_key_example:
  "dpp_parse_key dpp_ext_example (key_example @ r) (length key_example) = Some point_example"
  using base64_key_example der_key_example
  by (simp add: dpp_parse_key_def dpp_ext_example_def)

lemma dpp_parse_token_text:
  assumes "dpp_parse_token X c v len info = Some info'"
  shows "information info' = information info \<and> host info' = host info"
  using assms by (auto simp: dpp_parse_token_def split: if_splits option.splits)

lemma dpp_parse_tokens_text:
  "dpp_parse_tokens X pos info = Some (pos', info')
     \<Longrightarrow> information info' = information info \<and> host info' = host info"
proof (induction X pos info rule: dpp_parse_tokens.induct)
  case (1 X pos info)
  show ?case
  proof (cases "TOKEN_OK pos")
    case False
    with "1.prems" show ?thesis by (simp add: dpp_parse_tokens.simps)
  next
    case True
    then obtain p where p: "pos = Some p" by (cases pos) (auto simp: TOKEN_OK_def)
    let ?len = "TOKEN_LEN (drop 2 p) CHR '';''"
    from "1.prems" True p have len: "?len \<noteq> 0"
      by (auto simp: dpp_parse_tokens.simps [of X "Some p"] Let_def split: if_splits)
    with "1.prems" True p obtain i where
      i: "dpp_parse_token X (deref p) (drop 2 p) ?len info = Some i" and
      r: "dpp_parse_tokens X (TOKEN_NEXT p CHR '';'') i = Some (pos', info')"
      by (auto simp: dpp_parse_tokens.simps [of X "Some p"] Let_def split: if_splits option.splits)
    from True have ok: "\<not> \<not> TOKEN_OK pos" by simp
    from "1.IH" [OF ok p refl len i r] dpp_parse_token_text [OF i]
    show ?thesis by simp
  qed
qed
lemma token_key_example:
  "dpp_parse_token dpp_ext_example CHR ''K'' (key_example @ CHR '';'' # r)
     (TOKEN_LEN (key_example @ CHR '';'' # r) CHR '';'') info
   = Some (info\<lparr>boot_public := Some point_example\<rparr>)"
proof -
  have "TOKEN_LEN (key_example @ CHR '';'' # r) CHR '';'' = length key_example"
    by (simp add: TOKEN_LEN_def strchr_def key_example_def)
  then show ?thesis
    using dpp_parse_key_example [of "CHR '';'' # r"]
    by (simp add: dpp_parse_token_def)
qed

lemma token_next_key_example:
  "TOKEN_NEXT (CHR ''K'' # CHR '':'' # key_example @ CHR '';'' # c # r) CHR '';'' =
     (if c = CHR 0x00 then None else Some (c # r))"
  by (simp add: TOKEN_NEXT_def strchr_def key_example_def deref_def)

lemma tokens_key_example:
  assumes "c \<noteq> CHR 0x00"
  shows "dpp_parse_tokens dpp_ext_example (Some (''K:'' @ key_example @ [CHR '';'', c])) info
         = Some (Some [c], info\<lparr>boot_public := Some point_example\<rparr>)"
proof -
  have ok: "TOKEN_OK (Some (''K:'' @ key_example @ [CHR '';'', c]))"
    by (simp add: TOKEN_OK_def deref_def key_example_def)
  have stop: "\<not> TOKEN_OK (Some [c])"
    by (simp add: TOKEN_OK_def deref_def)
  have len: "TOKEN_LEN (key_example @ [CHR '';'', c]) CHR '';'' = length key_example"
    by (simp add: TOKEN_LEN_def strchr_def key_example_def)
  have len0: "key_example \<noteq> []"
    by (simp add: key_example_def)
  show ?thesis
    apply (subst dpp_parse_tokens.simps)
    apply (simp only: ok)
    apply (simp add: Let_def len len0 deref_def assms
        token_key_example [of "[c]", simplified len, simplified]
        token_next_key_example [of c "[]", simplified])
    apply (subst dpp_parse_tokens.simps)
    apply (simp add: stop)
    done
qed

lemma c_str_key_example: "CHR 0x00 \<notin> set key_example"
  by (simp add: key_example_def)

lemma c_str_id: "CHR 0x00 \<notin> set s \<Longrightarrow> c_str s = s"
  by (auto simp: c_str_def)

lemma dpp_ext_example_fields:
  "oci_to_frequency dpp_ext_example = oci_example"
  "util_is_valid_sta_address dpp_ext_example =
     (\<lambda>m. length m = 6 \<and> m \<noteq> replicate 6 0 \<and> \<not> bit (hd m) 0)"
  by (simp_all add: dpp_ext_example_def)

text \<open>
  Claim C8. \<^verbatim>\<open>dpp_parse_uri\<close> is to fail unless one more \<^verbatim>\<open>;\<close> follows the \<^verbatim>\<open>;\<close> of the last
  token and nothing follows it. The loop leaves \<open>pos\<close> at the character after the
  \<^verbatim>\<open>;\<close> of the last token, and \<^verbatim>\<open>pos != end\<close> only checks that this is the last
  character of the URI, not that it is a \<^verbatim>\<open>;\<close>: the URI with the key of the unit tests
  followed by \<^verbatim>\<open>;x\<close> is accepted, and the URI information with that key is returned.
\<close>

theorem dpp_parse_uri_accepts_trailing_character:
  "dpp_parse_uri dpp_ext_example uri_trailing_example
   = Some (new_uri_info\<lparr>boot_public := Some point_example\<rparr>)"
proof -
  have c: "c_str uri_trailing_example = uri_trailing_example"
    by (rule c_str_id) (simp add: uri_trailing_example_def c_str_key_example)
  have t: "dpp_parse_tokens dpp_ext_example (Some (drop 4 uri_trailing_example)) new_uri_info
           = Some (Some ''x'', new_uri_info\<lparr>boot_public := Some point_example\<rparr>)"
    using tokens_key_example [of "CHR ''x''" new_uri_info]
    by (simp add: uri_trailing_example_def)
  have p: "take 4 uri_trailing_example = ''DPP:''"
    by (simp add: uri_trailing_example_def)
  show ?thesis
    by (simp add: dpp_parse_uri_def c t p)
qed

lemma token_version_example:
  "dpp_parse_tokens dpp_ext_example (Some (''V:2;K:'' @ key_example @ '';;'')) info
   = Some (Some '';'', info\<lparr>version := 2, boot_public := Some point_example\<rparr>)"
  apply (subst dpp_parse_tokens.simps)
  using tokens_key_example [of "CHR '';''" "info\<lparr>version := 2\<rparr>"]
  apply (simp add: TOKEN_OK_def deref_def TOKEN_LEN_def TOKEN_NEXT_def strchr_def Let_def
      dpp_parse_token_def dpp_parse_version_def)
  done

lemma token_mac_example:
  "dpp_parse_tokens dpp_ext_example (Some (''M:5254005828e5;V:2;K:'' @ key_example @ '';;'')) info
   = Some (Some '';'', info\<lparr>mac := [0x52, 0x54, 0x00, 0x58, 0x28, 0xe5], version := 2,
                               boot_public := Some point_example\<rparr>)"
  apply (subst dpp_parse_tokens.simps)
  using token_version_example [of "info\<lparr>mac := [0x52, 0x54, 0x00, 0x58, 0x28, 0xe5]\<rparr>"]
  apply (simp add: TOKEN_OK_def deref_def TOKEN_LEN_def TOKEN_NEXT_def strchr_def Let_def
      dpp_parse_token_def dpp_parse_mac_def l_ascii_isxdigit_def hex_value_def
      dpp_ext_example_fields replicate_numeral)
  done

lemma token_info_example:
  "dpp_parse_tokens dpp_ext_example
     (Some (''I:SN=4774LH2b4044;M:5254005828e5;V:2;K:'' @ key_example @ '';;'')) info
   = Some (Some '';'', info\<lparr>mac := [0x52, 0x54, 0x00, 0x58, 0x28, 0xe5], version := 2,
                               boot_public := Some point_example\<rparr>)"
  apply (subst dpp_parse_tokens.simps)
  using token_mac_example [of info]
  apply (simp add: TOKEN_OK_def deref_def TOKEN_LEN_def TOKEN_NEXT_def strchr_def Let_def
      dpp_parse_token_def)
  done
lemma comma_key_example: "CHR '','' \<notin> set key_example"
  by (simp add: key_example_def)

lemma class_and_channel_loop_example:
  assumes "CHR '','' \<notin> set r"
  shows "class_and_channel_loop dpp_ext_example (''81/1,115/36;'' @ r) 11
           (Some (''81/1,115/36;'' @ r)) (''81/1,115/36;'' @ r) {}
         = Some (CHR '';'' # r, {2412, 5180})"
  apply (subst class_and_channel_loop.simps)
  apply (simp add: deref_def strtoul_def isspace_def isdigit_def digits_value_def Let_def
      TOKEN_NEXT_def strchr_def dpp_ext_example_fields oci_example_def)
  apply (subst class_and_channel_loop.simps)
  apply (simp add: deref_def strtoul_def isspace_def isdigit_def digits_value_def Let_def
      TOKEN_NEXT_def strchr_def dpp_ext_example_fields oci_example_def assms)
  apply (subst class_and_channel_loop.simps)
  apply (auto simp add: deref_def)
  done

lemma class_and_channel_example:
  assumes "CHR '','' \<notin> set r"
  shows "dpp_parse_class_and_channel dpp_ext_example (''81/1,115/36;'' @ r) 11
         = Some {2412, 5180}"
  using class_and_channel_loop_example [OF assms]
  by (simp add: dpp_parse_class_and_channel_def)

lemma token_channel_example:
  "dpp_parse_tokens dpp_ext_example
     (Some (''C:81/1,115/36;I:SN=4774LH2b4044;M:5254005828e5;V:2;K:'' @ key_example @ '';;''))
     new_uri_info
   = Some (Some '';'', uri_info_example)"
  apply (subst dpp_parse_tokens.simps)
  using token_info_example [of "new_uri_info\<lparr>freqs := Some {2412, 5180}\<rparr>"]
    class_and_channel_example
      [of "''I:SN=4774LH2b4044;M:5254005828e5;V:2;K:'' @ key_example @ '';;''"]
  apply (simp add: TOKEN_OK_def deref_def TOKEN_LEN_def TOKEN_NEXT_def strchr_def Let_def
      dpp_parse_token_def comma_key_example new_uri_info_def uri_info_example_def)
  done

lemma dpp_parse_uri_example: "dpp_parse_uri dpp_ext_example uri_example = Some uri_info_example"
proof -
  have c: "c_str uri_example = uri_example"
    by (rule c_str_id) (simp add: uri_example_def c_str_key_example)
  have t: "dpp_parse_tokens dpp_ext_example (Some (drop 4 uri_example)) new_uri_info
           = Some (Some '';'', uri_info_example)"
    using token_channel_example by (simp add: uri_example_def)
  have p: "take 4 uri_example = ''DPP:''"
    by (simp add: uri_example_def)
  have k: "boot_public uri_info_example \<noteq> None"
    by (simp add: uri_info_example_def)
  show ?thesis
    using k by (simp add: dpp_parse_uri_def c t p)
qed
lemma dpp_parse_uri_prefix_and_key:
  assumes "dpp_parse_uri X uri = Some info"
  shows "take 4 (c_str uri) = ''DPP:'' \<and> boot_public info \<noteq> None"
  using assms
  by (auto simp: dpp_parse_uri_def Let_def split: if_splits option.splits)

lemma dpp_parse_uri_single_terminator:
  assumes "CHR '';'' \<notin> set k" "CHR 0x00 \<notin> set k"
  shows "dpp_parse_uri X (''DPP:K:'' @ k @ '';'') = None"
proof -
  have c: "c_str (''DPP:K:'' @ k @ '';'') = ''DPP:K:'' @ k @ '';''"
    by (rule c_str_id) (simp add: assms)
  have d: "dropWhile (\<lambda>x. x \<noteq> CHR '';'') (k @ '';'') = '';''"
    using assms(1) by (simp add: dropWhile_append)
  have n: "TOKEN_NEXT (''K:'' @ k @ '';'') CHR '';'' = None"
    using d by (simp add: TOKEN_NEXT_def strchr_def deref_def)
  have ok: "TOKEN_OK (Some (''K:'' @ k @ '';''))"
    using assms(2) by (cases k) (auto simp: TOKEN_OK_def deref_def)
  have "pos = None" if "dpp_parse_tokens X (Some (''K:'' @ k @ '';'')) new_uri_info = Some (pos, i)"
    for pos i
    using that ok n
    apply (subst (asm) dpp_parse_tokens.simps)
    apply (simp only: append_Cons append_Nil)
    apply (simp add: Let_def dpp_parse_tokens.simps [of X None] TOKEN_OK_def
        split: option.splits if_splits)
    done
  then have "dpp_parse_tokens X (Some (drop 4 (''DPP:K:'' @ k @ '';''))) new_uri_info
             \<noteq> Some (Some p, i)" for p i
    by auto
  then show ?thesis
    unfolding dpp_parse_uri_def c Let_def
    by (auto split: option.splits)
qed

lemma c_str_append: "CHR 0x00 \<notin> set a \<Longrightarrow> c_str (a @ b) = a @ c_str b"
  unfolding c_str_def by (rule takeWhile_append2) auto

lemma c_str_no_nul: "CHR 0x00 \<notin> set (c_str s)"
  unfolding c_str_def by (induction s) auto

lemma token_len_value:
  assumes "CHR '';'' \<notin> set v"
  shows "TOKEN_LEN (v @ CHR '';'' # r) CHR '';'' = length v"
  using assms by (simp add: TOKEN_LEN_def strchr_def dropWhile_append)

lemma token_next_value:
  assumes "CHR '';'' \<notin> set v" "c \<noteq> CHR '';''"
  shows "TOKEN_NEXT (c # CHR '':'' # v @ CHR '';'' # r) CHR '';''
         = (if deref r = CHR 0x00 then None else Some r)"
  using assms by (simp add: TOKEN_NEXT_def strchr_def dropWhile_append)

lemma dpp_parse_tokens_text_token:
  assumes "c = CHR ''I'' \<or> c = CHR ''H''" "v \<noteq> []" "CHR '';'' \<notin> set v" "CHR 0x00 \<notin> set v"
  shows "dpp_parse_tokens X (Some (c # CHR '':'' # v @ CHR '';'' # r)) info
         = dpp_parse_tokens X (if deref r = CHR 0x00 then None else Some r) info"
proof -
  let ?p = "c # CHR '':'' # v @ CHR '';'' # r"
  have ok: "TOKEN_OK (Some ?p)"
    using assms(1,2,4) by (cases v) (auto simp: TOKEN_OK_def deref_def)
  have len: "TOKEN_LEN (v @ CHR '';'' # r) CHR '';'' = length v"
    by (rule token_len_value [OF assms(3)])
  have tok: "dpp_parse_token X c (v @ CHR '';'' # r) (length v) info = Some info"
    using assms(1) by (auto simp: dpp_parse_token_def)
  have nxt: "TOKEN_NEXT ?p CHR '';'' = (if deref r = CHR 0x00 then None else Some r)"
    using assms(1) by (intro token_next_value [OF assms(3)]) auto
  have d: "deref ?p = c" "drop 2 ?p = v @ CHR '';'' # r"
    by (simp_all add: deref_def)
  show ?thesis
    apply (subst dpp_parse_tokens.simps)
    apply (simp only: ok d len tok nxt Let_def not_True_eq_False if_False option.case)
    using assms(2) apply simp
    done
qed

lemma dpp_parse_tokens_empty_value:
  assumes "c = CHR ''I'' \<or> c = CHR ''H''"
  shows "dpp_parse_tokens X (Some (c # CHR '':'' # CHR '';'' # r)) info = None"
proof -
  let ?p = "c # CHR '':'' # CHR '';'' # r"
  have ok: "TOKEN_OK (Some ?p)"
    using assms by (auto simp: TOKEN_OK_def deref_def)
  have len: "TOKEN_LEN (CHR '';'' # r) CHR '';'' = 0"
    by (simp add: TOKEN_LEN_def strchr_def)
  have d: "drop 2 ?p = CHR '';'' # r"
    by simp
  show ?thesis
    apply (subst dpp_parse_tokens.simps)
    apply (simp only: ok d len Let_def not_True_eq_False if_False option.case)
    apply simp
    done
qed

lemma dpp_parse_uri_text_token:
  assumes "c = CHR ''I'' \<or> c = CHR ''H''" "v \<noteq> []" "CHR '';'' \<notin> set v" "CHR 0x00 \<notin> set v"
  shows "dpp_parse_uri X (''DPP:'' @ c # CHR '':'' # v @ CHR '';'' # r)
         = dpp_parse_uri X (''DPP:'' @ r)"
proof -
  let ?R = "c_str r"
  have "CHR 0x00 \<notin> set (''DPP:'' @ c # CHR '':'' # v @ '';'')"
    using assms(1,4) by auto
  from c_str_append [OF this, of r]
  have l: "c_str (''DPP:'' @ c # CHR '':'' # v @ CHR '';'' # r)
           = ''DPP:'' @ c # CHR '':'' # v @ CHR '';'' # ?R"
    by simp
  have "CHR 0x00 \<notin> set ''DPP:''"
    by simp
  from c_str_append [OF this, of r]
  have rr: "c_str (''DPP:'' @ r) = ''DPP:'' @ ?R"
    by simp
  have nul: "deref ?R = CHR 0x00 \<longleftrightarrow> ?R = []"
    using c_str_no_nul [of r] by (cases ?R) (auto simp: deref_def)
  have tl: "dpp_parse_tokens X (Some (c # CHR '':'' # v @ CHR '';'' # ?R)) new_uri_info
            = dpp_parse_tokens X (if ?R = [] then None else Some ?R) new_uri_info"
    using dpp_parse_tokens_text_token [OF assms, of X ?R new_uri_info] nul by simp
  show ?thesis
  proof (cases "?R = []")
    case True
    have e1: "dpp_parse_tokens X None new_uri_info = Some (None, new_uri_info)"
      by (subst dpp_parse_tokens.simps) (simp add: TOKEN_OK_def)
    have e2: "dpp_parse_tokens X (Some []) new_uri_info = Some (Some [], new_uri_info)"
      by (subst dpp_parse_tokens.simps) (simp add: TOKEN_OK_def deref_def)
    show ?thesis
      unfolding dpp_parse_uri_def l rr Let_def
      using tl True e1 e2 by simp
  next
    case False
    show ?thesis
      unfolding dpp_parse_uri_def l rr Let_def
      using tl False by simp
  qed
qed

lemma dpp_parse_uri_empty_value:
  assumes "c = CHR ''I'' \<or> c = CHR ''H''"
  shows "dpp_parse_uri X (''DPP:'' @ c # CHR '':'' # CHR '';'' # r) = None"
proof -
  have "CHR 0x00 \<notin> set (''DPP:'' @ c # CHR '':'' # '';'')"
    using assms by auto
  from c_str_append [OF this, of r]
  have l: "c_str (''DPP:'' @ c # CHR '':'' # CHR '';'' # r)
           = ''DPP:'' @ c # CHR '':'' # CHR '';'' # c_str r"
    by simp
  show ?thesis
    unfolding dpp_parse_uri_def l Let_def
    using dpp_parse_tokens_empty_value [OF assms, of X "c_str r" new_uri_info] by simp
qed

lemma dpp_parse_uri_fields_unset:
  assumes "dpp_parse_uri X uri = Some info"
  shows "information info = None \<and> host info = None"
proof -
  from assms obtain pos where
    "dpp_parse_tokens X (Some (drop 4 (c_str uri))) new_uri_info = Some (pos, info)"
    by (auto simp: dpp_parse_uri_def Let_def split: if_splits option.splits)
  from dpp_parse_tokens_text [OF this] show ?thesis
    by (simp add: new_uri_info_def)
qed

text \<open>
  Claim C10. Whatever \<^verbatim>\<open>dpp_parse_uri\<close> accepts, the URI information it returns has
  neither \<^verbatim>\<open>information\<close> nor \<^verbatim>\<open>host\<close> set: the structure starts cleared and the cases
  \<^verbatim>\<open>'I'\<close> and \<^verbatim>\<open>'H'\<close> of the loop store nothing. The value of an \<^verbatim>\<open>I\<close> or \<^verbatim>\<open>H\<close> token is only
  checked for being non-empty. When the loop stands at such a token with any
  non-empty value \<open>v\<close> (a C string without \<^verbatim>\<open>;\<close>), it goes on after the \<^verbatim>\<open>;\<close> of the token
  with the URI information as it was, so that a URI that starts with the token is
  parsed as the URI without it; with an empty value the loop, and with it the
  parser, fails.
\<close>

theorem dpp_parse_uri_information_host_unset:
  "(dpp_parse_uri X uri = Some info \<longrightarrow> information info = None \<and> host info = None) \<and>
   ((c = CHR ''I'' \<or> c = CHR ''H'') \<and> v \<noteq> [] \<and> CHR '';'' \<notin> set v \<and> CHR 0x00 \<notin> set v \<longrightarrow>
      dpp_parse_tokens X (Some (c # CHR '':'' # v @ CHR '';'' # r)) info0
        = dpp_parse_tokens X (if deref r = CHR 0x00 then None else Some r) info0 \<and>
      dpp_parse_uri X (''DPP:'' @ c # CHR '':'' # v @ CHR '';'' # r)
        = dpp_parse_uri X (''DPP:'' @ r)) \<and>
   (c = CHR ''I'' \<or> c = CHR ''H'' \<longrightarrow>
      dpp_parse_tokens X (Some (c # CHR '':'' # CHR '';'' # r)) info0 = None \<and>
      dpp_parse_uri X (''DPP:'' @ c # CHR '':'' # CHR '';'' # r) = None)"
proof -
  have a: "dpp_parse_uri X uri = Some info \<longrightarrow> information info = None \<and> host info = None"
    using dpp_parse_uri_fields_unset [of X uri info] by (rule impI)
  have b: "(c = CHR ''I'' \<or> c = CHR ''H'') \<and> v \<noteq> [] \<and> CHR '';'' \<notin> set v \<and> CHR 0x00 \<notin> set v \<longrightarrow>
      dpp_parse_tokens X (Some (c # CHR '':'' # v @ CHR '';'' # r)) info0
        = dpp_parse_tokens X (if deref r = CHR 0x00 then None else Some r) info0 \<and>
      dpp_parse_uri X (''DPP:'' @ c # CHR '':'' # v @ CHR '';'' # r)
        = dpp_parse_uri X (''DPP:'' @ r)"
  proof
    assume h: "(c = CHR ''I'' \<or> c = CHR ''H'') \<and> v \<noteq> [] \<and> CHR '';'' \<notin> set v \<and> CHR 0x00 \<notin> set v"
    then have h': "c = CHR ''I'' \<or> c = CHR ''H''" "v \<noteq> []" "CHR '';'' \<notin> set v"
      "CHR 0x00 \<notin> set v"
      by simp_all
    show "dpp_parse_tokens X (Some (c # CHR '':'' # v @ CHR '';'' # r)) info0
        = dpp_parse_tokens X (if deref r = CHR 0x00 then None else Some r) info0 \<and>
      dpp_parse_uri X (''DPP:'' @ c # CHR '':'' # v @ CHR '';'' # r)
        = dpp_parse_uri X (''DPP:'' @ r)"
      by (rule conjI [OF dpp_parse_tokens_text_token [OF h'] dpp_parse_uri_text_token [OF h']])
  qed
  have c: "c = CHR ''I'' \<or> c = CHR ''H'' \<longrightarrow>
      dpp_parse_tokens X (Some (c # CHR '':'' # CHR '';'' # r)) info0 = None \<and>
      dpp_parse_uri X (''DPP:'' @ c # CHR '':'' # CHR '';'' # r) = None"
  proof
    assume h: "c = CHR ''I'' \<or> c = CHR ''H''"
    show "dpp_parse_tokens X (Some (c # CHR '':'' # CHR '';'' # r)) info0 = None \<and>
      dpp_parse_uri X (''DPP:'' @ c # CHR '':'' # CHR '';'' # r) = None"
      by (rule conjI [OF dpp_parse_tokens_empty_value [OF h] dpp_parse_uri_empty_value [OF h]])
  qed
  from a b c show ?thesis
    by (intro conjI)
qed

lemma uri_rest_example: "uri_example = ''DPP:'' @ uri_rest_example"
  by (simp add: uri_example_def uri_rest_example_def)

theorem dpp_parse_uri_information_host_unset_witness:
  "dpp_parse_uri dpp_ext_example uri_host_example = Some uri_info_example \<and>
   information uri_info_example = None \<and> host uri_info_example = None \<and>
   dpp_parse_tokens dpp_ext_example (Some (''H:example.org;'' @ uri_rest_example)) new_uri_info
     = dpp_parse_tokens dpp_ext_example (Some uri_rest_example) new_uri_info \<and>
   dpp_parse_tokens dpp_ext_example (Some (''H:;'' @ uri_rest_example)) new_uri_info = None \<and>
   dpp_parse_uri dpp_ext_example (''DPP:H:;'' @ uri_rest_example) = None"
proof -
  note T = dpp_parse_uri_information_host_unset
    [where X = dpp_ext_example and uri = uri_host_example and info = uri_info_example
       and c = "CHR ''H''" and v = "''example.org''" and r = uri_rest_example
       and ?info0.0 = new_uri_info]
  have d: "deref uri_rest_example \<noteq> CHR 0x00"
    by (simp add: uri_rest_example_def deref_def)
  from T have step:
    "dpp_parse_tokens dpp_ext_example (Some (''H:example.org;'' @ uri_rest_example)) new_uri_info
       = dpp_parse_tokens dpp_ext_example (Some uri_rest_example) new_uri_info"
    and same: "dpp_parse_uri dpp_ext_example uri_host_example
                 = dpp_parse_uri dpp_ext_example uri_example"
    using d by (simp_all add: uri_host_example_def uri_rest_example)
  from same have acc: "dpp_parse_uri dpp_ext_example uri_host_example = Some uri_info_example"
    by (simp add: dpp_parse_uri_example)
  from T acc have unset: "information uri_info_example = None \<and> host uri_info_example = None"
    by blast
  from T have empty:
    "dpp_parse_tokens dpp_ext_example (Some (''H:;'' @ uri_rest_example)) new_uri_info = None \<and>
     dpp_parse_uri dpp_ext_example (''DPP:H:;'' @ uri_rest_example) = None"
    by simp
  from acc unset step empty show ?thesis
    by blast
qed

section \<open>Wrapped data\<close>

lemma dpp_append_attr_fresh:
  "dpp_append_attr [] ty p (length p)
   = (length p + 4, l_put_le16 (of_nat ty) @ l_put_le16 (of_nat (length p)) @ p)"
  by (simp add: dpp_append_attr_def store_def l_put_le16_def)

lemma attrs_plaintext_foldl:
  "foldl (\<lambda>plaintext (ty, p).
            plaintext @ l_put_le16 (of_nat ty) @ l_put_le16 (of_nat (length p)) @ p)
     acc attrs
   = acc @ serialize_attrs attrs"
  by (induction attrs arbitrary: acc)
     (auto simp: serialize_attrs_def dpp_append_attr_fresh)

lemma attrs_plaintext_serialize: "attrs_plaintext attrs = serialize_attrs attrs"
  by (simp add: attrs_plaintext_def attrs_plaintext_foldl)

lemma attrs_length_foldl:
  "foldl (\<lambda>attrs_len (ty, p). attrs_len + (length p + 4)) n attrs
   = n + length (serialize_attrs attrs)"
  by (induction attrs arbitrary: n)
     (auto simp: serialize_attrs_def dpp_append_attr_fresh l_put_le16_def)

lemma attrs_length_serialize: "attrs_length attrs = length (serialize_attrs attrs)"
  by (simp add: attrs_length_def attrs_length_foldl)

lemma l_get_put_le16: "l_get_le16 (l_put_le16 v @ r) = v"
proof -
  have "(ucast (ucast v :: 8 word) :: 16 word) OR push_bit 8 (ucast (ucast (drop_bit 8 v) :: 8 word)) = v"
    by (rule bit_word_eqI) (auto simp: bit_simps)
  then show ?thesis
    by (simp add: l_get_le16_def l_put_le16_def)
qed

lemma store_header:
  "store (store (store to 0 (l_put_le16 v)) 2 (l_put_le16 w)) 4 out
   = l_put_le16 v @ l_put_le16 w @ out @ drop (4 + length out) to"
proof -
  have d: "drop (4 + n) (a # b # c # d # r) = drop n r" for n and a b c d :: u8 and r
    by (simp add: numeral_eq_Suc)
  have "drop (length out) (drop 4 to) = drop (4 + length out) to"
    by (simp add: add.commute)
  then show ?thesis
    by (simp add: store_def l_put_le16_def d)
qed

lemma dpp_append_wrapped_data_layout:
  assumes "dpp_append_wrapped_data X ad0 ad1 to to_len key attrs = (n, to')" "n \<noteq> 0"
  shows "\<exists>ct. aes_siv_encrypt X key (serialize_attrs attrs) (ad_iov ad0 ad1) = Some ct \<and>
              n = length (serialize_attrs attrs) + 20 \<and> n \<le> to_len \<and>
              to' = l_put_le16 (of_nat (DPP_ATTR_WRAPPED_DATA X)) @
                    l_put_le16 (of_nat (length (serialize_attrs attrs) + 16)) @
                    ct @ drop (4 + length ct) to"
proof (cases "aes_siv_encrypt X key (serialize_attrs attrs) (ad_iov ad0 ad1)")
  case None
  with assms show ?thesis
    by (auto simp: dpp_append_wrapped_data_def Let_def attrs_plaintext_serialize
        split: if_splits)
next
  case (Some ct)
  from assms have le: "\<not> to_len < length (serialize_attrs attrs) + 4 + 16"
    by (auto simp: dpp_append_wrapped_data_def Let_def attrs_length_serialize split: if_splits)
  from assms Some le have
    "n = length (serialize_attrs attrs) + 4 + 16"
    "to' = store (store (store to 0 (l_put_le16 (of_nat (DPP_ATTR_WRAPPED_DATA X)))) 2
                    (l_put_le16 (of_nat (length (serialize_attrs attrs) + 16)))) 4 ct"
    by (simp_all add: dpp_append_wrapped_data_def Let_def attrs_plaintext_serialize
        attrs_length_serialize)
  with Some le show ?thesis
    by (simp only: store_header) simp
qed
lemma sum_list_flip:
  fixes xs :: bytes
  assumes "i < length xs" "v \<noteq> xs ! i"
  shows "sum_list (xs[i := v]) \<noteq> sum_list xs"
proof -
  have "sum_list (xs[i := v]) = sum_list (take i xs) + (v + sum_list (drop (Suc i) xs))"
    using assms(1) by (simp add: upd_conv_take_nth_drop)
  moreover have "sum_list xs = sum_list (take i xs) + (xs ! i + sum_list (drop (Suc i) xs))"
    using assms(1) id_take_nth_drop [of i xs]
    by (metis sum_list.Cons sum_list_append)
  ultimately show ?thesis
    using assms(2) by simp
qed

lemma one_byte_flippedD:
  assumes "one_byte_flipped xs ys"
  obtains i where "i < length xs" "ys ! i \<noteq> xs ! i" "ys = xs[i := ys ! i]"
  using assms by (auto simp: one_byte_flipped_def list_ex_iff)

lemma one_byte_flipped_sum:
  assumes "one_byte_flipped xs ys"
  shows "sum_list ys \<noteq> sum_list xs"
proof -
  from assms obtain i where i: "i < length xs" "ys ! i \<noteq> xs ! i" "ys = xs[i := ys ! i]"
    by (rule one_byte_flippedD)
  from sum_list_flip [OF i(1,2)] i(3) show ?thesis by simp
qed

lemma sum_list_concat_bytes:
  fixes xss :: "bytes list"
  shows "sum_list (concat xss) = sum_list (map sum_list xss)"
  by (induction xss) simp_all

lemma ad_flipped_sum:
  assumes "ad_flipped ad ad'"
  shows "sum_list (concat ad') \<noteq> sum_list (concat ad)"
proof -
  from assms obtain j where j: "j < length ad" "one_byte_flipped (ad ! j) (ad' ! j)"
    "ad' = ad[j := ad' ! j]"
    by (auto simp: ad_flipped_def list_ex_iff)
  let ?ss = "map sum_list ad"
  have "map sum_list ad' = ?ss[j := sum_list (ad' ! j)]"
    using j(3) by (metis map_update)
  moreover have "sum_list (ad' ! j) \<noteq> ?ss ! j"
    using one_byte_flipped_sum [OF j(2)] j(1) by simp
  ultimately have "sum_list (map sum_list ad') \<noteq> sum_list ?ss"
    using sum_list_flip [of j ?ss "sum_list (ad' ! j)"] j(1) by simp
  then show ?thesis
    by (simp add: sum_list_concat_bytes)
qed

lemma xor_5a_comp: "(\<lambda>b. b XOR 0x5a) \<circ> (\<lambda>b. b XOR (0x5a :: u8)) = id"
  by (rule ext) (simp add: xor.assoc)

lemma xor_5a_twice: "map (\<lambda>b. b XOR 0x5a) (map (\<lambda>b. b XOR (0x5a :: u8)) xs) = xs"
  by (simp add: xor_5a_comp)

lemma siv_example_spec: "aes_siv_spec siv_example"
proof -
  let ?f = "\<lambda>b. b XOR (0x5a :: u8)"
  have "length ct = length pt + 16 \<and>
        aes_siv_decrypt siv_example key ct ad = Some pt \<and>
        (\<forall>ct'. one_byte_flipped ct ct' \<longrightarrow> aes_siv_decrypt siv_example key ct' ad = None) \<and>
        (\<forall>ad'. ad_flipped ad ad' \<longrightarrow> aes_siv_decrypt siv_example key ct ad' = None)"
    if enc: "aes_siv_encrypt siv_example key pt ad = Some ct" for key pt ad ct
  proof -
    from enc have key: "length key \<in> {32, 48, 64}"
      and ct: "ct = siv_tag_example key pt ad @ map ?f pt"
      by (auto simp: siv_example_def split: if_splits)
    have tag: "length (siv_tag_example key pt ad) = 16"
      by (simp add: siv_tag_example_def)
    have len: "length ct = length pt + 16"
      by (simp add: ct tag)
    have tk: "take 16 ct = siv_tag_example key pt ad" and dr: "drop 16 ct = map ?f pt"
      by (simp_all add: ct tag)
    have dec: "aes_siv_decrypt siv_example key ct ad = Some pt"
      using key len by (simp add: siv_example_def tk dr xor_5a_twice xor_5a_comp Let_def)
    have flip: "aes_siv_decrypt siv_example key ct' ad = None" if f: "one_byte_flipped ct ct'" for ct'
    proof -
      from f obtain i where i: "i < length ct" "ct' ! i \<noteq> ct ! i" "ct' = ct[i := ct' ! i]"
        by (rule one_byte_flippedD)
      let ?pt' = "map ?f (drop 16 ct')"
      have "take 16 ct' \<noteq> siv_tag_example key ?pt' ad"
      proof (cases "i < 16")
        case True
        have "drop 16 ct' = drop 16 ct"
          using i(3) True by (metis drop_update_cancel)
        then have same: "siv_tag_example key ?pt' ad = take 16 ct"
          by (simp add: dr tk xor_5a_twice xor_5a_comp)
        have "take 16 ct' ! i = ct' ! i" "take 16 ct ! i = ct ! i"
          using True by simp_all
        with i(2) have "take 16 ct' \<noteq> take 16 ct" by metis
        with same show ?thesis by simp
      next
        case False
        have "one_byte_flipped pt ?pt'"
        proof -
          have l: "length ct' = length ct" using i(3) by (metis length_list_update)
          have k: "i - 16 < length pt" using i(1) False len by simp
          have d: "drop 16 ct' = (map ?f pt)[i - 16 := ct' ! i]"
            using i(3) False dr by (metis drop_update_swap not_less)
          have p: "?pt' = pt[i - 16 := ?f (ct' ! i)]"
            by (simp add: d map_update xor_5a_twice xor_5a_comp)
          have "ct ! i = ?f (pt ! (i - 16))"
            using False k by (simp add: ct nth_append tag)
          with i(2) have n: "?f (ct' ! i) \<noteq> pt ! (i - 16)"
            by (metis xor.assoc xor_self_eq xor.right_neutral)
          have "?pt' ! (i - 16) = ?f (ct' ! i)"
            using k by (simp add: p)
          with n k p show ?thesis
            by (auto simp: one_byte_flipped_def list_ex_iff intro!: bexI [of _ "i - 16"])
        qed
        from one_byte_flipped_sum [OF this]
        have "siv_tag_example key ?pt' ad \<noteq> siv_tag_example key pt ad"
          by (simp add: siv_tag_example_def replicate_numeral)
        moreover have "take 16 ct' = take 16 ct"
          using i(3) False by (metis take_update_cancel not_less)
        ultimately show ?thesis by (simp add: tk)
      qed
      then show ?thesis
        by (simp add: siv_example_def Let_def)
    qed
    have adf: "aes_siv_decrypt siv_example key ct ad' = None" if f: "ad_flipped ad ad'" for ad'
    proof -
      from ad_flipped_sum [OF f]
      have "siv_tag_example key pt ad' \<noteq> siv_tag_example key pt ad"
        by (simp add: siv_tag_example_def replicate_numeral)
      then show ?thesis
        by (simp add: siv_example_def Let_def tk dr xor_5a_twice xor_5a_comp)
    qed
    from len dec flip adf show ?thesis by blast
  qed
  then show ?thesis
    unfolding aes_siv_spec_def by blast
qed
lemma size_t_minus_16:
  fixes k :: nat
  assumes "16 \<le> k" "k < 65552"
  shows "(k + 2 ^ 64 - 16) mod 2 ^ 64 = k - 16"
proof -
  have "k + 2 ^ 64 - 16 = (k - 16) + 2 ^ 64"
    using assms by simp
  moreover have "k - 16 < (2 :: nat) ^ 64"
    using assms by simp
  ultimately show ?thesis
    by (simp only: mod_add_self2 mod_less)
qed

lemma one_byte_flippedI:
  assumes "i < length xs" "v \<noteq> xs ! i"
  shows "one_byte_flipped xs (xs[i := v])"
  using assms by (auto simp: one_byte_flipped_def list_ex_iff intro!: bexI [of _ i])

lemma ad_flippedI:
  assumes "j < length ad" "one_byte_flipped (ad ! j) a"
  shows "ad_flipped ad (ad[j := a])"
  using assms by (auto simp: ad_flipped_def list_ex_iff intro!: bexI [of _ j])

lemma serialize_attrs_example:
  "serialize_attrs attrs_example
   = [0x02, 0x10, 0x02, 0x00, 0x01, 0x02, 0x05, 0x10, 0x01, 0x00, 0xaa]"
  by (simp add: serialize_attrs_def attrs_example_def dpp_append_attr_fresh l_put_le16_def)

text \<open>
  Claim C4 as stated does not hold for every attribute list. When the buffer is
  shorter than the attributes, the header and the tag, \<^verbatim>\<open>dpp_append_wrapped_data\<close>
  returns 0 and emits nothing. When the plaintext and the tag together take 65536
  bytes or more, the length field, 16 bits wide, does not hold the length of the
  plaintext plus 16: for one attribute of 65516 bytes it holds 0. And for the empty
  attribute list, the ciphertext is the 16 bytes of the tag alone, for which
  \<^verbatim>\<open>dpp_unwrap_attr\<close> returns \<^verbatim>\<open>NULL\<close>, the pointer that \<^verbatim>\<open>l_malloc(0)\<close> gave it.
\<close>

theorem dpp_append_wrapped_data_counterexample:
  "dpp_append_wrapped_data siv_example None None (replicate 16 0) 16 key_siv_example
     attrs_example = (0, replicate 16 0) \<and>
   fst (dpp_append_wrapped_data siv_example None None (replicate 65540 0) 65540
          key_siv_example attrs_long_example) = 65540 \<and>
   length (serialize_attrs attrs_long_example) + 16 = 65536 \<and>
   unat (l_get_le16 (drop 2 (snd (dpp_append_wrapped_data siv_example None None
          (replicate 65540 0) 65540 key_siv_example attrs_long_example)))) = 0 \<and>
   fst (dpp_append_wrapped_data siv_example None None (replicate 20 0) 20
          key_siv_example []) = 20 \<and>
   aes_siv_decrypt siv_example key_siv_example
     (wrapped_ciphertext 20
        (snd (dpp_append_wrapped_data siv_example None None (replicate 20 0) 20
                key_siv_example []))) (ad_iov None None) = Some [] \<and>
   dpp_unwrap_attr siv_example None None key_siv_example
     (wrapped_ciphertext 20
        (snd (dpp_append_wrapped_data siv_example None None (replicate 20 0) 20
                key_siv_example []))) = Returned None"
proof -
  let ?R = "dpp_append_wrapped_data siv_example None None (replicate 65540 0) 65540
              key_siv_example attrs_long_example"
  have small: "dpp_append_wrapped_data siv_example None None (replicate 16 0) 16
                 key_siv_example attrs_example = (0, replicate 16 0)"
    by (simp add: dpp_append_wrapped_data_def attrs_length_serialize serialize_attrs_example)
  have L: "length (serialize_attrs attrs_long_example) = 65520"
    by (simp add: serialize_attrs_def attrs_long_example_def dpp_append_attr_fresh
        l_put_le16_def)
  have n: "fst ?R = 65540"
    by (simp add: dpp_append_wrapped_data_def attrs_length_serialize L siv_example_def
        key_siv_example_def Let_def)
  then have R: "?R = (65540, snd ?R)" "(65540 :: nat) \<noteq> 0"
    by (simp_all add: prod_eq_iff)
  from dpp_append_wrapped_data_layout [OF R] obtain ct where
    "snd ?R = l_put_le16 (of_nat (DPP_ATTR_WRAPPED_DATA siv_example)) @
              l_put_le16 (of_nat (length (serialize_attrs attrs_long_example) + 16)) @
              ct @ drop (4 + length ct) (replicate 65540 0)"
    by blast
  then have "drop 2 (snd ?R) =
      l_put_le16 (of_nat (length (serialize_attrs attrs_long_example) + 16)) @
      ct @ drop (4 + length ct) (replicate 65540 0)"
    by (simp add: l_put_le16_def)
  then have "l_get_le16 (drop 2 (snd ?R))
             = of_nat (length (serialize_attrs attrs_long_example) + 16)"
    by (simp only: l_get_put_le16)
  then have z: "unat (l_get_le16 (drop 2 (snd ?R))) = 0"
    by (simp add: L)
  have e: "dpp_append_wrapped_data siv_example None None (replicate 20 0) 20
             key_siv_example [] = (20, [0x04, 0x10, 0x10, 0x00] @ replicate 16 0x60)"
    by (simp add: dpp_append_wrapped_data_def attrs_length_def attrs_plaintext_def
        siv_example_def siv_tag_example_def key_siv_example_def ad_iov_def store_def
        l_put_le16_def replicate_numeral)
  have u: "dpp_unwrap_attr siv_example None None key_siv_example
             (wrapped_ciphertext 20 ([0x04, 0x10, 0x10, 0x00] @ replicate 16 0x60))
           = Returned None"
    by (simp add: dpp_unwrap_attr_def wrapped_ciphertext_def l_malloc_def siv_example_def
        siv_tag_example_def key_siv_example_def ad_iov_def replicate_numeral)
  have d: "aes_siv_decrypt siv_example key_siv_example
             (wrapped_ciphertext 20 ([0x04, 0x10, 0x10, 0x00] @ replicate 16 0x60))
             (ad_iov None None) = Some []"
    by (simp add: wrapped_ciphertext_def siv_example_def siv_tag_example_def
        key_siv_example_def ad_iov_def replicate_numeral)
  from small n L z e u d show ?thesis
    by simp
qed

lemma serialize_attrs_nonempty:
  assumes "attrs \<noteq> []"
  shows "4 \<le> length (serialize_attrs attrs)"
proof (cases attrs)
  case Nil
  with assms show ?thesis by simp
next
  case (Cons a as)
  obtain ty p where "a = (ty, p)" by (cases a)
  with Cons show ?thesis
    by (simp add: serialize_attrs_def dpp_append_attr_fresh l_put_le16_def)
qed

lemma l_malloc_small:
  assumes "0 < n" "n < 65536"
  shows "l_malloc n = Returned True"
  using assms by (simp add: l_malloc_def)

text \<open>
  Claim C4, as the code has it. When \<^verbatim>\<open>dpp_append_wrapped_data\<close> is given at least one
  attribute and returns a value other than 0 (the buffer was large enough and the
  cipher accepted the key), and the plaintext with the 16 bytes of the tag fits the
  16-bit length field, the value is the length of the serialized attributes plus
  20, and the buffer starts with the type of wrapped data and the length of the
  plaintext plus 16, both in 16 bits, little-endian, followed by the ciphertext. For
  a cipher as the spec describes AES-SIV, \<^verbatim>\<open>dpp_unwrap_attr\<close> of that ciphertext under the
  same key and associated data returns the serialized attributes, with the length
  of the ciphertext minus 16, and it returns \<^verbatim>\<open>NULL\<close> once one byte of the ciphertext or
  of the associated data is changed.
\<close>

theorem dpp_wrapped_data_roundtrip:
  assumes "aes_siv_spec X"
    and "dpp_append_wrapped_data X ad0 ad1 to to_len key attrs = (n, to')"
    and "n \<noteq> 0"
    and "attrs \<noteq> []"
    and "length (serialize_attrs attrs) + 16 < 65536"
  shows "n = length (serialize_attrs attrs) + 20 \<and>
         take 2 to' = l_put_le16 (of_nat (DPP_ATTR_WRAPPED_DATA X)) \<and>
         unat (l_get_le16 (drop 2 to')) = length (serialize_attrs attrs) + 16 \<and>
         length (serialize_attrs attrs) = length (wrapped_ciphertext n to') - 16 \<and>
         dpp_unwrap_attr X ad0 ad1 key (wrapped_ciphertext n to')
           = Returned (Some (serialize_attrs attrs, length (wrapped_ciphertext n to') - 16)) \<and>
         (\<forall>ct'. one_byte_flipped (wrapped_ciphertext n to') ct'
                 \<longrightarrow> dpp_unwrap_attr X ad0 ad1 key ct' = Returned None) \<and>
         (\<forall>ad0' ad1'. ad_flipped (ad_iov ad0 ad1) (ad_iov ad0' ad1')
                 \<longrightarrow> dpp_unwrap_attr X ad0' ad1' key (wrapped_ciphertext n to')
                      = Returned None)"
proof -
  let ?pt = "serialize_attrs attrs"
  from dpp_append_wrapped_data_layout [OF assms(2,3)] obtain ct where
    enc: "aes_siv_encrypt X key ?pt (ad_iov ad0 ad1) = Some ct" and
    n: "n = length ?pt + 20" and
    to': "to' = l_put_le16 (of_nat (DPP_ATTR_WRAPPED_DATA X)) @
                l_put_le16 (of_nat (length ?pt + 16)) @ ct @ drop (4 + length ct) to"
    by blast
  from assms(1) enc have
    len: "length ct = length ?pt + 16" and
    dec: "aes_siv_decrypt X key ct (ad_iov ad0 ad1) = Some ?pt" and
    flip: "\<And>ct'. one_byte_flipped ct ct' \<Longrightarrow> aes_siv_decrypt X key ct' (ad_iov ad0 ad1) = None" and
    adf: "\<And>ad'. ad_flipped (ad_iov ad0 ad1) ad' \<Longrightarrow> aes_siv_decrypt X key ct ad' = None"
    unfolding aes_siv_spec_def by blast+
  have w: "wrapped_ciphertext n to' = ct"
    by (simp add: wrapped_ciphertext_def to' n len l_put_le16_def)
  have hdr: "take 2 to' = l_put_le16 (of_nat (DPP_ATTR_WRAPPED_DATA X))"
    by (simp add: to' l_put_le16_def)
  have "drop 2 to' = l_put_le16 (of_nat (length ?pt + 16)) @ ct @ drop (4 + length ct) to"
    by (simp add: to' l_put_le16_def)
  then have "l_get_le16 (drop 2 to') = of_nat (length ?pt + 16)"
    by (simp only: l_get_put_le16)
  moreover have "unat (of_nat (length ?pt + 16) :: 16 word) = length ?pt + 16"
  proof -
    have "unat (of_nat k :: 16 word) = k" if "k < 65536" for k
      using that by (simp add: unat_of_nat take_bit_nat_eq_self)
    from this [OF assms(5)] show ?thesis .
  qed
  ultimately have lenf: "unat (l_get_le16 (drop 2 to')) = length ?pt + 16"
    by simp
  have wrap: "(length c + 2 ^ 64 - 16) mod 2 ^ 64 = length c - 16"
    if "length c = length ct" for c :: bytes
    using len assms(5) that by (intro size_t_minus_16) simp_all
  have alloc: "l_malloc (length c - 16) = Returned True" if "length c = length ct" for c :: bytes
    using len assms(5) serialize_attrs_nonempty [OF assms(4)] that
    by (intro l_malloc_small) auto
  have un: "dpp_unwrap_attr X ad0 ad1 key ct = Returned (Some (?pt, length ct - 16))"
    by (simp only: dpp_unwrap_attr_def Let_def wrap [OF refl] alloc [OF refl] dec
        outcome.case option.case if_True)
  have t1: "dpp_unwrap_attr X ad0 ad1 key ct' = Returned None"
    if f: "one_byte_flipped ct ct'" for ct'
  proof -
    from f have l: "length ct' = length ct"
      by (simp add: one_byte_flipped_def)
    show ?thesis
      by (simp only: dpp_unwrap_attr_def Let_def wrap [OF l] alloc [OF l] flip [OF f]
          outcome.case option.case)
  qed
  have t2: "dpp_unwrap_attr X ad0' ad1' key ct = Returned None"
    if "ad_flipped (ad_iov ad0 ad1) (ad_iov ad0' ad1')" for ad0' ad1'
    by (simp only: dpp_unwrap_attr_def Let_def wrap [OF refl] alloc [OF refl] adf [OF that]
        outcome.case option.case)
  from n hdr lenf un t1 t2 len show ?thesis
    unfolding w by simp
qed

lemma dpp_append_wrapped_data_example:
  "dpp_append_wrapped_data siv_example (Some [0x10, 0x20]) None (replicate 40 0) 40
     key_siv_example attrs_example
   = (31, wrapped_example)"
  by (simp add: dpp_append_wrapped_data_def attrs_length_serialize attrs_plaintext_serialize
      serialize_attrs_example siv_example_def siv_tag_example_def key_siv_example_def
      ad_iov_def store_def l_put_le16_def wrapped_example_def sum_list_replicate
      replicate_numeral)
theorem dpp_wrapped_data_roundtrip_witness:
  "aes_siv_spec siv_example \<and>
   dpp_append_wrapped_data siv_example (Some [0x10, 0x20]) None (replicate 40 0) 40
     key_siv_example attrs_example = (31, wrapped_example) \<and>
   (31 :: nat) \<noteq> 0 \<and>
   attrs_example \<noteq> [] \<and>
   length (serialize_attrs attrs_example) + 16 < 65536 \<and>
   31 = length (serialize_attrs attrs_example) + 20 \<and>
   take 2 wrapped_example = l_put_le16 (of_nat (DPP_ATTR_WRAPPED_DATA siv_example)) \<and>
   unat (l_get_le16 (drop 2 wrapped_example)) = length (serialize_attrs attrs_example) + 16 \<and>
   length (serialize_attrs attrs_example) = length ciphertext_example - 16 \<and>
   dpp_unwrap_attr siv_example (Some [0x10, 0x20]) None key_siv_example ciphertext_example
     = Returned (Some (serialize_attrs attrs_example, length ciphertext_example - 16)) \<and>
   dpp_unwrap_attr siv_example (Some [0x10, 0x20]) None key_siv_example
     (ciphertext_example[20 := 0]) = Returned None \<and>
   dpp_unwrap_attr siv_example (Some [0x10, 0x21]) None key_siv_example ciphertext_example
     = Returned None"
proof -
  have h3: "(31 :: nat) \<noteq> 0"
    by simp
  have h4: "length (serialize_attrs attrs_example) + 16 < 65536"
    by (simp add: serialize_attrs_example)
  have h5: "attrs_example \<noteq> []"
    by (simp add: attrs_example_def)
  note T = dpp_wrapped_data_roundtrip
    [OF siv_example_spec dpp_append_wrapped_data_example h3 h5 h4]
  have w: "wrapped_ciphertext 31 wrapped_example = ciphertext_example"
    by (simp add: wrapped_ciphertext_def ciphertext_example_def)
  have f1: "one_byte_flipped ciphertext_example (ciphertext_example[20 := 0])"
    by (rule one_byte_flippedI)
       (simp_all add: ciphertext_example_def wrapped_example_def replicate_numeral)
  have "one_byte_flipped [0x10, 0x20] ([0x10, 0x20 :: u8][1 := 0x21])"
    by (rule one_byte_flippedI) simp_all
  then have "ad_flipped [[0x10, 0x20]] ([[0x10, 0x20 :: u8]][0 := [0x10, 0x21]])"
    by (intro ad_flippedI) simp_all
  then have f2: "ad_flipped (ad_iov (Some [0x10, 0x20]) None) (ad_iov (Some [0x10, 0x21]) None)"
    by (simp add: ad_iov_def)
  from T have c: "31 = length (serialize_attrs attrs_example) + 20"
    "take 2 wrapped_example = l_put_le16 (of_nat (DPP_ATTR_WRAPPED_DATA siv_example))"
    "unat (l_get_le16 (drop 2 wrapped_example)) = length (serialize_attrs attrs_example) + 16"
    "length (serialize_attrs attrs_example) = length ciphertext_example - 16"
    "dpp_unwrap_attr siv_example (Some [0x10, 0x20]) None key_siv_example ciphertext_example
       = Returned (Some (serialize_attrs attrs_example, length ciphertext_example - 16))"
    unfolding w by blast+
  from T f1 have t1:
    "dpp_unwrap_attr siv_example (Some [0x10, 0x20]) None key_siv_example
       (ciphertext_example[20 := 0]) = Returned None"
    unfolding w by blast
  from T f2 have t2:
    "dpp_unwrap_attr siv_example (Some [0x10, 0x21]) None key_siv_example ciphertext_example
       = Returned None"
    unfolding w by blast
  from siv_example_spec dpp_append_wrapped_data_example h3 h4 h5 c t1 t2 show ?thesis
    by blast
qed

section \<open>The mutual authentication secret\<close>

lemma scalar_mult_add: "scalar_mult (a + b) P = scalar_mult a P + scalar_mult b P"
  by (induction a) (simp_all add: add.assoc)

lemma scalar_mult_zero: "scalar_mult n (0 :: 'a::ab_group_add) = 0"
  by (induction n) simp_all

lemma scalar_mult_distrib:
  "scalar_mult n (P + Q) = scalar_mult n P + scalar_mult n (Q :: 'a::ab_group_add)"
  by (induction n) (simp_all add: ac_simps)

lemma scalar_mult_mult: "scalar_mult (a * b) P = scalar_mult a (scalar_mult b P)"
  by (induction a) (simp_all add: scalar_mult_add)

lemma scalar_mult_mod:
  assumes "scalar_mult q G = 0"
  shows "scalar_mult (n mod q) G = scalar_mult n G"
proof -
  have "scalar_mult n G = scalar_mult (n div q * q + n mod q) G"
    by simp
  also have "\<dots> = scalar_mult (n div q) (scalar_mult q G) + scalar_mult (n mod q) G"
    by (simp only: scalar_mult_add scalar_mult_mult)
  finally show ?thesis
    by (simp add: assms scalar_mult_zero)
qed

lemma scalar_mult_word: "scalar_mult n (P :: 'a::len word) = of_nat n * P"
  by (induction n) (simp_all add: algebra_simps)

text \<open>
  Claim C9. On one curve, with the group of its points and the order \<open>q\<close> of the
  generator \<open>G\<close>, \<^verbatim>\<open>dpp_derive_lr\<close> of the private keys \<open>bR\<close> and \<open>pR\<close> and the public key
  \<open>bI \<cdot> G\<close> returns the point that \<^verbatim>\<open>dpp_derive_li\<close> returns for the public keys \<open>bR \<cdot> G\<close> and
  \<open>pR \<cdot> G\<close> and the private key \<open>bI\<close>.
\<close>

theorem dpp_derive_li_lr_equal:
  fixes G :: "'a::ab_group_add"
  assumes "scalar_mult q G = 0"
  shows "dpp_derive_lr (ecc_group q) bR pR (scalar_mult bI G)
         = Some (dpp_derive_li (ecc_group q) (scalar_mult bR G) (scalar_mult pR G) bI)"
proof -
  have "scalar_mult ((bR + pR) mod q) (scalar_mult bI G)
        = scalar_mult bI (scalar_mult ((bR + pR) mod q) G)"
    by (simp only: scalar_mult_mult [symmetric] mult.commute)
  also have "\<dots> = scalar_mult bI (scalar_mult bR G + scalar_mult pR G)"
    by (simp only: scalar_mult_mod [OF assms] scalar_mult_add)
  finally show ?thesis
    by (simp add: dpp_derive_lr_def dpp_derive_li_def ecc_group_def)
qed

theorem dpp_derive_li_lr_equal_witness:
  "scalar_mult 256 (3 :: 8 word) = 0 \<and>
   dpp_derive_lr (ecc_group 256) 200 100 (scalar_mult 5 (3 :: 8 word))
   = Some (dpp_derive_li (ecc_group 256) (scalar_mult 200 3) (scalar_mult 100 3) 5)"
proof -
  have h: "scalar_mult 256 (3 :: 8 word) = 0"
    by (simp add: scalar_mult_word)
  show ?thesis
    by (rule conjI [OF h dpp_derive_li_lr_equal [OF h]])
qed

end
